theory Spec2Isabelle
  imports
    Complex_Main
    "HOL-Library.Monad_Syntax"
    "HOL-Library.Char_ord"
    "HOL-Library.List_Lexorder"
    "HOL-Library.AList"
    "HOL-Library.Multiset"
begin

chapter \<open>Sales-analysis dashboard: the data generator and the chart derivations\<close>

text \<open>
  The development embeds the data transformation core of the dashboard:
  the seeded record generator and its cache (\<^verbatim>\<open>dataGenerator\<close>), and the
  derivations of the market analysis page (segment charts, product type chart,
  region/country shares, waterfall, CAGR, bubble separation).

  JavaScript numbers are modelled as exact reals (integers where the code only ever
  holds integers): the rounding of a finite result to the nearest double is not part of
  the model. Where a claim is about non-finite results (the growth rates), numbers are
  values of the type \<open>jsnum\<close>, which has NaN and the two infinities, and an operation
  whose exact result is beyond the range of the doubles overflows to an infinity.
  A thrown exception is the value \<open>None\<close> of an option type.
\<close>

section \<open>JavaScript primitives\<close>

text \<open>
  A number that can be non-finite. \<open>Num r\<close> is a finite number, idealised as the real \<open>r\<close>
  (the sign of a zero is not modelled: a zero is \<open>+0\<close>).
\<close>

datatype jsnum = Number real | PosInf | NegInf | NaN

text \<open>
  The exact results that round to an infinity: those of magnitude at least
  \<open>2^1024 - 2^970\<close>, half an ulp above the largest double (round to nearest, ties to even).
\<close>

definition overflow_bound :: real where
  "overflow_bound = 2 ^ 1024 - 2 ^ 970"

definition js_number :: "real \<Rightarrow> jsnum" where
  "js_number r =
     (if overflow_bound \<le> r then PosInf else if r \<le> - overflow_bound then NegInf else Number r)"

text \<open>The arithmetic of IEEE 754 on these values: \<^verbatim>\<open>-x\<close>, \<^verbatim>\<open>x + y\<close>, \<^verbatim>\<open>x - y\<close>, \<^verbatim>\<open>x * y\<close>,
  \<^verbatim>\<open>x / y\<close> and the comparison \<^verbatim>\<open>x > 0\<close>.\<close>

definition num_neg :: "jsnum \<Rightarrow> jsnum" where
  "num_neg x = (case x of Number a \<Rightarrow> Number (- a) | PosInf \<Rightarrow> NegInf | NegInf \<Rightarrow> PosInf | NaN \<Rightarrow> NaN)"

definition num_add :: "jsnum \<Rightarrow> jsnum \<Rightarrow> jsnum" where
  "num_add x y =
     (case x of
        NaN \<Rightarrow> NaN
      | Number a \<Rightarrow> (case y of Number b \<Rightarrow> js_number (a + b) | _ \<Rightarrow> y)
      | PosInf \<Rightarrow> (case y of NaN \<Rightarrow> NaN | NegInf \<Rightarrow> NaN | _ \<Rightarrow> PosInf)
      | NegInf \<Rightarrow> (case y of NaN \<Rightarrow> NaN | PosInf \<Rightarrow> NaN | _ \<Rightarrow> NegInf))"

definition num_sub :: "jsnum \<Rightarrow> jsnum \<Rightarrow> jsnum" where
  "num_sub x y = num_add x (num_neg y)"

definition num_sign :: "jsnum \<Rightarrow> real" where
  "num_sign x = (case x of Number a \<Rightarrow> sgn a | PosInf \<Rightarrow> 1 | NegInf \<Rightarrow> - 1 | NaN \<Rightarrow> 0)"

definition signed_inf :: "real \<Rightarrow> jsnum" where
  "signed_inf s = (if s < 0 then NegInf else PosInf)"

definition num_mul :: "jsnum \<Rightarrow> jsnum \<Rightarrow> jsnum" where
  "num_mul x y =
     (if x = NaN \<or> y = NaN then NaN
      else case (x, y) of
        (Number a, Number b) \<Rightarrow> js_number (a * b)
      | _ \<Rightarrow> if num_sign x * num_sign y = 0 then NaN else signed_inf (num_sign x * num_sign y))"

definition num_div :: "jsnum \<Rightarrow> jsnum \<Rightarrow> jsnum" where
  "num_div x y =
     (if x = NaN \<or> y = NaN then NaN
      else case y of
        Number b \<Rightarrow>
          (case x of
             Number a \<Rightarrow> if b = 0 then (if a = 0 then NaN else signed_inf a) else js_number (a / b)
           | _ \<Rightarrow> signed_inf (num_sign x * (if b < 0 then - 1 else 1)))
      | _ \<Rightarrow> (case x of Number a \<Rightarrow> Number 0 | _ \<Rightarrow> NaN))"

definition num_positive :: "jsnum \<Rightarrow> bool" where
  "num_positive x = (case x of Number a \<Rightarrow> 0 < a | PosInf \<Rightarrow> True | NegInf \<Rightarrow> False | NaN \<Rightarrow> False)"

text \<open>\<^verbatim>\<open>Math.pow(b, x)\<close>, by the cases of the language specification.\<close>

definition is_odd_integer :: "real \<Rightarrow> bool" where
  "is_odd_integer e = (e = of_int \<lfloor>e\<rfloor> \<and> odd \<lfloor>e\<rfloor>)"

definition Math_pow :: "jsnum \<Rightarrow> jsnum \<Rightarrow> jsnum" where
  "Math_pow b x =
     (case x of
        NaN \<Rightarrow> NaN
      | Number e \<Rightarrow>
          if e = 0 then Number 1
          else (case b of
                  NaN \<Rightarrow> NaN
                | PosInf \<Rightarrow> if 0 < e then PosInf else Number 0
                | NegInf \<Rightarrow> if 0 < e then (if is_odd_integer e then NegInf else PosInf) else Number 0
                | Number a \<Rightarrow>
                    if a = 0 then (if 0 < e then Number 0 else PosInf)
                    else if 0 < a then js_number (a powr e)
                    else if e = of_int \<lfloor>e\<rfloor> then js_number (a powi \<lfloor>e\<rfloor>)
                    else NaN)
      | PosInf \<Rightarrow>
          (case b of
             NaN \<Rightarrow> NaN
           | Number a \<Rightarrow> if 1 < \<bar>a\<bar> then PosInf else if \<bar>a\<bar> = 1 then NaN else Number 0
           | _ \<Rightarrow> PosInf)
      | NegInf \<Rightarrow>
          (case b of
             NaN \<Rightarrow> NaN
           | Number a \<Rightarrow> if 1 < \<bar>a\<bar> then Number 0 else if \<bar>a\<bar> = 1 then NaN else PosInf
           | _ \<Rightarrow> Number 0))"

definition Math_floor :: "real \<Rightarrow> int" where
  "Math_floor x = \<lfloor>x\<rfloor>"

definition Math_round :: "real \<Rightarrow> int" where
  "Math_round x = \<lfloor>x + 1 / 2\<rfloor>"

text \<open>\<^verbatim>\<open>Math.round(x * 100) / 100\<close>\<close>

definition round2 :: "real \<Rightarrow> real" where
  "round2 x = of_int (Math_round (x * 100)) / 100"

definition digit_char :: "nat \<Rightarrow> char" where
  "digit_char d = ''0123456789'' ! d"

text \<open>\<^verbatim>\<open>String(n)\<close> for a non-negative integer.\<close>

fun String_of_nat :: "nat \<Rightarrow> string" where
  "String_of_nat n =
     (if n < 10 then [digit_char n] else String_of_nat (n div 10) @ [digit_char (n mod 10)])"

declare String_of_nat.simps [simp del]

definition startsWith :: "string \<Rightarrow> string \<Rightarrow> bool" where
  "startsWith s p = (take (length p) s = p)"

fun str_includes :: "string \<Rightarrow> string \<Rightarrow> bool" where
  "str_includes [] sub = (sub = [])"
| "str_includes (c # cs) sub = (startsWith (c # cs) sub \<or> str_includes cs sub)"

text \<open>\<^verbatim>\<open>s.split(sep)[0]\<close> for a non-empty separator.\<close>

fun split_first :: "string \<Rightarrow> string \<Rightarrow> string" where
  "split_first sep [] = []"
| "split_first sep (c # cs) = (if startsWith (c # cs) sep then [] else c # split_first sep cs)"

text \<open>An array read \<^verbatim>\<open>xs[i]\<close>; \<open>None\<close> is \<^verbatim>\<open>undefined\<close>.\<close>

definition js_index :: "'a list \<Rightarrow> int \<Rightarrow> 'a option" where
  "js_index xs i = (if 0 \<le> i \<and> i < int (length xs) then Some (xs ! nat i) else None)"

text \<open>The values of \<^verbatim>\<open>new Set(xs)\<close> in insertion order: first occurrences.\<close>

definition Set_values :: "'a list \<Rightarrow> 'a list" where
  "Set_values xs = rev (remdups (rev xs))"

text \<open>\<^verbatim>\<open>m.get(k) || 0\<close> on a map of numbers.\<close>

definition get_or_zero :: "('k \<rightharpoonup> real) \<Rightarrow> 'k \<Rightarrow> real" where
  "get_or_zero m k = (case m k of None \<Rightarrow> 0 | Some v \<Rightarrow> v)"

text \<open>
  \<^verbatim>\<open>Number(s)\<close> for a string of decimal digits; other strings are not modelled (\<open>None\<close>):
  the code only converts the year labels it made with \<^verbatim>\<open>String\<close>.
\<close>

definition is_digit :: "char \<Rightarrow> bool" where
  "is_digit c = (48 \<le> (of_char c :: nat) \<and> (of_char c :: nat) \<le> 57)"

definition digits_value :: "string \<Rightarrow> nat" where
  "digits_value s = foldl (\<lambda>n c. 10 * n + (of_char c - 48)) 0 s"

definition Number_of_string :: "string \<Rightarrow> nat option" where
  "Number_of_string s = (if s \<noteq> [] \<and> list_all is_digit s then Some (digits_value s) else None)"

text \<open>
  A JavaScript object with string keys, as the list of its properties in insertion order.
  \<^verbatim>\<open>Object.entries\<close> lists the keys that are array indices (canonical decimal numbers
  below \<open>2^32 - 1\<close>) first, in ascending order, then the other keys in insertion order.
\<close>

type_synonym 'v js_object = "(string \<times> 'v) list"

definition is_array_index :: "string \<Rightarrow> bool" where
  "is_array_index k =
     (k \<noteq> [] \<and> list_all is_digit k \<and> (k = ''0'' \<or> hd k \<noteq> CHR ''0'')
      \<and> digits_value k < 4294967295)"

definition Object_entries :: "'v js_object \<Rightarrow> (string \<times> 'v) list" where
  "Object_entries obj =
     sort_key (\<lambda>kv. digits_value (fst kv)) (filter (\<lambda>kv. is_array_index (fst kv)) obj)
     @ filter (\<lambda>kv. \<not> is_array_index (fst kv)) obj"

text \<open>
  A property read \<^verbatim>\<open>obj[key]\<close> on an object made by a literal finds an own property, or
  else a member inherited from \<^verbatim>\<open>Object.prototype\<close> (a function, or for \<^verbatim>\<open>__proto__\<close> the
  prototype object itself), or else \<^verbatim>\<open>undefined\<close>.
\<close>

datatype 'v property = Own 'v | Inherited | Undefined

definition Object_prototype_keys :: "string list" where
  "Object_prototype_keys =
     [''constructor'', ''__defineGetter__'', ''__defineSetter__'', ''hasOwnProperty'',
      ''__lookupGetter__'', ''__lookupSetter__'', ''isPrototypeOf'', ''propertyIsEnumerable'',
      ''toString'', ''valueOf'', ''__proto__'', ''toLocaleString'']"

definition inherited_key :: "string \<Rightarrow> bool" where
  "inherited_key key = (key \<in> set Object_prototype_keys)"

definition js_get :: "'v js_object \<Rightarrow> string \<Rightarrow> 'v property" where
  "js_get obj key =
     (case map_of obj key of
        Some v \<Rightarrow> Own v
      | None \<Rightarrow> if inherited_key key then Inherited else Undefined)"

text \<open>
  The value the code goes on with after a read, where it takes it for an object or a
  number of its own making. \<open>None\<close> where the read gave \<^verbatim>\<open>undefined\<close> (the next read of a
  property throws a TypeError) and where it gave a member of \<^verbatim>\<open>Object.prototype\<close>: the
  code would then read, write or add to that function or object, which is outside this
  model.
\<close>

definition own_property :: "'v property \<Rightarrow> 'v option" where
  "own_property p = (case p of Own v \<Rightarrow> Some v | Inherited \<Rightarrow> None | Undefined \<Rightarrow> None)"

text \<open>\<^verbatim>\<open>!obj[key]\<close> where an own property is a number: 0 and \<^verbatim>\<open>undefined\<close> are falsy, an
  inherited function or object is truthy.\<close>

definition falsy_number :: "real property \<Rightarrow> bool" where
  "falsy_number p = (case p of Own v \<Rightarrow> v = 0 | Inherited \<Rightarrow> False | Undefined \<Rightarrow> True)"

section \<open>The record generator (\<^verbatim>\<open>generateComprehensiveData\<close>)\<close>

record ShovelMarketData =
  recordId :: nat
  year :: nat
  region :: string
  country :: string
  productType :: string
  bladeMaterial :: string
  handleLength :: string
  application :: string
  endUser :: string
  distributionChannelType :: string
  distributionChannel :: string
  brand :: string
  company :: string
  price :: real
  volumeUnits :: int
  qty :: int
  revenue :: real
  marketValueUsd :: real
  val :: real
  marketSharePct :: real
  cagr :: real
  yoyGrowth :: real

definition years :: "nat list" where
  "years = map (\<lambda>i. 2021 + i) [0..<15]"

definition regions :: "string list" where
  "regions = [''North India'', ''South India'', ''East India'', ''West India'']"

definition productTypes :: "string list" where
  "productTypes =
    [''Skin Care'',
     ''Skin Care - Serums'',
     ''Skin Care - Moisturizers & Creams'',
     ''Skin Care - Face Oils (Abhyanga / Ayurvedic oils)'',
     ''Skin Care - Face Wash & Cleansers'',
     ''Skin Care - Toners / Mists'',
     ''Skin Care - Sunscreen'',
     ''Hair Care'',
     ''Hair Care - Oils & Serums'',
     ''Hair Care - Shampoos'',
     ''Hair Care - Conditioners & Hair Masks'',
     ''Hair Care - Hair Growth & Scalp Treatments'',
     ''Body Care'',
     ''Body Care - Body Oils (Ayurvedic Abhyangsnan, Massage Oils)'',
     ''Body Care - Lotions & Butters'',
     ''Body Care - Body Wash / Scrubs'',
     ''Cosmetic & Beauty Enhancers'',
     ''Cosmetic & Beauty Enhancers - Makeup (base, eyes, lips)'',
     ''Cosmetic & Beauty Enhancers - Nail & Hand Care'',
     ''Cosmetology Kits'',
     ''Cosmetology Kits - Facial Kits (Anti-Aging, Hydration, Acne)'',
     ''Cosmetology Kits - Hair Treatment Kits'',
     ''Cosmetology Kits - Seasonal Wellness Kits (Festive, Bridal, Ritual-based)'',
     ''Cosmetology Kits - Travel + Daily Routine Kits'']"

definition bladeMaterials :: "string list" where
  "bladeMaterials =
    [''Oils (Ayurvedic, Tonic, Carrier & Herbal blend)'',
     ''Creams & Lotions'',
     ''Serums (water/oil-based, actives)'',
     ''Gels & Mousse'',
     ''Powders (face packs, exfoliants, ubtan)'',
     ''Capsules / Ampoules'',
     ''Bars (soap, shampoo bars)'',
     ''Others (Sprays & Mists, etc.)'']"

definition handleLengths :: "string list" where
  "handleLengths = [''Mass'', ''Premium'', ''Luxury'']"

definition applications :: "string list" where
  "applications =
    [''Gen Z (Ages 10-25)'',
     ''Millennials (Ages 26-41)'',
     ''Gen X (Ages 42-57)'',
     ''Baby Boomers (Ages 58+)'']"

definition professions :: "string list" where
  "professions =
    [''Students'',
     ''Corporate & Office Professionals'',
     ''Home & Family-Centric Consumers'',
     ''Health, Wellness & Beauty Professionals'']"

definition salesChannels :: "string list" where
  "salesChannels =
    [''D2C & Digital Platforms'',
     ''D2C & Digital Platforms - E-commerce Marketplaces (Amazon, Flipkart, etc.)'',
     ''D2C & Digital Platforms - Brand D2C Websites & Apps'',
     ''D2C & Digital Platforms - Quick Commerce Platforms'',
     ''D2C & Digital Platforms - Social / Influencer-led Commerce'',
     ''Offline Retail'',
     ''Offline Retail - Supermarkets / Hypermarkets'',
     ''Offline Retail - Beauty & Cosmetic Specialty Stores'',
     ''Offline Retail - Pharmacies / Drugstores'',
     ''Offline Retail - Neighbourhood / Convenience Stores'',
     ''Offline Retail - Professional & Institutional - Salons & Spa Chains'',
     ''Offline Retail - Professional & Institutional - Aesthetic / Dermatology Clinics'',
     ''Others'',
     ''Others - Direct Selling, MLM Networks, etc.'']"

definition offlineChannels :: "string list" where
  "offlineChannels =
    [''Retail Stores'', ''Pharmacies'', ''Specialty Beauty Stores'', ''Ayurvedic Clinics'']"

definition onlineChannels :: "string list" where
  "onlineChannels = [''Ecommerce Platforms'', ''Brand Website'', ''Social Commerce'']"

definition brands :: "string list" where
  "brands =
    [''Forest Essentials'', ''Kama Ayurveda'', ''Biotique'', ''Himalaya'', ''Patanjali'',
     ''Khadi Natural'', ''Shahnaz Husain'', ''Lotus Herbals'', ''Dabur'', ''Baidyanath'']"

definition companies :: "string list" where
  "companies =
    [''Forest Essentials Pvt Ltd'', ''Kama Ayurveda'', ''Biotique Bio Research'',
     ''Himalaya Wellness'', ''Patanjali Ayurved'', ''Khadi Natural'', ''Shahnaz Herbals'',
     ''Lotus Herbals'', ''Dabur India Ltd'', ''Baidyanath Ayurved'']"

definition countryMap :: "(string \<times> string list) list" where
  "countryMap =
    [(''North India'', []), (''South India'', []), (''East India'', []), (''West India'', [])]"

text \<open>Multiplier tables. A product type entry is (price, volume, cagr).\<close>

definition productTypeMultipliers :: "(string \<times> real \<times> real \<times> real) list" where
  "productTypeMultipliers =
    [(''Skin Care'', 1.0, 1.2, 1.1),
     (''Hair Care'', 0.9, 1.3, 1.2),
     (''Body Care'', 0.85, 1.1, 1.0),
     (''Cosmetic & Beauty Enhancers'', 1.3, 0.9, 1.15),
     (''Cosmetology Kits'', 1.5, 0.8, 1.3)]"

definition getProductTypeMultiplier :: "string \<Rightarrow> real \<times> real \<times> real" where
  "getProductTypeMultiplier = (\<lambda>productType.
     let mainCategory = split_first '' - '' productType
     in case map_of productTypeMultipliers mainCategory of
          Some m \<Rightarrow> m
        | None \<Rightarrow> (1.0, 1.0, 1.0))"

text \<open>A product form entry is (price, volume).\<close>

definition bladeMaterialMultipliers :: "(string \<times> real \<times> real) list" where
  "bladeMaterialMultipliers =
    [(''Oils (Ayurvedic, Tonic, Carrier & Herbal blend)'', 1.2, 1.3),
     (''Creams & Lotions'', 1.0, 1.2),
     (''Serums (water/oil-based, actives)'', 1.4, 0.9),
     (''Gels & Mousse'', 1.1, 1.0),
     (''Powders (face packs, exfoliants, ubtan)'', 0.9, 1.1),
     (''Capsules / Ampoules'', 1.6, 0.7),
     (''Bars (soap, shampoo bars)'', 0.7, 1.4),
     (''Others (Sprays & Mists, etc.)'', 1.0, 1.0)]"

text \<open>An age group entry is (volume, price).\<close>

definition applicationMultipliers :: "(string \<times> real \<times> real) list" where
  "applicationMultipliers =
    [(''Gen Z (Ages 10-25)'', 1.4, 0.9),
     (''Millennials (Ages 26-41)'', 1.5, 1.2),
     (''Gen X (Ages 42-57)'', 1.2, 1.3),
     (''Baby Boomers (Ages 58+)'', 0.9, 1.4)]"

text \<open>A distribution channel entry is (volume, price).\<close>

definition distributionChannelMultipliers :: "(string \<times> real \<times> real) list" where
  "distributionChannelMultipliers =
    [(''Offline'', 1.3, 1.1),
     (''Online'', 1.2, 0.95)]"

text \<open>A region entry is (volume, marketShare).\<close>

definition regionMultipliers :: "(string \<times> real \<times> real) list" where
  "regionMultipliers =
    [(''North India'', 1.5, 1.4),
     (''South India'', 1.3, 1.3),
     (''East India'', 1.2, 1.1),
     (''West India'', 1.4, 1.2)]"

text \<open>\<^verbatim>\<open>brands.forEach((brand, idx) => brandPremiumMap[brand] = 0.8 + (idx % 3) * 0.4)\<close>\<close>

definition brandPremiumMap :: "string \<rightharpoonup> real" where
  "brandPremiumMap =
     fold (\<lambda>(brand, idx) m. m(brand \<mapsto> 0.8 + real (idx mod 3) * 0.4))
       (zip brands [0..<length brands]) Map.empty"

text \<open>\<^verbatim>\<open>brandPremiumMap[brand] || 1.0\<close>: a missing or zero entry gives 1.\<close>

definition brandMult_of :: "string \<Rightarrow> real" where
  "brandMult_of b = (case brandPremiumMap b of None \<Rightarrow> 1.0 | Some v \<Rightarrow> if v = 0 then 1.0 else v)"

text \<open>
  The generator's mutable locals: the seed of the linear congruential generator, the
  next record id and the array of records pushed so far.
\<close>

record gen_state =
  gs_seed :: int
  gs_recordId :: nat
  gs_data :: "ShovelMarketData list"

text \<open>\<^verbatim>\<open>seededRandom\<close> returns the draw and leaves the new seed behind.\<close>

definition seededRandom :: "int \<Rightarrow> real \<times> int" where
  "seededRandom sd = (let sd' = (sd * 9301 + 49297) mod 233280 in (real_of_int sd' / 233280, sd'))"

text \<open>\<^verbatim>\<open>xs[Math.floor(draw * xs.length)]\<close>\<close>

definition pick :: "'a list \<Rightarrow> real \<Rightarrow> 'a option" where
  "pick xs draw = js_index xs (Math_floor (draw * real (length xs)))"

text \<open>The ternary that computes the local \<^verbatim>\<open>distributionChannelType\<close>.\<close>

definition distributionChannelType_of :: "string \<Rightarrow> string" where
  "distributionChannelType_of salesChannel =
     (if startsWith salesChannel ''D2C'' \<or> startsWith salesChannel ''Offline''
         \<or> startsWith salesChannel ''Others''
      then salesChannel else ''Online'')"

text \<open>
  The body of the innermost loop. The multipliers looked up in the outer loops arrive as
  options: reading a property of a missing one throws, as does calling a method of a
  missing sales channel. A pick outside its array is reported the same way (JavaScript
  would store \<^verbatim>\<open>undefined\<close> in the field); lemma \<open>pick_in_range\<close> shows that no pick
  is ever out of range.
\<close>

definition emit_record ::
  "nat \<Rightarrow> string \<Rightarrow> string \<Rightarrow> string \<Rightarrow> string \<Rightarrow> string \<Rightarrow> string \<Rightarrow>
   (real \<times> real) option \<Rightarrow> real \<times> real \<times> real \<Rightarrow> (real \<times> real) option \<Rightarrow> real \<Rightarrow>
   (real \<times> real) option \<Rightarrow> gen_state \<Rightarrow> gen_state option" where
  "emit_record = (\<lambda>year region country productType bladeMaterial handleLength application
      regionMult productMult bladeMult handleMult appMult st. do {
     let (r1, s1) = seededRandom (gs_seed st);
     profession \<leftarrow> pick professions r1;
     let (r2, s2) = seededRandom s1;
     salesChannel \<leftarrow> pick salesChannels r2;
     let distributionChannelType = distributionChannelType_of salesChannel;
     channelMult \<leftarrow> map_of distributionChannelMultipliers
        (if str_includes salesChannel ''Offline'' then ''Offline'' else ''Online'');
     let (r3, s3) = seededRandom s2;
     distributionChannel \<leftarrow>
        (if str_includes salesChannel ''Offline'' then pick offlineChannels r3
         else pick onlineChannels r3);
     let (r4, s4) = seededRandom s3;
     brand \<leftarrow> pick brands r4;
     let brandMult = brandMult_of brand;
     let (r5, s5) = seededRandom s4;
     company \<leftarrow> pick companies r5;
     let (r6, s6) = seededRandom s5;
     let basePrice = 10 + r6 * 90;
     (bladePrice, bladeVolume) \<leftarrow> bladeMult;
     let (productPrice, productVolume, productCagr) = productMult;
     let price = basePrice * productPrice * bladePrice * brandMult * handleMult
                   * (1 + (real year - 2021) * 0.02);
     let (r7, s7) = seededRandom s6;
     let baseVolume = 100 + r7 * 900;
     (regionVolume, regionMarketShare) \<leftarrow> regionMult;
     (appVolume, appPrice) \<leftarrow> appMult;
     let (channelVolume, channelPrice) = channelMult;
     let volumeUnits = Math_floor (baseVolume * regionVolume * productVolume * bladeVolume
                   * appVolume * channelVolume * (1 + (real year - 2021) * 0.05));
     let revenue = price * of_int volumeUnits;
     let (r8, s8) = seededRandom s7;
     let marketValueUsd = revenue * (0.9 + r8 * 0.2);
     let (r9, s9) = seededRandom s8;
     let baseMarketShare = 1 + r9 * 24;
     let marketSharePct = baseMarketShare * regionMarketShare * brandMult;
     let (r10, s10) = seededRandom s9;
     let baseCAGR = - 2 + r10 * 12;
     let cagr = baseCAGR * productCagr;
     let (r11, s11) = seededRandom s10;
     let yoyGrowth = - 5 + r11 * 20;
     let (r12, s12) = seededRandom s11;
     let qty = Math_floor (of_int volumeUnits * (0.8 + r12 * 0.4));
     Some \<lparr>gs_seed = s12,
           gs_recordId = gs_recordId st + 1,
           gs_data = gs_data st @
             [\<lparr>recordId = gs_recordId st,
               year = year,
               region = region,
               country = country,
               productType = productType,
               bladeMaterial = bladeMaterial,
               handleLength = handleLength,
               application = application,
               endUser = profession,
               distributionChannelType = salesChannel,
               distributionChannel = distributionChannel,
               brand = brand,
               company = company,
               price = round2 price,
               volumeUnits = volumeUnits,
               qty = qty,
               revenue = round2 revenue,
               marketValueUsd = round2 marketValueUsd,
               val = round2 marketValueUsd,
               marketSharePct = round2 marketSharePct,
               cagr = round2 cagr,
               yoyGrowth = round2 yoyGrowth\<rparr>]\<rparr>
   })"

text \<open>A \<^verbatim>\<open>for ... of\<close> loop over an array; an exception in the body ends it.\<close>

fun for_each :: "('a \<Rightarrow> 's \<Rightarrow> 's option) \<Rightarrow> 'a list \<Rightarrow> 's \<Rightarrow> 's option" where
  "for_each f [] s = Some s"
| "for_each f (x # xs) s = (case f x s of None \<Rightarrow> None | Some s' \<Rightarrow> for_each f xs s')"

text \<open>The seven nested loops, innermost first.\<close>

definition loop_applications ::
  "nat \<Rightarrow> string \<Rightarrow> string \<Rightarrow> string \<Rightarrow> string \<Rightarrow> string \<Rightarrow>
   (real \<times> real) option \<Rightarrow> real \<times> real \<times> real \<Rightarrow> (real \<times> real) option \<Rightarrow> real \<Rightarrow>
   gen_state \<Rightarrow> gen_state option" where
  "loop_applications = (\<lambda>year region country productType bladeMaterial handleLength
      regionMult productMult bladeMult handleMult.
     for_each (\<lambda>application st.
         let appMult = map_of applicationMultipliers application
         in emit_record year region country productType bladeMaterial handleLength application
              regionMult productMult bladeMult handleMult appMult st)
       applications)"

definition handleMult_of :: "string \<Rightarrow> real" where
  "handleMult_of = (\<lambda>handleLength.
     if handleLength = ''Luxury'' then 1.5 else if handleLength = ''Premium'' then 1.2 else 0.8)"

definition loop_handleLengths ::
  "nat \<Rightarrow> string \<Rightarrow> string \<Rightarrow> string \<Rightarrow> string \<Rightarrow>
   (real \<times> real) option \<Rightarrow> real \<times> real \<times> real \<Rightarrow> (real \<times> real) option \<Rightarrow>
   gen_state \<Rightarrow> gen_state option" where
  "loop_handleLengths = (\<lambda>year region country productType bladeMaterial
      regionMult productMult bladeMult.
     for_each (\<lambda>handleLength st.
         let handleMult = handleMult_of handleLength
         in loop_applications year region country productType bladeMaterial handleLength
              regionMult productMult bladeMult handleMult st)
       handleLengths)"

definition loop_bladeMaterials ::
  "nat \<Rightarrow> string \<Rightarrow> string \<Rightarrow> string \<Rightarrow> (real \<times> real) option \<Rightarrow> real \<times> real \<times> real \<Rightarrow>
   gen_state \<Rightarrow> gen_state option" where
  "loop_bladeMaterials = (\<lambda>year region country productType regionMult productMult.
     for_each (\<lambda>bladeMaterial st.
         let bladeMult = map_of bladeMaterialMultipliers bladeMaterial
         in loop_handleLengths year region country productType bladeMaterial
              regionMult productMult bladeMult st)
       bladeMaterials)"

definition loop_productTypes ::
  "nat \<Rightarrow> string \<Rightarrow> string \<Rightarrow> (real \<times> real) option \<Rightarrow> gen_state \<Rightarrow> gen_state option" where
  "loop_productTypes = (\<lambda>year region country regionMult.
     for_each (\<lambda>productType st.
         let productMult = getProductTypeMultiplier productType
         in loop_bladeMaterials year region country productType regionMult productMult st)
       productTypes)"

text \<open>\<^verbatim>\<open>countryMap[region] || []\<close>, and the region itself when it has no countries.\<close>

definition countriesToProcess :: "string \<Rightarrow> string list" where
  "countriesToProcess = (\<lambda>region.
     let countries = (case map_of countryMap region of Some cs \<Rightarrow> cs | None \<Rightarrow> [])
     in if length countries > 0 then countries else [region])"

definition loop_countries :: "nat \<Rightarrow> string \<Rightarrow> gen_state \<Rightarrow> gen_state option" where
  "loop_countries = (\<lambda>year region st.
     let regionMult = map_of regionMultipliers region
     in for_each (\<lambda>country. loop_productTypes year region country regionMult)
          (countriesToProcess region) st)"

definition loop_regions :: "nat \<Rightarrow> gen_state \<Rightarrow> gen_state option" where
  "loop_regions = (\<lambda>year. for_each (\<lambda>region. loop_countries year region) regions)"

definition generate_loops :: "gen_state \<Rightarrow> gen_state option" where
  "generate_loops = for_each (\<lambda>year. loop_regions year) years"

text \<open>The result is \<open>None\<close> when an exception leaves the function.\<close>

definition generateComprehensiveData :: "ShovelMarketData list option" where
  "generateComprehensiveData =
     map_option gs_data (generate_loops \<lparr>gs_seed = 42, gs_recordId = 100000, gs_data = []\<rparr>)"

section \<open>The cache (\<^verbatim>\<open>getData\<close>, \<^verbatim>\<open>clearDataCache\<close>)\<close>

text \<open>
  \<^verbatim>\<open>dataCache\<close> is \<^verbatim>\<open>null\<close> (\<open>None\<close>) or an array. \<open>getData_with\<close> takes the outcome
  of the generator call inside the \<^verbatim>\<open>try\<close> block and the cache, and returns the result
  with the new cache. An array, also the empty one, is truthy.
\<close>

type_synonym cache = "ShovelMarketData list option"

definition getData_with ::
  "ShovelMarketData list option \<Rightarrow> cache \<Rightarrow> ShovelMarketData list \<times> cache" where
  "getData_with generated dataCache =
     (case dataCache of
        None \<Rightarrow>
          (let dataCache' = (case generated of Some d \<Rightarrow> d | None \<Rightarrow> [])
           in (dataCache', Some dataCache'))
      | Some d \<Rightarrow> (d, Some d))"

definition getData :: "cache \<Rightarrow> ShovelMarketData list \<times> cache" where
  "getData = getData_with generateComprehensiveData"

definition clearDataCache :: "cache \<Rightarrow> cache" where
  "clearDataCache dataCache = None"

text \<open>The array every \<^verbatim>\<open>getData\<close> call of a process returns.\<close>

definition generated_records :: "ShovelMarketData list" where
  "generated_records = (case generateComprehensiveData of Some d \<Rightarrow> d | None \<Rightarrow> [])"

text \<open>The calls a process can make on the module, run from the initial cache.\<close>

datatype cache_call = GetData | ClearDataCache

fun run_calls :: "cache_call list \<Rightarrow> cache \<Rightarrow> cache" where
  "run_calls [] c = c"
| "run_calls (GetData # cs) c = run_calls cs (snd (getData c))"
| "run_calls (ClearDataCache # cs) c = run_calls cs (clearDataCache c)"

section \<open>Compound annual growth rate\<close>

text \<open>\<^verbatim>\<open>x || 0\<close> on a number that can be missing: \<^verbatim>\<open>undefined\<close>, NaN and 0 give 0.\<close>

definition or_zero :: "jsnum option \<Rightarrow> jsnum" where
  "or_zero x = (case x of None \<Rightarrow> Number 0 | Some NaN \<Rightarrow> Number 0 | Some v \<Rightarrow> v)"

text \<open>
  The attractiveness chart (\<^verbatim>\<open>bubbleChartData\<close>) reads the two endpoints with
  \<^verbatim>\<open>values.find((_, i) => years[i] === y) || 0\<close> and computes the rate over the fixed
  span 2025 to 2032.
\<close>

definition value_in_year :: "jsnum list \<Rightarrow> nat list \<Rightarrow> nat \<Rightarrow> jsnum" where
  "value_in_year vals yrs y =
     or_zero (map_option fst (find (\<lambda>(v, yr). yr = Some y)
                (zip vals (map (\<lambda>i. js_index yrs (int i)) [0..<length vals]))))"

definition bubble_cagr :: "jsnum \<Rightarrow> jsnum \<Rightarrow> jsnum" where
  "bubble_cagr startValue endValue =
     (let startYear = 2025; endYear = 2032 in
      if num_positive startValue \<and> num_positive endValue then
        (let years = endYear - startYear in
         num_mul (num_sub (Math_pow (num_div endValue startValue) (num_div (Number 1) (Number years)))
                    (Number 1)) (Number 100))
      else Number 0)"

text \<open>
  The year-over-year chart (\<^verbatim>\<open>yoyCagrDataByEntity\<close>) computes, for the year at each
  index of the sorted year list, the rate since the first year \<^verbatim>\<open>years[0]\<close>. Were the list
  empty, \<^verbatim>\<open>years[0]\<close> would be \<^verbatim>\<open>undefined\<close> and the first value 0.
\<close>

definition yoy_cagr :: "nat list \<Rightarrow> (nat \<rightharpoonup> jsnum) \<Rightarrow> nat \<Rightarrow> nat \<Rightarrow> jsnum" where
  "yoy_cagr yrs yearDataMap = (\<lambda>year index.
     let currentValue = or_zero (yearDataMap year) in
     if index > 0 then
       (case js_index yrs 0 of
          None \<Rightarrow> Number 0
        | Some firstYear \<Rightarrow>
            (let firstValue = or_zero (yearDataMap firstYear) in
             if num_positive firstValue \<and> num_positive currentValue then
               (let yearsDiff = real year - real firstYear in
                if yearsDiff > 0 then
                  num_mul (num_sub (Math_pow (num_div currentValue firstValue)
                                      (num_div (Number 1) (Number yearsDiff)))
                             (Number 1)) (Number 100)
                else Number 0)
             else Number 0))
     else Number 0)"

text \<open>\<^verbatim>\<open>years.map((year, index) => ...)\<close>, the \<^verbatim>\<open>cagr\<close> of each entry.\<close>

definition yoy_cagr_series :: "nat list \<Rightarrow> (nat \<rightharpoonup> jsnum) \<Rightarrow> jsnum list" where
  "yoy_cagr_series yrs yearDataMap =
     map (\<lambda>(year, index). yoy_cagr yrs yearDataMap year index) (zip yrs [0..<length yrs])"

section \<open>Incremental opportunity (\<^verbatim>\<open>waterfallData\<close>)\<close>

text \<open>
  \<^verbatim>\<open>data.filter(d => d.year === y).reduce((sum, d) => sum + (d.marketValueUsd || 0) / 1000, 0)\<close>
\<close>

definition year_total :: "ShovelMarketData list \<Rightarrow> nat \<Rightarrow> real" where
  "year_total filteredIncrementalData y =
     foldl (\<lambda>sum d. sum + marketValueUsd d / 1000) 0
       (filter (\<lambda>d. year d = y) filteredIncrementalData)"

text \<open>The 2024 total, or 57159 when that total is zero.\<close>

definition waterfall_baseValue :: "ShovelMarketData list \<Rightarrow> real" where
  "waterfall_baseValue filteredIncrementalData =
     (let total = year_total filteredIncrementalData 2024 in if total = 0 then 57159 else total)"

definition default_increments :: "real list" where
  "default_increments = [2638.4, 2850.4, 3055.6, 3231.0, 3432.9, 3674.2, 3885.1]"

text \<open>The loop over the years 2025 to 2031; an entry is the year label and the increment.\<close>

definition incrementalValues :: "ShovelMarketData list \<Rightarrow> (string \<times> real) list" where
  "incrementalValues filteredIncrementalData =
     (let baseValue = waterfall_baseValue filteredIncrementalData in
      map (\<lambda>year.
             let yearValue = year_total filteredIncrementalData year;
                 prevYearValue = year_total filteredIncrementalData (year - 1);
                 incremental =
                   (if yearValue > 0 \<and> prevYearValue > 0 then yearValue - prevYearValue
                    else default_increments ! (year - 2025) * (baseValue / 57159))
             in (String_of_nat year, incremental))
        [2025..<2032])"

text \<open>An entry of the chart; a field that the object does not have is \<open>None\<close> or \<open>False\<close>.\<close>

record waterfall_entry =
  wf_year :: string
  wf_baseValue :: "real option"
  wf_incrementalValue :: "real option"
  wf_totalValue :: real
  wf_isBase :: bool
  wf_isTotal :: bool

text \<open>
  The \<^verbatim>\<open>map\<close> over the increments adds each one to \<^verbatim>\<open>cumulative\<close>; the function
  returns the entries and the last value of \<^verbatim>\<open>cumulative\<close>.
\<close>

fun accumulate :: "real \<Rightarrow> (string \<times> real) list \<Rightarrow> waterfall_entry list \<times> real" where
  "accumulate cumulative [] = ([], cumulative)"
| "accumulate cumulative (item # items) =
     (let cumulative' = cumulative + snd item;
          (entries, final) = accumulate cumulative' items
      in (\<lparr>wf_year = fst item, wf_baseValue = None, wf_incrementalValue = Some (snd item),
            wf_totalValue = cumulative', wf_isBase = False, wf_isTotal = False\<rparr> # entries,
          final))"

text \<open>The result: \<^verbatim>\<open>chartData\<close> and \<^verbatim>\<open>incrementalOpportunity\<close>.\<close>

definition waterfallData :: "ShovelMarketData list \<Rightarrow> waterfall_entry list \<times> real" where
  "waterfallData filteredIncrementalData =
     (let baseValue = waterfall_baseValue filteredIncrementalData;
          incs = incrementalValues filteredIncrementalData;
          (entries, cumulative) = accumulate baseValue incs;
          chartData =
            [\<lparr>wf_year = ''2024'', wf_baseValue = Some baseValue, wf_incrementalValue = None,
              wf_totalValue = baseValue, wf_isBase = True, wf_isTotal = False\<rparr>]
            @ entries
            @ [\<lparr>wf_year = ''2032'', wf_baseValue = Some cumulative, wf_incrementalValue = None,
               wf_totalValue = cumulative, wf_isBase = False, wf_isTotal = True\<rparr>];
          totalIncremental = foldl (\<lambda>sum item. sum + snd item) 0 incs
      in (chartData, totalIncremental))"

section \<open>The market analysis page: filters and charts\<close>

datatype MarketEvaluationType = By_Value | By_Volume

record filters =
  filter_year :: "nat list"
  filter_country :: "string list"
  filter_productType :: "string list"
  filter_bladeMaterial :: "string list"
  filter_handleLength :: "string list"
  filter_application :: "string list"
  filter_endUser :: "string list"
  filter_distributionChannelType :: "string list"
  filter_distributionChannel :: "string list"
  marketEvaluation :: MarketEvaluationType



definition getDataValue :: "filters \<Rightarrow> ShovelMarketData \<Rightarrow> real" where
  "getDataValue fs d =
     (if marketEvaluation fs = By_Volume then real_of_int (volumeUnits d)
      else marketValueUsd d / 1000)"

text \<open>\<^verbatim>\<open>[...new Set(filteredData.map(d => d.year))].sort()\<close>: the default sort compares the
  decimal representations.\<close>

definition years_of :: "ShovelMarketData list \<Rightarrow> nat list" where
  "years_of fd = sort_key String_of_nat (Set_values (map year fd))"

text \<open>\<^verbatim>\<open>[...new Set(filteredData.map(f))].filter(Boolean).sort()\<close>\<close>

definition values_from_data :: "(ShovelMarketData \<Rightarrow> string) \<Rightarrow> ShovelMarketData list \<Rightarrow> string list" where
  "values_from_data f fd = sort (filter (\<lambda>s. s \<noteq> []) (Set_values (map f fd)))"

text \<open>The segment axis: the selection when there is one, the values of the data otherwise.\<close>

definition segment_axis ::
  "(ShovelMarketData \<Rightarrow> string) \<Rightarrow> string list option \<Rightarrow> ShovelMarketData list \<Rightarrow> string list" where
  "segment_axis getSegmentValue selectedSegments fd =
     (let segmentsFromData = values_from_data getSegmentValue fd in
      case selectedSegments of
        Some sel \<Rightarrow>
          if length sel > 0 then sort (filter (\<lambda>s. s \<noteq> []) sel) else segmentsFromData
      | None \<Rightarrow> segmentsFromData)"

text \<open>A chart row is an object whose properties are the year label and a number per
  segment.\<close>

datatype cell = Str string | Num real

type_synonym row = "string \<rightharpoonup> cell"

text \<open>
  The write \<^verbatim>\<open>entry[key] = v\<close> of a number on a row. The key \<^verbatim>\<open>__proto__\<close> names the accessor
  that the row inherits from \<^verbatim>\<open>Object.prototype\<close>; its setter ignores a value that is not an
  object, so that write makes no property. Any other key becomes, or stays, a property of
  the row.
\<close>

definition row_set :: "row \<Rightarrow> string \<Rightarrow> cell \<Rightarrow> row" where
  "row_set entry key v = (if key = ''__proto__'' then entry else entry(key \<mapsto> v))"

text \<open>The key \<^verbatim>\<open>`${year}-${segment}`\<close>.\<close>

definition segment_key :: "nat \<Rightarrow> string \<Rightarrow> string" where
  "segment_key y segment = String_of_nat y @ ''-'' @ segment"

definition generateSegmentChartData ::
  "filters \<Rightarrow> ShovelMarketData list \<Rightarrow> string \<Rightarrow> (ShovelMarketData \<Rightarrow> string) \<Rightarrow>
   string list option \<Rightarrow> row list \<times> string list" where
  "generateSegmentChartData fs fd segmentKey getSegmentValue selectedSegments =
     (let segments = segment_axis getSegmentValue selectedSegments fd;
          segmentMap =
            fold (\<lambda>d m. let key = segment_key (year d) (getSegmentValue d)
                        in m(key \<mapsto> get_or_zero m key + getDataValue fs d))
              fd Map.empty;
          chartData =
            map (\<lambda>year.
                   fold (\<lambda>segment entry.
                           let key = segment_key year segment
                           in row_set entry segment (Num (get_or_zero segmentMap key)))
                     segments [''year'' \<mapsto> Str (String_of_nat year)])
              (years_of fd)
      in (chartData, segments))"

text \<open>The nested map of the stacked charts: year, then segment.\<close>

definition add_to_year_map ::
  "nat \<Rightarrow> string \<Rightarrow> real \<Rightarrow> (nat \<rightharpoonup> (string \<rightharpoonup> real)) \<Rightarrow> (nat \<rightharpoonup> (string \<rightharpoonup> real))" where
  "add_to_year_map y segment v yearSegmentMap =
     (let yearSegmentMap' =
            (if yearSegmentMap y = None then yearSegmentMap(y \<mapsto> Map.empty) else yearSegmentMap);
          segmentMap = (case yearSegmentMap' y of Some m \<Rightarrow> m | None \<Rightarrow> Map.empty)
      in yearSegmentMap'(y \<mapsto> segmentMap(segment \<mapsto> get_or_zero segmentMap segment + v)))"

text \<open>\<^verbatim>\<open>(entry[segment] as number) > 0\<close>. A key that is no property of the row reads as
  \<^verbatim>\<open>undefined\<close> or as a member of \<^verbatim>\<open>Object.prototype\<close>, and both compare false.\<close>

definition cell_positive :: "cell option \<Rightarrow> bool" where
  "cell_positive c =
     (case c of
        Some (Num v) \<Rightarrow> v > 0
      | Some (Str s) \<Rightarrow> (case Number_of_string s of Some n \<Rightarrow> n > 0 | None \<Rightarrow> False)
      | None \<Rightarrow> False)"

definition stacked_rows ::
  "(nat \<rightharpoonup> (string \<rightharpoonup> real)) \<Rightarrow> string list \<Rightarrow> nat list \<Rightarrow> row list" where
  "stacked_rows yearSegmentMap segments yrs =
     map (\<lambda>year.
            let segmentMap = (case yearSegmentMap year of Some m \<Rightarrow> m | None \<Rightarrow> Map.empty)
            in fold (\<lambda>segment entry. row_set entry segment (Num (get_or_zero segmentMap segment)))
                 segments [''year'' \<mapsto> Str (String_of_nat year)])
       yrs"

definition generateYearWiseStackedBarData ::
  "filters \<Rightarrow> ShovelMarketData list \<Rightarrow> (ShovelMarketData \<Rightarrow> string) \<Rightarrow>
   string list option \<Rightarrow> row list \<times> string list" where
  "generateYearWiseStackedBarData fs fd getSegmentValue selectedSegments =
     (let segments = segment_axis getSegmentValue selectedSegments fd;
          yearSegmentMap =
            fold (\<lambda>d m. let segment = getSegmentValue d
                        in if segment \<noteq> [] then add_to_year_map (year d) segment (getDataValue fs d) m
                           else m)
              fd Map.empty;
          chartData = stacked_rows yearSegmentMap segments (years_of fd);
          activeSegments =
            filter (\<lambda>segment. list_ex (\<lambda>entry. cell_positive (entry segment)) chartData) segments
      in (chartData, activeSegments))"

subsection \<open>The product type chart (\<^verbatim>\<open>generateProductTypeChartData\<close>)\<close>

definition getProductTypeHierarchy :: "(string \<times> string list) list" where
  "getProductTypeHierarchy =
    [(''Skin Care'',
       [''Serums'', ''Moisturizers & Creams'', ''Face Oils (Abhyanga / Ayurvedic oils)'',
        ''Face Wash & Cleansers'', ''Toners / Mists'', ''Sunscreen'']),
     (''Hair Care'',
       [''Oils & Serums'', ''Shampoos'', ''Conditioners & Hair Masks'',
        ''Hair Growth & Scalp Treatments'']),
     (''Body Care'',
       [''Body Oils (Ayurvedic Abhyangsnan, Massage Oils)'', ''Lotions & Butters'',
        ''Body Wash / Scrubs'']),
     (''Cosmetic & Beauty Enhancers'',
       [''Makeup (base, eyes, lips)'', ''Nail & Hand Care'']),
     (''Cosmetology Kits'',
       [''Facial Kits (Anti-Aging, Hydration, Acne)'', ''Hair Treatment Kits'',
        ''Seasonal Wellness Kits (Festive, Bridal, Ritual-based)'',
        ''Travel + Daily Routine Kits''])]"

text \<open>The map from a parent to its children, written \<^verbatim>\<open>`${parent} - ${sub}`\<close>.\<close>

definition parentToChildren :: "string \<rightharpoonup> string list" where
  "parentToChildren =
     fold (\<lambda>item m. let parent = fst item;
                         children = map (\<lambda>sub. parent @ '' - '' @ sub) (snd item)
                     in m(parent \<mapsto> children))
       getProductTypeHierarchy Map.empty"

record product_chart =
  pc_chartData :: "row list"
  pc_segments :: "string list"
  pc_stackedChartData :: "row list"
  pc_stackedSegments :: "string list"
  pc_isStacked :: bool




text \<open>The segment axis of the grouped chart.\<close>

definition segmentsToShow :: "string list \<Rightarrow> ShovelMarketData list \<Rightarrow> string list" where
  "segmentsToShow selectedProductTypes fd =
     (let allProductTypesFromData = values_from_data productType fd;
          pushed =
            (if length selectedProductTypes > 0 then
               fold (\<lambda>selected acc.
                       case parentToChildren selected of
                         Some children \<Rightarrow>
                           fold (\<lambda>child acc. if child \<in> set allProductTypesFromData
                                              then acc @ [child] else acc) children acc
                       | None \<Rightarrow>
                           if selected \<in> set allProductTypesFromData then acc @ [selected]
                           else acc)
                 selectedProductTypes []
             else allProductTypesFromData)
      in sort (Set_values pushed))"

text \<open>The stacked result for the valid children of one parent.\<close>

definition stacked_product_chart ::
  "filters \<Rightarrow> ShovelMarketData list \<Rightarrow> string list \<Rightarrow> product_chart" where
  "stacked_product_chart fs fd valid =
     (let yearChildMap =
            fold (\<lambda>d m. if productType d \<in> set valid
                         then add_to_year_map (year d) (productType d) (getDataValue fs d) m
                         else m)
              fd Map.empty;
          chartData = stacked_rows yearChildMap valid (years_of fd)
      in \<lparr>pc_chartData = [], pc_segments = [], pc_stackedChartData = chartData,
           pc_stackedSegments = valid, pc_isStacked = True\<rparr>)"

text \<open>The default: the grouped result.\<close>

definition grouped_product_chart ::
  "filters \<Rightarrow> ShovelMarketData list \<Rightarrow> string list \<Rightarrow> product_chart" where
  "grouped_product_chart fs fd selectedProductTypes =
     (let segs = segmentsToShow selectedProductTypes fd;
          segmentMap =
            fold (\<lambda>d m. if productType d \<in> set segs
                         then (let key = segment_key (year d) (productType d)
                               in m(key \<mapsto> get_or_zero m key + getDataValue fs d))
                         else m)
              fd Map.empty;
          chartData =
            map (\<lambda>year.
                   fold (\<lambda>segment entry.
                           let key = segment_key year segment
                           in row_set entry segment (Num (get_or_zero segmentMap key)))
                     segs [''year'' \<mapsto> Str (String_of_nat year)])
              (years_of fd)
      in \<lparr>pc_chartData = chartData, pc_segments = segs, pc_stackedChartData = [],
           pc_stackedSegments = [], pc_isStacked = False\<rparr>)"



text \<open>A record with the given year, region, country, product type, market value and
  volume, for examples.\<close>

definition example_record ::
  "nat \<Rightarrow> string \<Rightarrow> string \<Rightarrow> string \<Rightarrow> real \<Rightarrow> int \<Rightarrow> ShovelMarketData" where
  "example_record y r c pt mv vol =
     \<lparr>recordId = 100000, year = y, region = r, country = c, productType = pt,
      bladeMaterial = ''Creams & Lotions'', handleLength = ''Mass'',
      application = ''Gen X (Ages 42-57)'', endUser = ''Students'',
      distributionChannelType = ''Others'', distributionChannel = ''Brand Website'',
      brand = ''Dabur'', company = ''Dabur India Ltd'', price = 1, volumeUnits = vol, qty = vol,
      revenue = mv, marketValueUsd = mv, val = mv, marketSharePct = 1, cagr = 1,
      yoyGrowth = 1\<rparr>"

definition no_filters :: filters where
  "no_filters =
     \<lparr>filter_year = [], filter_country = [], filter_productType = [],
      filter_bladeMaterial = [], filter_handleLength = [], filter_application = [],
      filter_endUser = [], filter_distributionChannelType = [],
      filter_distributionChannel = [], marketEvaluation = By_Value\<rparr>"

text \<open>The sum of the values of the records of a year and a segment.\<close>

definition segment_total ::
  "filters \<Rightarrow> ShovelMarketData list \<Rightarrow> (ShovelMarketData \<Rightarrow> string) \<Rightarrow> nat \<Rightarrow> string \<Rightarrow> real" where
  "segment_total fs fd getSegmentValue y segment =
     sum_list (map (getDataValue fs) (filter (\<lambda>d. year d = y \<and> getSegmentValue d = segment) fd))"

definition ex_fd :: "ShovelMarketData list" where
 "ex_fd = [example_record 2024 ''North India'' ''North India'' ''Skin Care'' 1000 5,
           example_record 2025 ''North India'' ''North India'' ''Hair Care'' 3000 7]"



subsection \<open>Region and country shares (\<^verbatim>\<open>regionCountryPercentageChartData\<close>)\<close>

text \<open>
  \<^verbatim>\<open>regionYearData\<close> maps a year label to a region to a country to a sum, and
  \<^verbatim>\<open>regionYearTotals\<close> a year label to a region to a sum. A property assignment keeps
  the place of a key the object has and appends a new key (\<open>AList.update\<close>).
\<close>

type_synonym region_year_data = "(string \<times> real) list js_object js_object"

type_synonym region_year_totals = "real js_object js_object"

text \<open>
  The body of the \<^verbatim>\<open>forEach\<close>. The three guards \<^verbatim>\<open>!obj[key]\<close> read through the prototype
  chain; the reads that follow go on with an own property (\<open>own_property\<close>).
\<close>

definition region_step ::
  "filters \<Rightarrow> ShovelMarketData \<Rightarrow> region_year_data \<times> region_year_totals \<Rightarrow>
   (region_year_data \<times> region_year_totals) option" where
  "region_step fs d = (\<lambda>(regionYearData, regionYearTotals).
     let v = getDataValue fs d;
         yearKey = String_of_nat (year d);
         (data1, totals1) =
           (if js_get regionYearData yearKey = Undefined
            then (AList.update yearKey [] regionYearData, AList.update yearKey [] regionYearTotals)
            else (regionYearData, regionYearTotals))
     in do {
       yearData \<leftarrow> own_property (js_get data1 yearKey);
       yearTotals \<leftarrow> own_property (js_get totals1 yearKey);
       let (yearData2, yearTotals2) =
           (if js_get yearData (region d) = Undefined
            then (AList.update (region d) [] yearData, AList.update (region d) 0 yearTotals)
            else (yearData, yearTotals));
       countries \<leftarrow> own_property (js_get yearData2 (region d));
       let countries2 =
           (if falsy_number (js_get countries (country d))
            then AList.update (country d) 0 countries else countries);
       countryValue \<leftarrow> own_property (js_get countries2 (country d));
       let countries3 = AList.update (country d) (countryValue + v) countries2;
       total \<leftarrow> own_property (js_get yearTotals2 (region d));
       Some (AList.update yearKey (AList.update (region d) countries3 yearData2) data1,
             AList.update yearKey (AList.update (region d) (total + v) yearTotals2) totals1)
     })"

definition region_year_fold ::
  "filters \<Rightarrow> ShovelMarketData list \<Rightarrow> (region_year_data \<times> region_year_totals) option" where
  "region_year_fold fs fd = for_each (region_step fs) fd ([], [])"

record region_entry =
  re_year :: "nat option"
  re_region :: string
  re_country :: string
  re_value :: real
  re_yearRegion :: string

text \<open>
  The entries of one region of one year, from its total \<^verbatim>\<open>regionYearTotals[year][region]\<close>
  and its countries. The division is guarded by \<^verbatim>\<open>totalValue > 0\<close>, which is false of a
  total that is \<^verbatim>\<open>undefined\<close> or inherited.
\<close>

definition region_entries ::
  "filters \<Rightarrow> string \<Rightarrow> string \<Rightarrow> real property \<Rightarrow> (string \<times> real) list \<Rightarrow>
   region_entry list" where
  "region_entries fs yearKey regionName totalValue countriesData =
     (let countryList = sort (map fst (Object_entries countriesData)) in
      map (\<lambda>countryName.
             let v = get_or_zero (map_of countriesData) countryName;
                 percentage =
                   (case totalValue of
                      Own t \<Rightarrow> if t > 0 then v / t * 100 else 0
                    | _ \<Rightarrow> 0)
             in \<lparr>re_year = Number_of_string yearKey,
                  re_region = regionName,
                  re_country = countryName,
                  re_value = (if marketEvaluation fs = By_Volume then v else percentage),
                  re_yearRegion = yearKey @ '' - '' @ regionName\<rparr>)
        countryList)"

text \<open>\<^verbatim>\<open>xs.flatMap(f)\<close> for a callback that can throw.\<close>

definition flatMap :: "('a \<Rightarrow> 'b list option) \<Rightarrow> 'a list \<Rightarrow> 'b list option" where
  "flatMap f xs = map_option concat (those (map f xs))"

definition regionCountryPercentageChartData ::
  "filters \<Rightarrow> ShovelMarketData list \<Rightarrow> region_entry list option" where
  "regionCountryPercentageChartData fs fd = do {
     (regionYearData, regionYearTotals) \<leftarrow> region_year_fold fs fd;
     flatMap (\<lambda>(yearKey, regionData).
                flatMap (\<lambda>(regionName, countriesData). do {
                           yearTotals \<leftarrow> own_property (js_get regionYearTotals yearKey);
                           Some (region_entries fs yearKey regionName
                                   (js_get yearTotals regionName) countriesData)
                         })
                  (Object_entries regionData))
       (Object_entries regionYearData)
   }"

text \<open>The sums of the values of a year and region, and of a year, region and country.\<close>

definition region_total :: "filters \<Rightarrow> ShovelMarketData list \<Rightarrow> nat \<Rightarrow> string \<Rightarrow> real" where
  "region_total fs fd y r =
     sum_list (map (getDataValue fs) (filter (\<lambda>d. year d = y \<and> region d = r) fd))"

definition country_total ::
  "filters \<Rightarrow> ShovelMarketData list \<Rightarrow> nat \<Rightarrow> string \<Rightarrow> string \<Rightarrow> real" where
  "country_total fs fd y r c =
     sum_list (map (getDataValue fs)
       (filter (\<lambda>d. year d = y \<and> region d = r \<and> country d = c) fd))"

text \<open>
  What the loop computes, level by level: \<open>upd_with k f dflt\<close> replaces the value under
  \<open>k\<close>, or the default when the key is new, by its image under \<open>f\<close>.
\<close>

definition upd_with :: "'k \<Rightarrow> ('v \<Rightarrow> 'v) \<Rightarrow> 'v \<Rightarrow> ('k \<times> 'v) list \<Rightarrow> ('k \<times> 'v) list" where
  "upd_with k f dflt al = AList.update k (f (case map_of al k of None \<Rightarrow> dflt | Some x \<Rightarrow> x)) al"

definition add_country :: "ShovelMarketData \<Rightarrow> real \<Rightarrow> (string \<times> real) list \<Rightarrow> (string \<times> real) list" where
  "add_country d v = upd_with (country d) (\<lambda>x. x + v) 0"

definition add_region ::
  "ShovelMarketData \<Rightarrow> real \<Rightarrow> (string \<times> real) list js_object \<Rightarrow> (string \<times> real) list js_object" where
  "add_region d v = upd_with (region d) (add_country d v) []"

definition add_year :: "filters \<Rightarrow> ShovelMarketData \<Rightarrow> region_year_data \<Rightarrow> region_year_data" where
  "add_year fs d = upd_with (String_of_nat (year d)) (add_region d (getDataValue fs d)) []"

definition add_region_total :: "ShovelMarketData \<Rightarrow> real \<Rightarrow> real js_object \<Rightarrow> real js_object" where
  "add_region_total d v = upd_with (region d) (\<lambda>x. x + v) 0"

definition add_year_total :: "filters \<Rightarrow> ShovelMarketData \<Rightarrow> region_year_totals \<Rightarrow> region_year_totals" where
  "add_year_total fs d =
     upd_with (String_of_nat (year d)) (add_region_total d (getDataValue fs d)) []"

text \<open>The totals object has the years and regions that the data object has.\<close>

definition keys_agree :: "region_year_data \<Rightarrow> region_year_totals \<Rightarrow> bool" where
  "keys_agree ryd ryt =
     (\<forall>yk. case (map_of ryd yk, map_of ryt yk) of
             (None, None) \<Rightarrow> True
           | (Some rd, Some rt) \<Rightarrow> (\<forall>r. map_of rd r = None \<longleftrightarrow> map_of rt r = None)
           | _ \<Rightarrow> False)"

text \<open>The objects of one year, and the countries of one year and region.\<close>

definition year_regions ::
  "filters \<Rightarrow> ShovelMarketData list \<Rightarrow> nat \<Rightarrow> (string \<times> real) list js_object" where
  "year_regions fs fd y =
     fold (\<lambda>d. add_region d (getDataValue fs d)) (filter (\<lambda>d. year d = y) fd) []"

definition year_totals :: "filters \<Rightarrow> ShovelMarketData list \<Rightarrow> nat \<Rightarrow> real js_object" where
  "year_totals fs fd y =
     fold (\<lambda>d. add_region_total d (getDataValue fs d)) (filter (\<lambda>d. year d = y) fd) []"

definition group_countries ::
  "filters \<Rightarrow> ShovelMarketData list \<Rightarrow> nat \<Rightarrow> string \<Rightarrow> (string \<times> real) list" where
  "group_countries fs fd y r =
     fold (\<lambda>d. add_country d (getDataValue fs d))
       (filter (\<lambda>d. year d = y \<and> region d = r) fd) []"

text \<open>The entry of a year, region and country, from the sums over the filtered data.\<close>

definition share_entry ::
  "filters \<Rightarrow> ShovelMarketData list \<Rightarrow> nat \<Rightarrow> string \<Rightarrow> string \<Rightarrow> region_entry" where
  "share_entry fs fd y r c =
     \<lparr>re_year = Some y,
      re_region = r,
      re_country = c,
      re_value =
        (if marketEvaluation fs = By_Volume then country_total fs fd y r c
         else if region_total fs fd y r > 0
              then country_total fs fd y r c / region_total fs fd y r * 100
              else 0),
      re_yearRegion = String_of_nat y @ '' - '' @ r\<rparr>"

text \<open>Example data for the region and country shares.\<close>

definition share_data :: "ShovelMarketData list" where
  "share_data =
     [example_record 2024 ''North India'' ''Delhi'' ''Skin Care'' 1000 5,
      example_record 2024 ''North India'' ''Punjab'' ''Hair Care'' 3000 7,
      example_record 2025 ''South India'' ''Kerala'' ''Hair Care'' 0 0]"

text \<open>
  A record as the loop body builds it: its categorical draws come from the arrays, and
  its price, revenue and market value are the roundings of a price \<open>p\<close>, of \<open>p\<close> times the
  volume, and of that revenue times a noise factor \<open>f\<close>.
\<close>

definition emitted :: "ShovelMarketData \<Rightarrow> bool" where
  "emitted r =
     (distributionChannelType r \<in> set salesChannels \<and> endUser r \<in> set professions
      \<and> brand r \<in> set brands \<and> company r \<in> set companies
      \<and> distributionChannel r \<in> set offlineChannels \<union> set onlineChannels
      \<and> 0 \<le> volumeUnits r \<and> val r = marketValueUsd r
      \<and> (\<exists>p f. 0 \<le> p \<and> 0.9 \<le> f \<and> f < 1.1
             \<and> price r = round2 p
             \<and> revenue r = round2 (p * of_int (volumeUnits r))
             \<and> marketValueUsd r = round2 (p * of_int (volumeUnits r) * f)))"

text \<open>The loop body, with the multipliers that the loops look up for it.\<close>

definition emit_in_loops ::
  "nat \<Rightarrow> string \<Rightarrow> string \<Rightarrow> string \<Rightarrow> string \<Rightarrow> string \<Rightarrow> string \<Rightarrow>
   gen_state \<Rightarrow> gen_state option" where
  "emit_in_loops yr rg ct pt bl hl ap =
     emit_record yr rg ct pt bl hl ap (map_of regionMultipliers rg) (getProductTypeMultiplier pt)
       (map_of bladeMaterialMultipliers bl) (handleMult_of hl) (map_of applicationMultipliers ap)"

text \<open>A property of the generator state that every pass of the loop body keeps.\<close>

definition kept_by_emit :: "(gen_state \<Rightarrow> bool) \<Rightarrow> bool" where
  "kept_by_emit I =
     (\<forall>yr rg ct pt bl hl ap st.
        yr \<in> set years \<and> rg \<in> set regions \<and> bl \<in> set bladeMaterials \<and> ap \<in> set applications
        \<and> I st \<longrightarrow> (\<exists>st'. emit_in_loops yr rg ct pt bl hl ap st = Some st' \<and> I st'))"

text \<open>The record of the first pass of the loops, from the seed 42.\<close>

definition first_record :: ShovelMarketData where
  "first_record =
     \<lparr>recordId = 100000, year = 2021, region = ''North India'', country = ''North India'',
      productType = ''Skin Care'',
      bladeMaterial = ''Oils (Ayurvedic, Tonic, Carrier & Herbal blend)'',
      handleLength = ''Mass'', application = ''Gen Z (Ages 10-25)'',
      endUser = ''Health, Wellness & Beauty Professionals'',
      distributionChannelType =
        ''Offline Retail - Professional & Institutional - Aesthetic / Dermatology Clinics'',
      distributionChannel = ''Ayurvedic Clinics'', brand = ''Lotus Herbals'',
      company = ''Khadi Natural'', price = 86.28, volumeUnits = 2710, qty = 2516,
      revenue = 233811.57, marketValueUsd = 212951.75, val = 212951.75,
      marketSharePct = 30.02, cagr = 8.11, yoyGrowth = 9.21\<rparr>"

section \<open>Properties\<close>

subsection \<open>The cache\<close>

lemma getData_None: "getData None = (generated_records, Some generated_records)"
  by (simp add: getData_def getData_with_def generated_records_def Let_def)

lemma getData_Some: "getData (Some d) = (d, Some d)"
  by (simp add: getData_def getData_with_def)

lemma getData_reachable:
  "c = None \<or> c = Some generated_records \<Longrightarrow>
   getData c = (generated_records, Some generated_records)"
  using getData_None getData_Some by auto

lemma run_calls_cache:
  "c = None \<or> c = Some generated_records \<Longrightarrow>
   run_calls calls c = None \<or> run_calls calls c = Some generated_records"
proof (induction calls arbitrary: c)
  case Nil
  then show ?case by simp
next
  case (Cons call calls)
  show ?case
  proof (cases call)
    case GetData
    have "snd (getData c) = Some generated_records"
      using Cons.prems getData_reachable by simp
    then show ?thesis using GetData Cons.IH by simp
  next
    case ClearDataCache
    then show ?thesis using Cons.IH by (simp add: clearDataCache_def)
  qed
qed

text \<open>
  C1. After any sequence of calls on the module, \<^verbatim>\<open>getData()\<close>, then
  \<^verbatim>\<open>clearDataCache()\<close>, then \<^verbatim>\<open>getData()\<close> again returns the same record sequence
  as the first call: every generation starts from the seed 42 and steps the generator
  \<open>seed = (seed * 9301 + 49297) mod 233280\<close>, \<open>draw = seed / 233280\<close>.
\<close>

theorem getData_deterministic:
  "fst (getData (clearDataCache (snd (getData (run_calls calls None)))))
     = fst (getData (run_calls calls None))
   \<and> generateComprehensiveData
     = map_option gs_data (generate_loops \<lparr>gs_seed = 42, gs_recordId = 100000, gs_data = []\<rparr>)
   \<and> seededRandom sd
     = (real_of_int ((sd * 9301 + 49297) mod 233280) / 233280, (sd * 9301 + 49297) mod 233280)"
proof -
  have "run_calls calls None = None \<or> run_calls calls None = Some generated_records"
    by (rule run_calls_cache) simp
  then have "getData (run_calls calls None) = (generated_records, Some generated_records)"
    by (rule getData_reachable)
  moreover have "getData (clearDataCache (Some generated_records))
      = (generated_records, Some generated_records)"
    by (rule getData_reachable) (simp add: clearDataCache_def)
  ultimately show ?thesis
    by (simp add: generateComprehensiveData_def seededRandom_def Let_def)
qed

theorem getData_deterministic_witness:
  "fst (getData (clearDataCache (snd (getData (run_calls [GetData, ClearDataCache] None)))))
     = fst (getData (run_calls [GetData, ClearDataCache] None))
   \<and> seededRandom 42 = (206659 / 233280, 206659)"
  using getData_deterministic [of "[GetData, ClearDataCache]" 42] by simp

text \<open>
  C9. \<^verbatim>\<open>getData()\<close> always returns an array: when the generator throws, the empty
  array is returned and cached; a cached array is returned as it is, whatever a new
  generation would give, until \<^verbatim>\<open>clearDataCache()\<close>, which empties the cache and can be
  repeated.
\<close>

theorem getData_cache_contract:
  "getData_with None None = ([], Some [])
   \<and> getData_with (Some d) None = (d, Some d)
   \<and> getData_with g (Some d) = (d, Some d)
   \<and> getData_with g' (snd (getData_with g None)) = getData_with g None
   \<and> clearDataCache None = None
   \<and> clearDataCache (clearDataCache c) = clearDataCache c
   \<and> getData_with g (clearDataCache c) = getData_with g None"
  by (simp add: getData_with_def clearDataCache_def split: option.splits)

theorem getData_cache_contract_witness:
  "getData_with None (snd (getData_with (Some []) None)) = ([], Some [])
   \<and> getData_with (Some []) (clearDataCache (Some [])) = ([], Some [])"
  using getData_cache_contract [of "[]" "Some []" None "Some []"]
  by (simp add: getData_with_def)

subsection \<open>Compound annual growth rate\<close>

lemma overflow_bound_pos: "0 < overflow_bound" "1 < overflow_bound" "100 < overflow_bound"
  by (simp_all add: overflow_bound_def)

lemma js_number_small: "\<bar>r\<bar> < overflow_bound \<Longrightarrow> js_number r = Number r"
  by (auto simp: js_number_def)

lemma js_number_big: "overflow_bound \<le> r \<Longrightarrow> js_number r = PosInf"
  by (auto simp: js_number_def)


lemma powr_le_max:
  fixes a x :: real
  assumes "0 < a" "0 \<le> x" "x \<le> 1"
  shows "a powr x \<le> max a 1"
proof (cases "1 \<le> a")
  case True
  then have "a powr x \<le> a powr 1" using assms by (intro powr_mono) auto
  then show ?thesis using assms by simp
next
  case False
  then have "a powr x \<le> 1" using assms by (intro powr_le1) auto
  then show ?thesis by simp
qed

lemma seventh_root_bound:
  fixes a :: real
  assumes "0 < a" "a < overflow_bound"
  shows "a powr (1 / 7) < 2 ^ 147"
proof -
  have "overflow_bound < ((2::real) ^ 147) ^ 7" by (simp add: overflow_bound_def)
  with assms(2) have "a < ((2::real) ^ 147) ^ 7" by simp
  then have "a powr (1 / 7) < (((2::real) ^ 147) ^ 7) powr (1 / 7)"
    using assms(1) by (intro powr_less_mono2) auto
  moreover have "(((2::real) ^ 147) ^ 7) powr (1 / 7) = 2 ^ 147"
  proof -
    have "((2::real) ^ 147) ^ 7 = (2 ^ 147) powr 7" by (simp only: powr_numeral zero_le_power zero_le_numeral)
    then show ?thesis by (simp only: powr_powr) simp
  qed
  ultimately show ?thesis by simp
qed

lemma num_sub_one: "0 \<le> p \<Longrightarrow> p < overflow_bound \<Longrightarrow> num_sub (Number p) (Number 1) = Number (p - 1)"
  using overflow_bound_pos by (simp add: num_sub_def num_add_def num_neg_def js_number_def)

lemma num_mul_hundred:
  "- 1 \<le> q \<Longrightarrow> num_mul (Number q) (Number 100)
     = (if q * 100 < overflow_bound then Number (q * 100) else PosInf)"
  using overflow_bound_pos by (simp add: num_mul_def js_number_def)

lemma exponent_finite: "1 \<le> n \<Longrightarrow> num_div (Number 1) (Number n) = Number (1 / n)"
proof -
  assume n: "1 \<le> n"
  then have "\<bar>1 / n\<bar> \<le> 1" by simp
  then have "\<bar>1 / n\<bar> < overflow_bound" using overflow_bound_pos(2) by linarith
  then show ?thesis using n by (simp add: num_div_def js_number_small)
qed

lemma cagr_core:
  assumes "0 < s" "0 < e" "1 \<le> n"
  shows "num_mul (num_sub (Math_pow (num_div (Number e) (Number s)) (num_div (Number 1) (Number n)))
                    (Number 1)) (Number 100)
     = (if e / s < overflow_bound \<and> ((e / s) powr (1 / n) - 1) * 100 < overflow_bound
        then Number (((e / s) powr (1 / n) - 1) * 100) else PosInf)"
proof (cases "e / s < overflow_bound")
  case True
  have pos: "0 < e / s" using assms by simp
  have ratio: "num_div (Number e) (Number s) = Number (e / s)"
    using assms True pos by (simp add: num_div_def js_number_small)
  have "(e / s) powr (1 / n) \<le> max (e / s) 1"
    using pos assms(3) by (intro powr_le_max) auto
  then have small: "(e / s) powr (1 / n) < overflow_bound"
    using True overflow_bound_pos(2) by simp
  have nonneg: "0 \<le> (e / s) powr (1 / n)" by simp
  have "Math_pow (Number (e / s)) (Number (1 / n)) = Number ((e / s) powr (1 / n))"
    using pos assms(3) small nonneg by (simp add: Math_pow_def js_number_small)
  then show ?thesis
    using True small nonneg
    by (simp add: ratio exponent_finite [OF assms(3)] num_sub_one num_mul_hundred)
next
  case False
  then have ratio: "num_div (Number e) (Number s) = PosInf"
    using assms by (simp add: num_div_def js_number_big)
  have "Math_pow PosInf (Number (1 / n)) = PosInf"
    using assms(3) by (simp add: Math_pow_def)
  then show ?thesis
    using False
    by (simp add: ratio exponent_finite [OF assms(3)] num_sub_def num_add_def num_neg_def
        num_mul_def num_sign_def signed_inf_def)
qed

lemma bubble_finite:
  assumes "0 < s" "0 < e" "e / s < overflow_bound"
  shows "((e / s) powr (1 / 7) - 1) * 100 < overflow_bound"
proof -
  have "(e / s) powr (1 / 7) < 2 ^ 147"
    using assms by (intro seventh_root_bound) auto
  then have "((e / s) powr (1 / 7) - 1) * 100 < 2 ^ 147 * 100" by simp
  also have "(2::real) ^ 147 * 100 < overflow_bound" by (simp add: overflow_bound_def)
  finally show ?thesis .
qed

lemma bubble_cagr_unfold:
  "bubble_cagr startValue endValue =
     (if num_positive startValue \<and> num_positive endValue
      then num_mul (num_sub (Math_pow (num_div endValue startValue) (num_div (Number 1) (Number 7)))
                      (Number 1)) (Number 100)
      else Number 0)"
  by (simp add: bubble_cagr_def)

lemma yoy_cagr_unfold:
  "yoy_cagr yrs m yr index =
     (if 0 < index \<and> yrs \<noteq> [] \<and> hd yrs < yr
         \<and> num_positive (or_zero (m (hd yrs))) \<and> num_positive (or_zero (m yr))
      then num_mul (num_sub (Math_pow (num_div (or_zero (m yr)) (or_zero (m (hd yrs))))
                               (num_div (Number 1) (Number (real yr - real (hd yrs)))))
                      (Number 1)) (Number 100)
      else Number 0)"
  by (cases yrs) (auto simp: yoy_cagr_def js_index_def Let_def)

lemma infinite_endpoints:
  assumes "1 \<le> n"
  shows "0 < s \<Longrightarrow> num_mul (num_sub (Math_pow (num_div PosInf (Number s)) (num_div (Number 1) (Number n)))
                    (Number 1)) (Number 100) = PosInf"
    and "0 < e \<Longrightarrow> num_mul (num_sub (Math_pow (num_div (Number e) PosInf) (num_div (Number 1) (Number n)))
                    (Number 1)) (Number 100) = Number (- 100)"
    and "num_mul (num_sub (Math_pow (num_div PosInf PosInf) (num_div (Number 1) (Number n)))
                    (Number 1)) (Number 100) = NaN"
  unfolding exponent_finite [OF assms]
  using assms
  by (simp_all add: num_div_def Math_pow_def num_sub_def num_add_def num_neg_def
      num_mul_def num_sign_def signed_inf_def js_number_small overflow_bound_pos)

text \<open>
  C8, as the code has it. Both computations return 0 unless both endpoints are strictly
  positive (and, for the yearly rate, the index and the span are positive); in particular
  they return 0 when an endpoint is 0, negative, NaN or missing. For finite positive
  endpoints the result is \<open>((endValue / startValue) ^ (1 / span) - 1) * 100\<close>, a percentage,
  as long as neither the ratio nor the percentage overflows, and \<open>Infinity\<close> when one of
  them does (over the fixed span of 7 years only the ratio can). With an infinite end
  value the result is \<open>Infinity\<close>, with an infinite start value -100, with both NaN.
\<close>

theorem cagr_boundary:
  "(\<not> (num_positive startValue \<and> num_positive endValue) \<longrightarrow>
       bubble_cagr startValue endValue = Number 0)
   \<and> bubble_cagr (Number 0) endValue = Number 0 \<and> bubble_cagr startValue (Number 0) = Number 0
   \<and> (0 < s \<and> 0 < e \<longrightarrow>
       bubble_cagr (Number s) (Number e)
         = (if e / s < overflow_bound then Number (((e / s) powr (1 / 7) - 1) * 100) else PosInf))
   \<and> (0 < s \<longrightarrow> bubble_cagr (Number s) PosInf = PosInf)
   \<and> (0 < e \<longrightarrow> bubble_cagr PosInf (Number e) = Number (- 100))
   \<and> bubble_cagr PosInf PosInf = NaN
   \<and> (\<not> (0 < index \<and> yrs \<noteq> [] \<and> hd yrs < yr
            \<and> num_positive (or_zero (m (hd yrs))) \<and> num_positive (or_zero (m yr))) \<longrightarrow>
       yoy_cagr yrs m yr index = Number 0)
   \<and> (0 < index \<and> yrs \<noteq> [] \<and> hd yrs < yr \<longrightarrow>
        (m (hd yrs) = Some (Number s) \<and> m yr = Some (Number e) \<and> 0 < s \<and> 0 < e \<longrightarrow>
           yoy_cagr yrs m yr index
             = (if e / s < overflow_bound
                   \<and> ((e / s) powr (1 / (real yr - real (hd yrs))) - 1) * 100 < overflow_bound
                then Number (((e / s) powr (1 / (real yr - real (hd yrs))) - 1) * 100)
                else PosInf))
        \<and> (m (hd yrs) = Some (Number s) \<and> m yr = Some PosInf \<and> 0 < s \<longrightarrow>
             yoy_cagr yrs m yr index = PosInf)
        \<and> (m (hd yrs) = Some PosInf \<and> m yr = Some (Number e) \<and> 0 < e \<longrightarrow>
             yoy_cagr yrs m yr index = Number (- 100))
        \<and> (m (hd yrs) = Some PosInf \<and> m yr = Some PosInf \<longrightarrow>
             yoy_cagr yrs m yr index = NaN))"
proof -
  have a: "\<not> (num_positive startValue \<and> num_positive endValue) \<longrightarrow>
       bubble_cagr startValue endValue = Number 0"
    by (simp add: bubble_cagr_unfold)
  have b: "bubble_cagr (Number 0) endValue = Number 0" "bubble_cagr startValue (Number 0) = Number 0"
    by (simp_all add: bubble_cagr_unfold num_positive_def)
  have c: "0 < s \<and> 0 < e \<longrightarrow>
       bubble_cagr (Number s) (Number e)
         = (if e / s < overflow_bound then Number (((e / s) powr (1 / 7) - 1) * 100) else PosInf)"
    using cagr_core [of s e 7] bubble_finite [of s e]
    by (auto simp: bubble_cagr_unfold num_positive_def)
  have d: "0 < s \<longrightarrow> bubble_cagr (Number s) PosInf = PosInf"
    "0 < e \<longrightarrow> bubble_cagr PosInf (Number e) = Number (- 100)"
    "bubble_cagr PosInf PosInf = NaN"
    using infinite_endpoints [of 7] by (simp_all add: bubble_cagr_unfold num_positive_def)
  have e: "\<not> (0 < index \<and> yrs \<noteq> [] \<and> hd yrs < yr
            \<and> num_positive (or_zero (m (hd yrs))) \<and> num_positive (or_zero (m yr))) \<longrightarrow>
       yoy_cagr yrs m yr index = Number 0"
    unfolding yoy_cagr_unfold by (rule impI) (rule if_not_P)
  have f: "(m (hd yrs) = Some (Number s) \<and> m yr = Some (Number e) \<and> 0 < s \<and> 0 < e \<longrightarrow>
           yoy_cagr yrs m yr index
             = (if e / s < overflow_bound
                   \<and> ((e / s) powr (1 / (real yr - real (hd yrs))) - 1) * 100 < overflow_bound
                then Number (((e / s) powr (1 / (real yr - real (hd yrs))) - 1) * 100)
                else PosInf))
        \<and> (m (hd yrs) = Some (Number s) \<and> m yr = Some PosInf \<and> 0 < s \<longrightarrow>
             yoy_cagr yrs m yr index = PosInf)
        \<and> (m (hd yrs) = Some PosInf \<and> m yr = Some (Number e) \<and> 0 < e \<longrightarrow>
             yoy_cagr yrs m yr index = Number (- 100))
        \<and> (m (hd yrs) = Some PosInf \<and> m yr = Some PosInf \<longrightarrow>
             yoy_cagr yrs m yr index = NaN)"
    if h: "0 < index \<and> yrs \<noteq> [] \<and> hd yrs < yr"
  proof -
    from h have n: "1 \<le> real yr - real (hd yrs)" by linarith
    show ?thesis
      using h cagr_core [OF _ _ n, of s e] infinite_endpoints [OF n]
      by (auto simp: yoy_cagr_unfold or_zero_def num_positive_def)
  qed
  from a b c d e f show ?thesis by blast
qed

theorem cagr_boundary_witness:
  "bubble_cagr (Number (- 3)) (Number 5) = Number 0
   \<and> bubble_cagr (Number 1) (Number 1) = Number 0
   \<and> yoy_cagr [2024, 2025] [2024 \<mapsto> Number 1, 2025 \<mapsto> Number 2] 2025 1 = Number 100
   \<and> yoy_cagr_series [2024, 2025] [2024 \<mapsto> Number 0, 2025 \<mapsto> Number 2] = [Number 0, Number 0]"
  using cagr_boundary [of "Number (- 3)" "Number 5" 1 1 1 "[2024, 2025]" 2025
      "[2024 \<mapsto> Number 1, 2025 \<mapsto> Number 2]"]
    cagr_boundary [of "Number 1" "Number 1" 1 2 1 "[2024, 2025]" 2025 "[2024 \<mapsto> Number 1, 2025 \<mapsto> Number 2]"]
    cagr_boundary [of "Number 1" "Number 1" 1 2 1 "[2024, 2025]" 2025 "[2024 \<mapsto> Number 0, 2025 \<mapsto> Number 2]"]
    cagr_boundary [of "Number 1" "Number 1" 1 2 0 "[2024, 2025]" 2024 "[2024 \<mapsto> Number 0, 2025 \<mapsto> Number 2]"]
    overflow_bound_pos
  by (simp add: num_positive_def or_zero_def yoy_cagr_series_def)

lemma bubble_overflow:
  assumes "0 < s" "0 < e" "overflow_bound \<le> e / s"
  shows "bubble_cagr (Number s) (Number e) = PosInf"
proof -
  have "\<not> e / s < overflow_bound" using assms(3) by simp
  then show ?thesis
    unfolding bubble_cagr_unfold using cagr_core [of s e 7] assms(1,2)
    by (simp add: num_positive_def)
qed

lemma overflow_bound_less: "overflow_bound < 2 ^ 1024"
  by (simp add: overflow_bound_def)

lemma overflow_decimal:
  "(0::real) < 1 / 10 ^ 303" "(0::real) < 10 ^ 305"
  "overflow_bound \<le> 10 ^ 305 / (1 / 10 ^ 303)"
proof -
  have n: "(4::nat) * 256 = 1024" "(2::nat) * 256 = 512" "(305::nat) + 303 = 608"
    by simp_all
  have "(2::real) ^ 1024 = (2 ^ 4) ^ 256"
    unfolding n(1) [symmetric] by (rule power_mult)
  also have "\<dots> \<le> (10 ^ 2) ^ 256" by (rule power_mono) simp_all
  also have "\<dots> = (10::real) ^ 512"
    unfolding n(2) [symmetric] by (rule power_mult [symmetric])
  also have "\<dots> \<le> 10 ^ 608" by (rule power_increasing) simp_all
  also have "\<dots> = 10 ^ 305 * (10::real) ^ 303"
    unfolding n(3) [symmetric] by (rule power_add)
  also have "\<dots> = 10 ^ 305 / (1 / 10 ^ 303)"
    by (simp only: divide_divide_eq_right div_by_1)
  finally have "(2::real) ^ 1024 \<le> 10 ^ 305 / (1 / 10 ^ 303)" .
  with overflow_bound_less show "overflow_bound \<le> 10 ^ 305 / (1 / 10 ^ 303)" by linarith
  show "(0::real) < 10 ^ 305" by (rule zero_less_power) simp
  have "(0::real) < 10 ^ 303" by (rule zero_less_power) simp
  then show "(0::real) < 1 / 10 ^ 303" by (simp only: zero_less_divide_1_iff)
qed

text \<open>
  The rate is not the bare ratio \<open>(endValue / startValue) ^ (1 / span) - 1\<close>: from 1 to 2
  over one year the code returns 100, not 1. And the result is not always finite: from
  \<open>1e-303\<close> to \<open>1e305\<close> the ratio overflows and the rate is \<open>Infinity\<close>; between two infinite
  endpoints it is NaN.
\<close>

theorem cagr_percent_or_infinite:
  "yoy_cagr [2024, 2025] [2024 \<mapsto> Number 1, 2025 \<mapsto> Number 2] 2025 1
     \<noteq> Number ((2 / 1) powr (1 / (2025 - 2024)) - 1)
   \<and> bubble_cagr (Number (1 / 10 ^ 303)) (Number (10 ^ 305)) = PosInf
   \<and> bubble_cagr PosInf PosInf = NaN"
proof -
  have "yoy_cagr [2024, 2025] [2024 \<mapsto> Number 1, 2025 \<mapsto> Number 2] 2025 1 = Number 100"
    using cagr_core [of 1 2 1] overflow_bound_pos
    by (simp add: yoy_cagr_unfold or_zero_def num_positive_def)
  then have "yoy_cagr [2024, 2025] [2024 \<mapsto> Number 1, 2025 \<mapsto> Number 2] 2025 1
     \<noteq> Number ((2 / 1) powr (1 / (2025 - 2024)) - 1)" by simp
  moreover have "bubble_cagr (Number (1 / 10 ^ 303)) (Number (10 ^ 305)) = PosInf"
    by (rule bubble_overflow [OF overflow_decimal])
  moreover have "bubble_cagr PosInf PosInf = NaN"
    using infinite_endpoints(3) [of 7] by (simp add: bubble_cagr_unfold num_positive_def)
  ultimately show ?thesis by blast
qed

subsection \<open>The waterfall\<close>

lemma accumulate_Cons:
  "accumulate c (item # items) =
     (\<lparr>wf_year = fst item, wf_baseValue = None, wf_incrementalValue = Some (snd item),
       wf_totalValue = c + snd item, wf_isBase = False, wf_isTotal = False\<rparr>
        # fst (accumulate (c + snd item) items),
      snd (accumulate (c + snd item) items))"
  by (simp add: Let_def split: prod.splits)

lemma accumulate_final: "snd (accumulate c items) = c + sum_list (map snd items)"
  by (induction items arbitrary: c) (simp_all add: accumulate_Cons del: accumulate.simps(2))

lemma accumulate_length: "length (fst (accumulate c items)) = length items"
  by (induction items arbitrary: c) (simp_all add: accumulate_Cons del: accumulate.simps(2))

lemma accumulate_flags:
  "e \<in> set (fst (accumulate c items)) \<Longrightarrow> \<not> wf_isBase e \<and> \<not> wf_isTotal e"
  by (induction items arbitrary: c) (auto simp: accumulate_Cons simp del: accumulate.simps(2))

lemma year_total_absent: "\<forall>d\<in>set ds. year d \<noteq> y \<Longrightarrow> year_total ds y = 0"
proof -
  assume "\<forall>d\<in>set ds. year d \<noteq> y"
  then have "filter (\<lambda>d. year d = y) ds = []"
    by (simp add: filter_empty_conv)
  then show ?thesis by (simp add: year_total_def)
qed

lemma incrementalValues_length: "length (incrementalValues ds) = 7"
  by (simp add: incrementalValues_def Let_def del: upt_rec_numeral)

lemma default_increments_length: "length default_increments = 7"
  by (simp add: default_increments_def)

lemma incrementalValues_nth:
  assumes "i < 7"
  shows "snd (incrementalValues ds ! i) =
     (if year_total ds (2025 + i) > 0 \<and> year_total ds (2024 + i) > 0
      then year_total ds (2025 + i) - year_total ds (2024 + i)
      else default_increments ! i * (waterfall_baseValue ds / 57159))"
proof -
  have "[2025..<2032] ! i = 2025 + i" "i < length [2025..<2032]"
    using assms by (simp_all del: upt_rec_numeral)
  then show ?thesis
    by (simp add: incrementalValues_def Let_def del: upt_rec_numeral)
qed

text \<open>
  C4. For each year 2025 to 2031 whose total or whose previous year's total is not
  strictly positive, the increment is the default increment of that year scaled by
  (base value / 57159); when all records are of 2024 every increment is the scaled
  default. The series starts with the base entry of 2024 and ends with the total entry of
  2032, whose value is the base plus the sum of the increments.
\<close>

theorem waterfall_fallback:
  "(\<forall>i<7. \<not> (year_total ds (2025 + i) > 0 \<and> year_total ds (2024 + i) > 0) \<longrightarrow>
      snd (incrementalValues ds ! i) = default_increments ! i * (waterfall_baseValue ds / 57159))
   \<and> ((\<forall>d\<in>set ds. year d = 2024) \<longrightarrow>
      map snd (incrementalValues ds)
        = map (\<lambda>x. x * (waterfall_baseValue ds / 57159)) default_increments)
   \<and> length (fst (waterfallData ds)) = 9
   \<and> hd (fst (waterfallData ds))
        = \<lparr>wf_year = ''2024'', wf_baseValue = Some (waterfall_baseValue ds),
           wf_incrementalValue = None, wf_totalValue = waterfall_baseValue ds,
           wf_isBase = True, wf_isTotal = False\<rparr>
   \<and> last (fst (waterfallData ds))
        = \<lparr>wf_year = ''2032'',
           wf_baseValue = Some (waterfall_baseValue ds + sum_list (map snd (incrementalValues ds))),
           wf_incrementalValue = None,
           wf_totalValue = waterfall_baseValue ds + sum_list (map snd (incrementalValues ds)),
           wf_isBase = False, wf_isTotal = True\<rparr>
   \<and> (\<forall>k. 0 < k \<and> k < 8 \<longrightarrow>
        \<not> wf_isBase (fst (waterfallData ds) ! k) \<and> \<not> wf_isTotal (fst (waterfallData ds) ! k))"
proof -
  have a: "\<forall>i<7. \<not> (year_total ds (2025 + i) > 0 \<and> year_total ds (2024 + i) > 0) \<longrightarrow>
      snd (incrementalValues ds ! i) = default_increments ! i * (waterfall_baseValue ds / 57159)"
    by (simp add: incrementalValues_nth)
  have b: "map snd (incrementalValues ds)
        = map (\<lambda>x. x * (waterfall_baseValue ds / 57159)) default_increments"
    if only: "\<forall>d\<in>set ds. year d = 2024"
  proof (rule nth_equalityI)
    show "length (map snd (incrementalValues ds))
        = length (map (\<lambda>x. x * (waterfall_baseValue ds / 57159)) default_increments)"
      by (simp add: incrementalValues_length default_increments_length)
  next
    fix i assume "i < length (map snd (incrementalValues ds))"
    then have i: "i < 7" by (simp add: incrementalValues_length)
    have "\<forall>d\<in>set ds. year d \<noteq> 2025 + i" using only by simp
    then have "year_total ds (2025 + i) = 0" by (rule year_total_absent)
    then have "snd (incrementalValues ds ! i)
        = default_increments ! i * (waterfall_baseValue ds / 57159)"
      using i by (simp add: incrementalValues_nth)
    then show "map snd (incrementalValues ds) ! i
        = map (\<lambda>x. x * (waterfall_baseValue ds / 57159)) default_increments ! i"
      using i by (simp add: incrementalValues_length default_increments_length)
  qed
  obtain entries cumulative
    where acc: "accumulate (waterfall_baseValue ds) (incrementalValues ds) = (entries, cumulative)"
    by (cases "accumulate (waterfall_baseValue ds) (incrementalValues ds)")
  have len: "length entries = 7"
    using accumulate_length [of "waterfall_baseValue ds" "incrementalValues ds"] acc
    by (simp add: incrementalValues_length)
  have fin: "cumulative = waterfall_baseValue ds + sum_list (map snd (incrementalValues ds))"
    using accumulate_final [of "waterfall_baseValue ds" "incrementalValues ds"] acc by simp
  have flags: "\<And>e. e \<in> set entries \<Longrightarrow> \<not> wf_isBase e \<and> \<not> wf_isTotal e"
    using accumulate_flags [of _ "waterfall_baseValue ds" "incrementalValues ds"] acc by simp
  have chart: "fst (waterfallData ds)
      = \<lparr>wf_year = ''2024'', wf_baseValue = Some (waterfall_baseValue ds),
           wf_incrementalValue = None, wf_totalValue = waterfall_baseValue ds,
           wf_isBase = True, wf_isTotal = False\<rparr>
        # entries
        @ [\<lparr>wf_year = ''2032'', wf_baseValue = Some cumulative, wf_incrementalValue = None,
            wf_totalValue = cumulative, wf_isBase = False, wf_isTotal = True\<rparr>]"
    using acc by (simp add: waterfallData_def Let_def)
  have c: "length (fst (waterfallData ds)) = 9" using len by (simp add: chart)
  have d: "hd (fst (waterfallData ds))
        = \<lparr>wf_year = ''2024'', wf_baseValue = Some (waterfall_baseValue ds),
           wf_incrementalValue = None, wf_totalValue = waterfall_baseValue ds,
           wf_isBase = True, wf_isTotal = False\<rparr>"
    by (simp add: chart)
  have e: "last (fst (waterfallData ds))
        = \<lparr>wf_year = ''2032'',
           wf_baseValue = Some (waterfall_baseValue ds + sum_list (map snd (incrementalValues ds))),
           wf_incrementalValue = None,
           wf_totalValue = waterfall_baseValue ds + sum_list (map snd (incrementalValues ds)),
           wf_isBase = False, wf_isTotal = True\<rparr>"
    by (simp add: chart fin)
  have f: "\<not> wf_isBase (fst (waterfallData ds) ! k) \<and> \<not> wf_isTotal (fst (waterfallData ds) ! k)"
    if k: "0 < k \<and> k < 8" for k
  proof -
    obtain j where j: "k = Suc j" using k by (cases k) auto
    then have "j < length entries" using k len by simp
    then have "fst (waterfallData ds) ! k = entries ! j" "entries ! j \<in> set entries"
      using j by (simp_all add: chart nth_append)
    then show ?thesis using flags by simp
  qed
  from a b c d e f show ?thesis by blast
qed

theorem waterfall_fallback_witness:
  "year_total [example_record 2024 ''North India'' ''North India'' ''Skin Care'' 114318000 5] 2025 = 0
   \<and> map snd (incrementalValues
         [example_record 2024 ''North India'' ''North India'' ''Skin Care'' 114318000 5])
      = map (\<lambda>x. x * 2) default_increments
   \<and> wf_totalValue (last (fst (waterfallData
         [example_record 2024 ''North India'' ''North India'' ''Skin Care'' 114318000 5])))
      = 114318 + 2 * sum_list default_increments"
proof -
  let ?ds = "[example_record 2024 ''North India'' ''North India'' ''Skin Care'' 114318000 5]"
  have base: "waterfall_baseValue ?ds = 114318"
    by (simp add: waterfall_baseValue_def year_total_def example_record_def)
  have only: "\<forall>d\<in>set ?ds. year d = 2024"
    by (simp add: example_record_def)
  have none: "year_total ?ds 2025 = 0"
    by (simp add: year_total_def example_record_def)
  have incs: "map snd (incrementalValues ?ds) = map (\<lambda>x. x * 2) default_increments"
    using waterfall_fallback [of ?ds] only base by simp
  have "sum_list (map (\<lambda>x. x * 2) default_increments) = 2 * sum_list default_increments"
    by (simp add: default_increments_def)
  then show ?thesis
    using waterfall_fallback [of ?ds] none incs base by simp
qed

subsection \<open>Year labels and keys\<close>

lemma of_char_digit_char: "d < 10 \<Longrightarrow> (of_char (digit_char d) :: nat) = 48 + d"
proof -
  assume "d < 10"
  then have "d \<in> {0, 1, 2, 3, 4, 5, 6, 7, 8, 9}" by auto
  then show ?thesis by (auto simp: digit_char_def)
qed

lemma is_digit_digit_char: "d < 10 \<Longrightarrow> is_digit (digit_char d)"
  by (simp add: is_digit_def of_char_digit_char)

lemma String_of_nat_nonempty: "String_of_nat n \<noteq> []"
  by (subst String_of_nat.simps) simp

lemma String_of_nat_digits: "list_all is_digit (String_of_nat n)"
proof (induction n rule: String_of_nat.induct)
  case (1 n)
  show ?case
  proof (cases "n < 10")
    case True
    then show ?thesis by (subst String_of_nat.simps) (simp add: is_digit_digit_char)
  next
    case False
    then show ?thesis using 1
      by (subst String_of_nat.simps) (simp add: is_digit_digit_char)
  qed
qed

lemma digits_value_snoc: "digits_value (s @ [c]) = 10 * digits_value s + (of_char c - 48)"
  by (simp add: digits_value_def)

lemma digits_value_String_of_nat: "digits_value (String_of_nat n) = n"
proof (induction n rule: String_of_nat.induct)
  case (1 n)
  show ?case
  proof (cases "n < 10")
    case True
    then show ?thesis
      by (subst String_of_nat.simps) (simp add: digits_value_def of_char_digit_char)
  next
    case False
    then have "digits_value (String_of_nat (n div 10)) = n div 10" using 1 by simp
    then show ?thesis using False
      by (subst String_of_nat.simps) (simp add: digits_value_snoc of_char_digit_char)
  qed
qed

lemma String_of_nat_inj: "String_of_nat a = String_of_nat b \<Longrightarrow> a = b"
  using digits_value_String_of_nat by metis

lemma Number_of_string_String_of_nat: "Number_of_string (String_of_nat n) = Some n"
  by (simp add: Number_of_string_def String_of_nat_nonempty String_of_nat_digits
      digits_value_String_of_nat)

lemma dash_not_digit: "\<not> is_digit CHR ''-''"
  by (simp add: is_digit_def)

lemma String_of_nat_no_dash: "CHR ''-'' \<notin> set (String_of_nat n)"
  using String_of_nat_digits [of n] dash_not_digit by (auto simp: list_all_iff)

lemma append_sep_inj:
  "c \<notin> set a \<Longrightarrow> c \<notin> set b \<Longrightarrow> a @ c # s = b @ c # t \<Longrightarrow> a = b \<and> s = t"
proof (induction a arbitrary: b)
  case Nil
  then show ?case by (cases b) auto
next
  case (Cons x a)
  then show ?case by (cases b) auto
qed

lemma segment_key_inj:
  "segment_key y s = segment_key y' s' \<longleftrightarrow> y = y' \<and> s = s'"
proof
  assume "segment_key y s = segment_key y' s'"
  then have "String_of_nat y @ CHR ''-'' # s = String_of_nat y' @ CHR ''-'' # s'"
    by (simp add: segment_key_def)
  then have "String_of_nat y = String_of_nat y' \<and> s = s'"
    using append_sep_inj String_of_nat_no_dash by metis
  then show "y = y' \<and> s = s'" using String_of_nat_inj by blast
qed simp

lemma String_2024: "String_of_nat 2024 = ''2024''"
  by (simp add: String_of_nat.simps digit_char_def)

subsection \<open>Segment charts\<close>

lemma fold_row_update:
  "fold (\<lambda>segment entry. row_set entry segment (f segment)) segs e0 s
     = (if s \<in> set segs \<and> s \<noteq> ''__proto__'' then Some (f s) else e0 s)"
  by (induction segs arbitrary: e0) (auto simp: row_set_def)

lemma fold_keyed_sum:
  "get_or_zero (fold (\<lambda>d m. m(key d \<mapsto> get_or_zero m (key d) + v d)) ds m) k
     = get_or_zero m k + sum_list (map v (filter (\<lambda>d. key d = k) ds))"
  by (induction ds arbitrary: m) (auto simp: get_or_zero_def)

lemma segment_total_absent:
  "\<forall>d\<in>set fd. \<not> (year d = y \<and> g d = s) \<Longrightarrow> segment_total fs fd g y s = 0"
proof -
  assume "\<forall>d\<in>set fd. \<not> (year d = y \<and> g d = s)"
  then have "filter (\<lambda>d. year d = y \<and> g d = s) fd = []"
    by (simp add: filter_empty_conv)
  then show ?thesis by (simp add: segment_total_def)
qed

lemma segment_axis_nonempty: "s \<in> set (segment_axis g sel fd) \<Longrightarrow> s \<noteq> []"
  by (auto simp: segment_axis_def values_from_data_def Let_def split: option.splits if_splits)

lemma segmentChart_rows:
  "fst (generateSegmentChartData fs fd k g sel)
     = map (\<lambda>y. fold (\<lambda>segment entry. row_set entry segment (Num (segment_total fs fd g y segment)))
                  (segment_axis g sel fd) [''year'' \<mapsto> Str (String_of_nat y)])
         (years_of fd)"
proof -
  have "get_or_zero (fold (\<lambda>d m. m(segment_key (year d) (g d) \<mapsto>
            get_or_zero m (segment_key (year d) (g d)) + getDataValue fs d)) fd Map.empty)
          (segment_key y s) = segment_total fs fd g y s" for y s
    using fold_keyed_sum [of "\<lambda>d. segment_key (year d) (g d)" "getDataValue fs" fd Map.empty
        "segment_key y s"]
    by (simp add: segment_total_def segment_key_inj get_or_zero_def)
  then show ?thesis
    by (simp add: generateSegmentChartData_def Let_def)
qed

lemma add_to_year_map_lookup:
  "get_or_zero (case add_to_year_map y s v m y' of Some sm \<Rightarrow> sm | None \<Rightarrow> Map.empty) s'
     = get_or_zero (case m y' of Some sm \<Rightarrow> sm | None \<Rightarrow> Map.empty) s'
       + (if y' = y \<and> s' = s then v else 0)"
  by (auto simp: add_to_year_map_def Let_def get_or_zero_def split: option.splits)

lemma fold_year_map_sum:
  "get_or_zero (case fold (\<lambda>d m. if P d then add_to_year_map (year d) (g d) (v d) m else m) ds m y
                of Some sm \<Rightarrow> sm | None \<Rightarrow> Map.empty) s
     = get_or_zero (case m y of Some sm \<Rightarrow> sm | None \<Rightarrow> Map.empty) s
       + sum_list (map v (filter (\<lambda>d. P d \<and> year d = y \<and> g d = s) ds))"
proof (induction ds arbitrary: m)
  case Nil
  then show ?case by simp
next
  case (Cons d ds)
  show ?case
    by (simp add: Cons.IH add_to_year_map_lookup)
qed

lemma stacked_rows_axis:
  "fst (generateYearWiseStackedBarData fs fd g sel)
     = map (\<lambda>y. fold (\<lambda>segment entry. row_set entry segment (Num (segment_total fs fd g y segment)))
                  (segment_axis g sel fd) [''year'' \<mapsto> Str (String_of_nat y)])
         (years_of fd)"
proof -
  have tot: "get_or_zero (case fold (\<lambda>d m. if g d \<noteq> []
               then add_to_year_map (year d) (g d) (getDataValue fs d) m else m) fd Map.empty y
             of Some sm \<Rightarrow> sm | None \<Rightarrow> Map.empty) s = segment_total fs fd g y s"
    if "s \<noteq> []" for y s
  proof -
    have "filter (\<lambda>d. g d \<noteq> [] \<and> year d = y \<and> g d = s) fd
        = filter (\<lambda>d. year d = y \<and> g d = s) fd"
      using that by (auto intro: filter_cong)
    then show ?thesis
      using fold_year_map_sum [of "\<lambda>d. g d \<noteq> []" g "getDataValue fs" fd Map.empty y s]
      by (simp add: segment_total_def get_or_zero_def)
  qed
  have "fold (\<lambda>segment entry. row_set entry segment (Num (get_or_zero (case fold (\<lambda>d m. if g d \<noteq> []
               then add_to_year_map (year d) (g d) (getDataValue fs d) m else m) fd Map.empty y
             of Some sm \<Rightarrow> sm | None \<Rightarrow> Map.empty) segment))) (segment_axis g sel fd) e0
      = fold (\<lambda>segment entry. row_set entry segment (Num (segment_total fs fd g y segment)))
          (segment_axis g sel fd) e0" for y e0
    by (rule fold_cong) (auto simp: tot segment_axis_nonempty)
  then show ?thesis
    by (simp add: generateYearWiseStackedBarData_def stacked_rows_def Let_def)
qed

lemma active_segments:
  "set (snd (generateYearWiseStackedBarData fs fd g sel))
     = {s \<in> set (segment_axis g sel fd). s \<noteq> ''__proto__''
          \<and> (\<exists>y\<in>set (years_of fd). segment_total fs fd g y s > 0)}"
proof -
  have rows: "stacked_rows (fold (\<lambda>d m. if g d \<noteq> []
               then add_to_year_map (year d) (g d) (getDataValue fs d) m else m) fd Map.empty)
             (segment_axis g sel fd) (years_of fd)
      = fst (generateYearWiseStackedBarData fs fd g sel)"
    by (simp add: generateYearWiseStackedBarData_def Let_def)
  have "snd (generateYearWiseStackedBarData fs fd g sel)
      = filter (\<lambda>s. list_ex (\<lambda>entry. cell_positive (entry s))
                 (fst (generateYearWiseStackedBarData fs fd g sel))) (segment_axis g sel fd)"
    unfolding rows [symmetric] by (simp add: generateYearWiseStackedBarData_def Let_def)
  then show ?thesis
    by (auto simp: stacked_rows_axis list_ex_iff fold_row_update cell_positive_def)
qed

text \<open>
  C7. Both segment aggregations return one row per year of the filtered data, and every row
  has, under every segment of the axis that can be a property of a row (every name but
  \<^verbatim>\<open>__proto__\<close>), the sum of the values of that year and segment, which is 0 when the data has
  no such record. The segments returned by the stacked variant are those of them whose
  value is positive in some year.
\<close>

theorem aggregation_completeness:
  "snd (generateSegmentChartData fs fd k g sel) = segment_axis g sel fd
   \<and> length (fst (generateSegmentChartData fs fd k g sel)) = length (years_of fd)
   \<and> length (fst (generateYearWiseStackedBarData fs fd g sel)) = length (years_of fd)
   \<and> (\<forall>i<length (years_of fd). \<forall>s\<in>set (segment_axis g sel fd). s \<noteq> ''__proto__'' \<longrightarrow>
         (fst (generateSegmentChartData fs fd k g sel) ! i) s
            = Some (Num (segment_total fs fd g (years_of fd ! i) s))
       \<and> (fst (generateYearWiseStackedBarData fs fd g sel) ! i) s
            = Some (Num (segment_total fs fd g (years_of fd ! i) s)))
   \<and> (\<forall>y s. (\<forall>d\<in>set fd. \<not> (year d = y \<and> g d = s)) \<longrightarrow> segment_total fs fd g y s = 0)
   \<and> set (snd (generateYearWiseStackedBarData fs fd g sel))
       = {s \<in> set (segment_axis g sel fd). s \<noteq> ''__proto__''
            \<and> (\<exists>y\<in>set (years_of fd). segment_total fs fd g y s > 0)}"
proof -
  have a: "snd (generateSegmentChartData fs fd k g sel) = segment_axis g sel fd"
    by (simp add: generateSegmentChartData_def Let_def)
  have b: "length (fst (generateSegmentChartData fs fd k g sel)) = length (years_of fd)"
    "length (fst (generateYearWiseStackedBarData fs fd g sel)) = length (years_of fd)"
    by (simp_all add: segmentChart_rows stacked_rows_axis)
  have c: "\<forall>i<length (years_of fd). \<forall>s\<in>set (segment_axis g sel fd). s \<noteq> ''__proto__'' \<longrightarrow>
         (fst (generateSegmentChartData fs fd k g sel) ! i) s
            = Some (Num (segment_total fs fd g (years_of fd ! i) s))
       \<and> (fst (generateYearWiseStackedBarData fs fd g sel) ! i) s
            = Some (Num (segment_total fs fd g (years_of fd ! i) s))"
    by (simp add: segmentChart_rows stacked_rows_axis fold_row_update)
  have d: "\<forall>y s. (\<forall>d\<in>set fd. \<not> (year d = y \<and> g d = s)) \<longrightarrow> segment_total fs fd g y s = 0"
    using segment_total_absent by blast
  from a b c d active_segments [of fs fd g sel] show ?thesis by blast
qed

lemma years_of_ex: "years_of ex_fd = [2024, 2025]"
  by (simp add: ex_fd_def years_of_def Set_values_def example_record_def String_of_nat.simps digit_char_def)

lemma axis_ex: "segment_axis productType None ex_fd = [''Hair Care'', ''Skin Care'']"
  by (simp add: ex_fd_def segment_axis_def values_from_data_def Set_values_def example_record_def)

theorem aggregation_completeness_witness:
  "(fst (generateSegmentChartData no_filters ex_fd ''productType'' productType None) ! 0) ''Hair Care''
      = Some (Num 0)
   \<and> (fst (generateYearWiseStackedBarData no_filters ex_fd productType None) ! 1) ''Hair Care''
      = Some (Num 3)
   \<and> set (snd (generateYearWiseStackedBarData no_filters ex_fd productType None))
      = {''Hair Care'', ''Skin Care''}"
proof -
  have tot: "segment_total no_filters ex_fd productType 2024 ''Hair Care'' = 0"
    "segment_total no_filters ex_fd productType 2025 ''Hair Care'' = 3"
    "segment_total no_filters ex_fd productType 2024 ''Skin Care'' = 1"
    "segment_total no_filters ex_fd productType 2025 ''Skin Care'' = 0"
    by (simp_all add: segment_total_def ex_fd_def example_record_def getDataValue_def
        no_filters_def)
  show ?thesis
    using aggregation_completeness [of no_filters ex_fd "''productType''" productType None]
    by (auto simp: years_of_ex axis_ex tot)
qed

subsection \<open>The product type chart\<close>















lemma fold_keyed_sum_if:
  "get_or_zero (fold (\<lambda>d m. if P d then (let k = key d in m(k \<mapsto> get_or_zero m k + v d)) else m) ds m) k
     = get_or_zero m k + sum_list (map v (filter (\<lambda>d. P d \<and> key d = k) ds))"
  by (induction ds arbitrary: m) (auto simp: get_or_zero_def Let_def)

lemma grouped_rows:
  "pc_chartData (grouped_product_chart fs fd sel)
     = map (\<lambda>y. fold (\<lambda>segment entry.
                    row_set entry segment (Num (segment_total fs fd productType y segment)))
                  (segmentsToShow sel fd) [''year'' \<mapsto> Str (String_of_nat y)])
         (years_of fd)"
proof -
  let ?segs = "segmentsToShow sel fd"
  let ?m = "fold (\<lambda>d m. if productType d \<in> set ?segs
                         then (let key = segment_key (year d) (productType d)
                               in m(key \<mapsto> get_or_zero m key + getDataValue fs d))
                         else m) fd Map.empty"
  have tot: "get_or_zero ?m (segment_key y s) = segment_total fs fd productType y s"
    if "s \<in> set ?segs" for y s
  proof -
    have "filter (\<lambda>d. productType d \<in> set ?segs
              \<and> segment_key (year d) (productType d) = segment_key y s) fd
        = filter (\<lambda>d. year d = y \<and> productType d = s) fd"
      using that by (auto simp: segment_key_inj intro: filter_cong)
    then show ?thesis
      using fold_keyed_sum_if [of "\<lambda>d. productType d \<in> set ?segs"
          "\<lambda>d. segment_key (year d) (productType d)" "getDataValue fs" fd Map.empty
          "segment_key y s"]
      by (simp add: segment_total_def get_or_zero_def)
  qed
  have "fold (\<lambda>segment entry. let key = segment_key y segment
                in row_set entry segment (Num (get_or_zero ?m key))) ?segs e0
      = fold (\<lambda>segment entry. row_set entry segment (Num (segment_total fs fd productType y segment)))
          ?segs e0" for y e0
    by (rule fold_cong) (auto simp: tot Let_def)
  then show ?thesis
    by (simp add: grouped_product_chart_def Let_def)
qed

lemma stacked_product_rows:
  "pc_stackedChartData (stacked_product_chart fs fd valid)
     = map (\<lambda>y. fold (\<lambda>segment entry.
                    row_set entry segment (Num (segment_total fs fd productType y segment)))
                  valid [''year'' \<mapsto> Str (String_of_nat y)])
         (years_of fd)"
proof -
  let ?m = "fold (\<lambda>d m. if productType d \<in> set valid
                         then add_to_year_map (year d) (productType d) (getDataValue fs d) m
                         else m) fd Map.empty"
  have tot: "get_or_zero (case ?m y of Some sm \<Rightarrow> sm | None \<Rightarrow> Map.empty) s
      = segment_total fs fd productType y s"
    if "s \<in> set valid" for y s
  proof -
    have "filter (\<lambda>d. productType d \<in> set valid \<and> year d = y \<and> productType d = s) fd
        = filter (\<lambda>d. year d = y \<and> productType d = s) fd"
      using that by (auto intro: filter_cong)
    then show ?thesis
      using fold_year_map_sum [of "\<lambda>d. productType d \<in> set valid" productType
          "getDataValue fs" fd Map.empty y s]
      by (simp add: segment_total_def get_or_zero_def)
  qed
  have "fold (\<lambda>segment entry. row_set entry segment (Num (get_or_zero
               (case ?m y of Some sm \<Rightarrow> sm | None \<Rightarrow> Map.empty) segment))) valid e0
      = fold (\<lambda>segment entry. row_set entry segment (Num (segment_total fs fd productType y segment)))
          valid e0" for y e0
    by (rule fold_cong) (auto simp: tot)
  then show ?thesis
    by (simp add: stacked_product_chart_def stacked_rows_def Let_def)
qed


















subsection \<open>Region and country shares\<close>

lemma map_of_upd_with:
  "map_of (upd_with k f dflt al)
     = (map_of al)(k \<mapsto> f (case map_of al k of None \<Rightarrow> dflt | Some x \<Rightarrow> x))"
  by (simp add: upd_with_def update_conv')

lemma distinct_upd_with:
  "distinct (map fst al) \<Longrightarrow> distinct (map fst (upd_with k f dflt al))"
  by (simp add: upd_with_def distinct_update)

lemma keys_upd_with: "fst ` set (upd_with k f dflt al) = insert k (fst ` set al)"
  using dom_update [of k _ al] by (simp add: upd_with_def dom_map_of_conv_image_fst)

lemma map_of_fold_upd_with:
  "map_of (fold (\<lambda>d. upd_with (K d) (F d) dflt) ds al) k
     = (if k \<in> K ` set ds \<or> map_of al k \<noteq> None
        then Some (fold F (filter (\<lambda>d. K d = k) ds)
                     (case map_of al k of None \<Rightarrow> dflt | Some x \<Rightarrow> x))
        else None)"
proof (induction ds arbitrary: al)
  case Nil
  then show ?case by auto
next
  case (Cons d ds)
  show ?case
    by (cases "K d = k") (auto simp: Cons.IH map_of_upd_with)
qed

lemma distinct_fold_upd_with:
  "distinct (map fst al) \<Longrightarrow> distinct (map fst (fold (\<lambda>d. upd_with (K d) (F d) dflt) ds al))"
  by (induction ds arbitrary: al) (simp_all add: distinct_upd_with)

lemma keys_fold_upd_with:
  "fst ` set (fold (\<lambda>d. upd_with (K d) (F d) dflt) ds al) = fst ` set al \<union> K ` set ds"
  by (induction ds arbitrary: al) (auto simp: keys_upd_with)

lemma sum_update_add:
  "sum_list (map snd (upd_with c (\<lambda>x. x + v) (0::real) al)) = sum_list (map snd al) + v"
  by (induction al) (auto simp: upd_with_def)

lemma sum_fold_add:
  "sum_list (map snd (fold (\<lambda>d. upd_with (C d) (\<lambda>x. x + V d) (0::real)) ds al))
     = sum_list (map snd al) + sum_list (map V ds)"
  by (induction ds arbitrary: al) (simp_all add: sum_update_add)

lemma fold_add_sum: "fold (\<lambda>d x. x + V d) ds (a::real) = a + sum_list (map V ds)"
  by (induction ds arbitrary: a) simp_all


lemma keys_agreeD:
  assumes "keys_agree ryd ryt"
  shows "map_of ryd yk = None \<Longrightarrow> map_of ryt yk = None"
    and "map_of ryd yk = Some rd \<Longrightarrow> \<exists>rt. map_of ryt yk = Some rt
            \<and> (\<forall>r. map_of rd r = None \<longleftrightarrow> map_of rt r = None)"
  using assms [unfolded keys_agree_def, rule_format, of yk]
  by (auto split: option.splits)

lemma countries2_lookup:
  "map_of (if get_or_zero (map_of cs) c = 0 then AList.update c 0 cs else cs) c
     = Some (get_or_zero (map_of cs) c)"
  by (cases "map_of cs c") (auto simp: get_or_zero_def update_conv')

lemma countries3_eq:
  "AList.update c (get_or_zero (map_of cs) c + v)
     (if get_or_zero (map_of cs) c = 0 then AList.update c 0 cs else cs)
   = upd_with c (\<lambda>x. x + v) 0 cs"
  by (cases "map_of cs c") (auto simp: get_or_zero_def upd_with_def)

lemma inherited_key_first: "inherited_key k \<Longrightarrow> k \<noteq> [] \<and> \<not> is_digit (hd k)"
  by (auto simp: inherited_key_def Object_prototype_keys_def is_digit_def)

lemma year_key_not_inherited: "\<not> inherited_key (String_of_nat y)"
proof
  assume "inherited_key (String_of_nat y)"
  then have "String_of_nat y \<noteq> [] \<and> \<not> is_digit (hd (String_of_nat y))"
    by (rule inherited_key_first)
  moreover have "list_all is_digit (String_of_nat y)" by (rule String_of_nat_digits)
  ultimately show False by (cases "String_of_nat y") simp_all
qed

lemma js_get_Own: "map_of obj k = Some v \<Longrightarrow> js_get obj k = Own v"
  by (simp add: js_get_def)

lemma own_property_js_get: "\<not> inherited_key k \<Longrightarrow> own_property (js_get obj k) = map_of obj k"
  by (cases "map_of obj k") (simp_all add: js_get_def own_property_def)

lemma js_get_Undefined: "\<not> inherited_key k \<Longrightarrow> js_get obj k = Undefined \<longleftrightarrow> map_of obj k = None"
  by (cases "map_of obj k") (simp_all add: js_get_def)

lemma falsy_number_js_get:
  "\<not> inherited_key k \<Longrightarrow> falsy_number (js_get obj k) \<longleftrightarrow> get_or_zero (map_of obj) k = 0"
  by (cases "map_of obj k") (simp_all add: js_get_def falsy_number_def get_or_zero_def)

lemma region_step_eq:
  assumes "keys_agree ryd ryt" "\<not> inherited_key (region d)" "\<not> inherited_key (country d)"
  shows "region_step fs d (ryd, ryt) = Some (add_year fs d ryd, add_year_total fs d ryt)"
proof -
  let ?yk = "String_of_nat (year d)"
  let ?v = "getDataValue fs d"
  note own = year_key_not_inherited assms(2,3)
  have inner: "do {
       let (yearData2, yearTotals2) =
           (if map_of yearData (region d) = None
            then (AList.update (region d) [] yearData, AList.update (region d) 0 yearTotals)
            else (yearData, yearTotals));
       countries \<leftarrow> map_of yearData2 (region d);
       let countries2 =
           (if get_or_zero (map_of countries) (country d) = 0
            then AList.update (country d) 0 countries else countries);
       countryValue \<leftarrow> map_of countries2 (country d);
       let countries3 = AList.update (country d) (countryValue + ?v) countries2;
       total \<leftarrow> map_of yearTotals2 (region d);
       Some (AList.update ?yk (AList.update (region d) countries3 yearData2) data1,
             AList.update ?yk (AList.update (region d) (total + ?v) yearTotals2) totals1)
     } = Some (AList.update ?yk (add_region d ?v yearData) data1,
               AList.update ?yk (add_region_total d ?v yearTotals) totals1)"
    if agree: "\<forall>r. map_of yearData r = None \<longleftrightarrow> map_of yearTotals r = None"
    for yearData yearTotals data1 totals1
  proof (cases "map_of yearData (region d)")
    case None
    then have "map_of yearTotals (region d) = None" using agree by simp
    then show ?thesis using None
      by (simp add: update_conv' add_region_def add_region_total_def add_country_def
          upd_with_def Let_def get_or_zero_def)
  next
    case (Some cd)
    then obtain t where t: "map_of yearTotals (region d) = Some t"
      using agree by (metis not_Some_eq)
    show ?thesis using Some t
      by (simp add: add_region_def add_region_total_def add_country_def Let_def
          countries2_lookup countries3_eq upd_with_def [of "region d"])
  qed
  have step: "region_step fs d (ryd, ryt) =
     (let (data1, totals1) =
           (if map_of ryd ?yk = None
            then (AList.update ?yk [] ryd, AList.update ?yk [] ryt)
            else (ryd, ryt))
      in do {
       yearData \<leftarrow> map_of data1 ?yk;
       yearTotals \<leftarrow> map_of totals1 ?yk;
       let (yearData2, yearTotals2) =
           (if map_of yearData (region d) = None
            then (AList.update (region d) [] yearData, AList.update (region d) 0 yearTotals)
            else (yearData, yearTotals));
       countries \<leftarrow> map_of yearData2 (region d);
       let countries2 =
           (if get_or_zero (map_of countries) (country d) = 0
            then AList.update (country d) 0 countries else countries);
       countryValue \<leftarrow> map_of countries2 (country d);
       let countries3 = AList.update (country d) (countryValue + ?v) countries2;
       total \<leftarrow> map_of yearTotals2 (region d);
       Some (AList.update ?yk (AList.update (region d) countries3 yearData2) data1,
             AList.update ?yk (AList.update (region d) (total + ?v) yearTotals2) totals1)
     })"
    unfolding region_step_def
    by (simp only: own own_property_js_get js_get_Undefined falsy_number_js_get
        Let_def prod.case not_False_eq_True)
  show ?thesis
  proof (cases "map_of ryd ?yk")
    case None
    then have nt: "map_of ryt ?yk = None" using keys_agreeD(1) [OF assms(1)] by simp
    show ?thesis
      using None nt inner [of "[]" "[]" "AList.update ?yk [] ryd" "AList.update ?yk [] ryt"]
      by (simp add: step Let_def update_conv' add_year_def add_year_total_def
          upd_with_def)
  next
    case (Some rd)
    then obtain rt where rt: "map_of ryt ?yk = Some rt"
        "\<forall>r. map_of rd r = None \<longleftrightarrow> map_of rt r = None"
      using keys_agreeD(2) [OF assms(1)] by blast
    show ?thesis
      using Some rt(1) inner [of rd rt ryd ryt, OF rt(2)]
      by (simp add: step Let_def add_year_def add_year_total_def upd_with_def)
  qed
qed

lemma keys_agree_step:
  assumes "keys_agree ryd ryt"
  shows "keys_agree (add_year fs d ryd) (add_year_total fs d ryt)"
proof -
  let ?k = "String_of_nat (year d)"
  have "case (map_of (add_year fs d ryd) yk, map_of (add_year_total fs d ryt) yk) of
             (None, None) \<Rightarrow> True
           | (Some rd, Some rt) \<Rightarrow> (\<forall>r. map_of rd r = None \<longleftrightarrow> map_of rt r = None)
           | _ \<Rightarrow> False" for yk
  proof (cases "yk = ?k")
    case False
    then show ?thesis
      using assms [unfolded keys_agree_def, rule_format, of yk]
      by (simp add: add_year_def add_year_total_def map_of_upd_with)
  next
    case True
    show ?thesis
    proof (cases "map_of ryd ?k")
      case None
      then have "map_of ryt ?k = None" using keys_agreeD(1) [OF assms] by simp
      then show ?thesis using None True
        by (simp add: add_year_def add_year_total_def map_of_upd_with add_region_def
            add_region_total_def)
    next
      case (Some rd)
      then obtain rt where rt: "map_of ryt ?k = Some rt"
          "\<forall>r. map_of rd r = None \<longleftrightarrow> map_of rt r = None"
        using keys_agreeD(2) [OF assms] by blast
      then show ?thesis using Some True
        by (simp add: add_year_def add_year_total_def map_of_upd_with add_region_def
            add_region_total_def)
    qed
  qed
  then show ?thesis unfolding keys_agree_def by blast
qed

lemma for_each_region_step:
  "keys_agree ryd ryt \<Longrightarrow>
   \<forall>d\<in>set ds. \<not> inherited_key (region d) \<and> \<not> inherited_key (country d) \<Longrightarrow>
   for_each (region_step fs) ds (ryd, ryt)
     = Some (fold (add_year fs) ds ryd, fold (add_year_total fs) ds ryt)"
proof (induction ds arbitrary: ryd ryt)
  case Nil
  then show ?case by simp
next
  case (Cons d ds)
  then show ?case
    by (simp add: region_step_eq keys_agree_step)
qed

lemma region_year_fold_eq:
  "\<forall>d\<in>set fd. \<not> inherited_key (region d) \<and> \<not> inherited_key (country d) \<Longrightarrow>
   region_year_fold fs fd = Some (fold (add_year fs) fd [], fold (add_year_total fs) fd [])"
  unfolding region_year_fold_def by (rule for_each_region_step) (simp_all add: keys_agree_def)

lemma filter_year_key:
  "filter (\<lambda>d. String_of_nat (year d) = String_of_nat y) fd = filter (\<lambda>d. year d = y) fd"
  by (rule filter_cong) (auto dest: String_of_nat_inj)

lemma data_year:
  "map_of (fold (add_year fs) fd []) (String_of_nat y)
     = (if y \<in> year ` set fd then Some (year_regions fs fd y) else None)"
proof -
  have "add_year fs = (\<lambda>d. upd_with (String_of_nat (year d)) (add_region d (getDataValue fs d)) [])"
    by (rule ext) (simp add: add_year_def)
  then have "map_of (fold (add_year fs) fd []) (String_of_nat y)
      = (if String_of_nat y \<in> (\<lambda>d. String_of_nat (year d)) ` set fd
         then Some (fold (\<lambda>d. add_region d (getDataValue fs d))
                      (filter (\<lambda>d. String_of_nat (year d) = String_of_nat y) fd) [])
         else None)"
    using map_of_fold_upd_with [of "\<lambda>d. String_of_nat (year d)"
        "\<lambda>d. add_region d (getDataValue fs d)" "[]" fd "[]" "String_of_nat y"]
    by simp
  moreover have "String_of_nat y \<in> (\<lambda>d. String_of_nat (year d)) ` set fd \<longleftrightarrow> y \<in> year ` set fd"
    by (auto dest: String_of_nat_inj)
  ultimately show ?thesis by (simp add: filter_year_key year_regions_def)
qed

lemma totals_year:
  "map_of (fold (add_year_total fs) fd []) (String_of_nat y)
     = (if y \<in> year ` set fd then Some (year_totals fs fd y) else None)"
proof -
  have "add_year_total fs
      = (\<lambda>d. upd_with (String_of_nat (year d)) (add_region_total d (getDataValue fs d)) [])"
    by (rule ext) (simp add: add_year_total_def)
  then have "map_of (fold (add_year_total fs) fd []) (String_of_nat y)
      = (if String_of_nat y \<in> (\<lambda>d. String_of_nat (year d)) ` set fd
         then Some (fold (\<lambda>d. add_region_total d (getDataValue fs d))
                      (filter (\<lambda>d. String_of_nat (year d) = String_of_nat y) fd) [])
         else None)"
    using map_of_fold_upd_with [of "\<lambda>d. String_of_nat (year d)"
        "\<lambda>d. add_region_total d (getDataValue fs d)" "[]" fd "[]" "String_of_nat y"]
    by simp
  moreover have "String_of_nat y \<in> (\<lambda>d. String_of_nat (year d)) ` set fd \<longleftrightarrow> y \<in> year ` set fd"
    by (auto dest: String_of_nat_inj)
  ultimately show ?thesis by (simp add: filter_year_key year_totals_def)
qed

lemma data_keys:
  "fst ` set (fold (add_year fs) fd []) = (\<lambda>d. String_of_nat (year d)) ` set fd"
proof -
  have "add_year fs = (\<lambda>d. upd_with (String_of_nat (year d)) (add_region d (getDataValue fs d)) [])"
    by (rule ext) (simp add: add_year_def)
  then show ?thesis
    using keys_fold_upd_with [of "\<lambda>d. String_of_nat (year d)"
        "\<lambda>d. add_region d (getDataValue fs d)" "[]" fd "[]"]
    by simp
qed

lemma data_distinct: "distinct (map fst (fold (add_year fs) fd []))"
proof -
  have "add_year fs = (\<lambda>d. upd_with (String_of_nat (year d)) (add_region d (getDataValue fs d)) [])"
    by (rule ext) (simp add: add_year_def)
  then show ?thesis
    using distinct_fold_upd_with [of "[]" "\<lambda>d. String_of_nat (year d)"
        "\<lambda>d. add_region d (getDataValue fs d)" "[]" fd]
    by simp
qed

lemma regions_lookup:
  "map_of (year_regions fs fd y) r
     = (if \<exists>d\<in>set fd. year d = y \<and> region d = r then Some (group_countries fs fd y r) else None)"
proof -
  have "(\<lambda>d. add_region d (getDataValue fs d))
      = (\<lambda>d. upd_with (region d) (add_country d (getDataValue fs d)) [])"
    by (rule ext) (simp add: add_region_def)
  then show ?thesis
    using map_of_fold_upd_with [of region "\<lambda>d. add_country d (getDataValue fs d)" "[]"
        "filter (\<lambda>d. year d = y) fd" "[]" r]
    by (auto simp: year_regions_def group_countries_def)
qed

lemma regions_distinct: "distinct (map fst (year_regions fs fd y))"
proof -
  have "(\<lambda>d. add_region d (getDataValue fs d))
      = (\<lambda>d. upd_with (region d) (add_country d (getDataValue fs d)) [])"
    by (rule ext) (simp add: add_region_def)
  then show ?thesis
    using distinct_fold_upd_with [of "[]" region "\<lambda>d. add_country d (getDataValue fs d)" "[]"
        "filter (\<lambda>d. year d = y) fd"]
    by (simp add: year_regions_def)
qed

lemma totals_lookup:
  "map_of (year_totals fs fd y) r
     = (if \<exists>d\<in>set fd. year d = y \<and> region d = r then Some (region_total fs fd y r) else None)"
proof -
  have "(\<lambda>d. add_region_total d (getDataValue fs d))
      = (\<lambda>d. upd_with (region d) (\<lambda>x. x + getDataValue fs d) 0)"
    by (rule ext) (simp add: add_region_total_def)
  then show ?thesis
    using map_of_fold_upd_with [of region "\<lambda>d x. x + getDataValue fs d" 0
        "filter (\<lambda>d. year d = y) fd" "[]" r]
    by (auto simp: year_totals_def region_total_def fold_add_sum)
qed

lemma countries_lookup:
  "map_of (group_countries fs fd y r) c
     = (if \<exists>d\<in>set fd. year d = y \<and> region d = r \<and> country d = c
        then Some (country_total fs fd y r c) else None)"
proof -
  have "(\<lambda>d. add_country d (getDataValue fs d))
      = (\<lambda>d. upd_with (country d) (\<lambda>x. x + getDataValue fs d) 0)"
    by (rule ext) (simp add: add_country_def)
  then show ?thesis
    using map_of_fold_upd_with [of country "\<lambda>d x. x + getDataValue fs d" 0
        "filter (\<lambda>d. year d = y \<and> region d = r) fd" "[]" c]
    by (auto simp: group_countries_def country_total_def fold_add_sum conj_commute conj_left_commute)
qed

lemma countries_distinct: "distinct (map fst (group_countries fs fd y r))"
proof -
  have "(\<lambda>d. add_country d (getDataValue fs d))
      = (\<lambda>d. upd_with (country d) (\<lambda>x. x + getDataValue fs d) 0)"
    by (rule ext) (simp add: add_country_def)
  then show ?thesis
    using distinct_fold_upd_with [of "[]" country "\<lambda>d x. x + getDataValue fs d" 0
        "filter (\<lambda>d. year d = y \<and> region d = r) fd"]
    by (simp add: group_countries_def)
qed

lemma countries_sum: "sum_list (map snd (group_countries fs fd y r)) = region_total fs fd y r"
proof -
  have "(\<lambda>d. add_country d (getDataValue fs d))
      = (\<lambda>d. upd_with (country d) (\<lambda>x. x + getDataValue fs d) 0)"
    by (rule ext) (simp add: add_country_def)
  then show ?thesis
    using sum_fold_add [of country "getDataValue fs"
        "filter (\<lambda>d. year d = y \<and> region d = r) fd" "[]"]
    by (simp add: group_countries_def region_total_def)
qed

lemma those_map_Some: "(\<forall>x\<in>set xs. f x = Some (g x)) \<Longrightarrow> those (map f xs) = Some (map g xs)"
  by (induction xs) simp_all

lemma flatMap_Some:
  "(\<forall>x\<in>set xs. f x = Some (g x)) \<Longrightarrow> flatMap f xs = Some (concat (map g xs))"
  using those_map_Some [of xs f g] by (simp add: flatMap_def)

lemma mset_Object_entries: "mset (Object_entries al) = mset al"
  by (simp add: Object_entries_def)

lemma set_Object_entries: "set (Object_entries al) = set al"
  using mset_Object_entries [of al] by (metis set_mset_mset)

lemma distinct_Object_entries:
  "distinct (map fst al) \<Longrightarrow> distinct (map fst (Object_entries al))"
proof -
  assume "distinct (map fst al)"
  moreover have "mset (map fst (Object_entries al)) = mset (map fst al)"
    by (simp add: mset_Object_entries)
  ultimately show ?thesis by (metis mset_eq_imp_distinct_iff)
qed

lemma sort_keys_Object_entries: "sort (map fst (Object_entries al)) = sort (map fst al)"
proof -
  have "mset (sort (map fst al)) = mset (map fst (Object_entries al))"
    by (simp add: mset_Object_entries)
  then show ?thesis by (rule properties_for_sort) simp
qed

lemma region_entries_eq:
  assumes "cd = group_countries fs fd y r" "\<exists>d\<in>set fd. year d = y \<and> region d = r"
  shows "region_entries fs (String_of_nat y) r (Own (region_total fs fd y r)) cd
     = map (share_entry fs fd y r) (sort (map fst cd))"
proof -
  have v: "get_or_zero (map_of cd) c = country_total fs fd y r c" if "c \<in> set (map fst cd)" for c
  proof -
    have "map_of cd c \<noteq> None" using that by (simp add: map_of_eq_None_iff)
    then have "map_of cd c = Some (country_total fs fd y r c)"
      unfolding assms(1) countries_lookup by (metis (lifting))
    then show ?thesis by (simp add: get_or_zero_def)
  qed
  have "(let v = get_or_zero (map_of cd) c;
             percentage =
               (case Own (region_total fs fd y r) of
                  Own t \<Rightarrow> if t > 0 then v / t * 100 else 0
                | _ \<Rightarrow> 0)
         in \<lparr>re_year = Number_of_string (String_of_nat y),
              re_region = r,
              re_country = c,
              re_value = (if marketEvaluation fs = By_Volume then v else percentage),
              re_yearRegion = String_of_nat y @ '' - '' @ r\<rparr>)
       = share_entry fs fd y r c"
    if "c \<in> set (sort (map fst cd))" for c
    using v [of c] that
    by (simp add: share_entry_def Number_of_string_String_of_nat)
  then show ?thesis
    unfolding region_entries_def Let_def sort_keys_Object_entries
    by (intro map_cong) (simp_all add: Let_def)
qed

text \<open>The entries of all regions of one year, and of all years.\<close>

lemma year_entries_eq:
  assumes "y \<in> year ` set fd"
  shows "flatMap (\<lambda>(regionName, countriesData). do {
             yearTotals \<leftarrow> own_property (js_get (fold (add_year_total fs) fd []) (String_of_nat y));
             Some (region_entries fs (String_of_nat y) regionName
                     (js_get yearTotals regionName) countriesData)
           })
          (Object_entries (year_regions fs fd y))
     = Some (concat (map (\<lambda>(r, cd). map (share_entry fs fd y r) (sort (map fst cd)))
               (Object_entries (year_regions fs fd y))))"
proof (rule flatMap_Some, rule ballI)
  fix x assume "x \<in> set (Object_entries (year_regions fs fd y))"
  then have mem: "x \<in> set (year_regions fs fd y)" by (simp only: set_Object_entries)
  obtain r cd where "x = (r, cd)" by (cases x)
  with mem have x: "x = (r, cd)" "(r, cd) \<in> set (year_regions fs fd y)" by simp_all
  then have "map_of (year_regions fs fd y) r = Some cd"
    using regions_distinct by (simp add: map_of_is_SomeI)
  then have g: "\<exists>d\<in>set fd. year d = y \<and> region d = r" "cd = group_countries fs fd y r"
    unfolding regions_lookup by (simp_all split: if_splits)
  show "(case x of (regionName, countriesData) \<Rightarrow> do {
             yearTotals \<leftarrow> own_property (js_get (fold (add_year_total fs) fd []) (String_of_nat y));
             Some (region_entries fs (String_of_nat y) regionName
                     (js_get yearTotals regionName) countriesData)
           })
      = Some (case x of (r, cd) \<Rightarrow> map (share_entry fs fd y r) (sort (map fst cd)))"
    using assms g region_entries_eq [OF g(2) g(1)]
    by (simp add: x totals_year totals_lookup js_get_def own_property_def)
qed

lemma chart_eq:
  assumes "\<forall>d\<in>set fd. \<not> inherited_key (region d) \<and> \<not> inherited_key (country d)"
  shows "regionCountryPercentageChartData fs fd
     = Some (concat (map (\<lambda>(yk, rd).
               concat (map (\<lambda>(r, cd). map (share_entry fs fd (digits_value yk) r) (sort (map fst cd)))
                         (Object_entries rd)))
          (Object_entries (fold (add_year fs) fd []))))"
proof -
  let ?D = "fold (add_year fs) fd []"
  let ?T = "fold (add_year_total fs) fd []"
  have "flatMap (\<lambda>(yearKey, regionData).
                flatMap (\<lambda>(regionName, countriesData). do {
                           yearTotals \<leftarrow> own_property (js_get ?T yearKey);
                           Some (region_entries fs yearKey regionName
                                   (js_get yearTotals regionName) countriesData)
                         })
                  (Object_entries regionData))
       (Object_entries ?D)
      = Some (concat (map (\<lambda>(yk, rd).
               concat (map (\<lambda>(r, cd). map (share_entry fs fd (digits_value yk) r) (sort (map fst cd)))
                         (Object_entries rd)))
          (Object_entries ?D)))"
  proof (rule flatMap_Some, rule ballI)
    fix x assume "x \<in> set (Object_entries ?D)"
    then have mem: "x \<in> set ?D" by (simp only: set_Object_entries)
    obtain yk rd where "x = (yk, rd)" by (cases x)
    with mem have x: "x = (yk, rd)" "(yk, rd) \<in> set ?D" by simp_all
    then have "yk \<in> fst ` set ?D" by force
    then obtain y where y: "yk = String_of_nat y" "y \<in> year ` set fd"
      unfolding data_keys by auto
    have "map_of ?D yk = Some rd"
      using x(2) data_distinct by (simp add: map_of_is_SomeI)
    then have rd: "rd = year_regions fs fd y"
      unfolding y(1) data_year using y(2) by simp
    show "(case x of (yearKey, regionData) \<Rightarrow>
                flatMap (\<lambda>(regionName, countriesData). do {
                           yearTotals \<leftarrow> own_property (js_get ?T yearKey);
                           Some (region_entries fs yearKey regionName
                                   (js_get yearTotals regionName) countriesData)
                         })
                  (Object_entries regionData))
        = Some (case x of (yk, rd) \<Rightarrow>
               concat (map (\<lambda>(r, cd). map (share_entry fs fd (digits_value yk) r) (sort (map fst cd)))
                         (Object_entries rd)))"
      using year_entries_eq [OF y(2), of fs]
      by (simp add: x y(1) rd digits_value_String_of_nat)
  qed
  then show ?thesis
    by (simp add: regionCountryPercentageChartData_def region_year_fold_eq [OF assms])
qed

lemma mem_data:
  "(yk, rd) \<in> set (fold (add_year fs) fd [])
     \<longleftrightarrow> (\<exists>y\<in>year ` set fd. yk = String_of_nat y \<and> rd = year_regions fs fd y)"
proof
  assume m: "(yk, rd) \<in> set (fold (add_year fs) fd [])"
  then have "yk \<in> fst ` set (fold (add_year fs) fd [])" by force
  then obtain y where y: "yk = String_of_nat y" "y \<in> year ` set fd"
    unfolding data_keys by auto
  have "map_of (fold (add_year fs) fd []) yk = Some rd"
    using m data_distinct by (simp add: map_of_is_SomeI)
  then have "rd = year_regions fs fd y"
    unfolding y(1) data_year using y(2) by simp
  then show "\<exists>y\<in>year ` set fd. yk = String_of_nat y \<and> rd = year_regions fs fd y"
    using y by blast
next
  assume "\<exists>y\<in>year ` set fd. yk = String_of_nat y \<and> rd = year_regions fs fd y"
  then obtain y where y: "y \<in> year ` set fd" "yk = String_of_nat y" "rd = year_regions fs fd y"
    by blast
  then have "map_of (fold (add_year fs) fd []) yk = Some rd"
    by (simp add: data_year)
  then show "(yk, rd) \<in> set (fold (add_year fs) fd [])"
    by (rule map_of_SomeD)
qed

lemma mem_regions:
  "(r, cd) \<in> set (year_regions fs fd y)
     \<longleftrightarrow> (\<exists>d\<in>set fd. year d = y \<and> region d = r) \<and> cd = group_countries fs fd y r"
proof -
  have "(r, cd) \<in> set (year_regions fs fd y) \<longleftrightarrow> map_of (year_regions fs fd y) r = Some cd"
    using regions_distinct by simp
  then show ?thesis unfolding regions_lookup by auto
qed

lemma mem_countries:
  "c \<in> fst ` set (group_countries fs fd y r)
     \<longleftrightarrow> (\<exists>d\<in>set fd. year d = y \<and> region d = r \<and> country d = c)"
proof -
  have "c \<in> fst ` set (group_countries fs fd y r)
      \<longleftrightarrow> map_of (group_countries fs fd y r) c \<noteq> None"
    by (simp add: map_of_eq_None_iff)
  then show ?thesis unfolding countries_lookup by auto
qed

lemma in_concat_pairs:
  "e \<in> set (concat (map (\<lambda>(k, v). f k v) al)) \<longleftrightarrow> (\<exists>k v. (k, v) \<in> set al \<and> e \<in> set (f k v))"
  by auto

lemma chart_set:
  assumes "regionCountryPercentageChartData fs fd = Some out"
    and own: "\<forall>d\<in>set fd. \<not> inherited_key (region d) \<and> \<not> inherited_key (country d)"
  shows "set out = {share_entry fs fd y r c | y r c.
                      \<exists>d\<in>set fd. year d = y \<and> region d = r \<and> country d = c}"
proof -
  have out: "out = concat (map (\<lambda>(yk, rd).
               concat (map (\<lambda>(r, cd). map (share_entry fs fd (digits_value yk) r) (sort (map fst cd)))
                         (Object_entries rd)))
          (Object_entries (fold (add_year fs) fd [])))"
    using assms(1) chart_eq [OF own, of fs] by simp
  show ?thesis
  proof (rule set_eqI)
    fix e
    have "e \<in> set out \<longleftrightarrow>
        (\<exists>yk rd r cd c. (yk, rd) \<in> set (fold (add_year fs) fd []) \<and> (r, cd) \<in> set rd
            \<and> c \<in> fst ` set cd \<and> e = share_entry fs fd (digits_value yk) r c)"
      unfolding out in_concat_pairs set_Object_entries
      by (simp only: set_map image_iff) force
    also have "\<dots> \<longleftrightarrow> (\<exists>y r c. (\<exists>d\<in>set fd. year d = y \<and> region d = r \<and> country d = c)
            \<and> e = share_entry fs fd y r c)"
      unfolding mem_data
    proof
      assume "\<exists>yk rd r cd c. (\<exists>y\<in>year ` set fd. yk = String_of_nat y \<and> rd = year_regions fs fd y)
          \<and> (r, cd) \<in> set rd \<and> c \<in> fst ` set cd
          \<and> e = share_entry fs fd (digits_value yk) r c"
      then obtain y r cd c where h: "(r, cd) \<in> set (year_regions fs fd y)"
          "c \<in> fst ` set cd" "e = share_entry fs fd y r c"
        by (force simp: digits_value_String_of_nat)
      then have "cd = group_countries fs fd y r" using mem_regions by blast
      then have "\<exists>d\<in>set fd. year d = y \<and> region d = r \<and> country d = c"
        using h(2) mem_countries by blast
      then show "\<exists>y r c. (\<exists>d\<in>set fd. year d = y \<and> region d = r \<and> country d = c)
            \<and> e = share_entry fs fd y r c"
        using h(3) by blast
    next
      assume "\<exists>y r c. (\<exists>d\<in>set fd. year d = y \<and> region d = r \<and> country d = c)
            \<and> e = share_entry fs fd y r c"
      then obtain y r c where h: "\<exists>d\<in>set fd. year d = y \<and> region d = r \<and> country d = c"
          "e = share_entry fs fd y r c"
        by blast
      have 1: "y \<in> year ` set fd" using h(1) by auto
      have 2: "(r, group_countries fs fd y r) \<in> set (year_regions fs fd y)"
        using h(1) mem_regions by blast
      have 3: "c \<in> fst ` set (group_countries fs fd y r)"
        using h(1) mem_countries by blast
      show "\<exists>yk rd r cd c. (\<exists>y\<in>year ` set fd. yk = String_of_nat y \<and> rd = year_regions fs fd y)
          \<and> (r, cd) \<in> set rd \<and> c \<in> fst ` set cd
          \<and> e = share_entry fs fd (digits_value yk) r c"
        using 1 2 3 h(2) digits_value_String_of_nat by metis
    qed
    finally show "e \<in> set out \<longleftrightarrow> e \<in> {share_entry fs fd y r c | y r c.
                      \<exists>d\<in>set fd. year d = y \<and> region d = r \<and> country d = c}"
      by blast
  qed
qed

lemma filter_concat_none:
  "(\<And>x e. x \<in> set xs \<Longrightarrow> e \<in> set (f x) \<Longrightarrow> \<not> P e) \<Longrightarrow> filter P (concat (map f xs)) = []"
  by (induction xs) (auto simp: filter_empty_conv)

lemma filter_concat_single:
  assumes "distinct (map fst al)" "(k, v) \<in> set al"
    and "\<And>k' v' e. (k', v') \<in> set al \<Longrightarrow> k' \<noteq> k \<Longrightarrow> e \<in> set (f (k', v')) \<Longrightarrow> \<not> P e"
  shows "filter P (concat (map f al)) = filter P (f (k, v))"
  using assms
proof (induction al)
  case Nil
  then show ?case by simp
next
  case (Cons a al)
  show ?case
  proof (cases "fst a = k")
    case True
    then have a: "a = (k, v)" using Cons.prems(1,2) by (cases a) force
    have "filter P (concat (map f al)) = []"
    proof (rule filter_concat_none)
      fix x e assume x: "x \<in> set al" "e \<in> set (f x)"
      then have "fst x \<noteq> k" using Cons.prems(1) a by force
      then show "\<not> P e" using Cons.prems(3) [of "fst x" "snd x" e] x by simp
    qed
    then show ?thesis by (simp add: a)
  next
    case False
    then have m: "(k, v) \<in> set al" using Cons.prems(2) by auto
    have d: "distinct (map fst al)" using Cons.prems(1) by simp
    have "filter P (concat (map f al)) = filter P (f (k, v))"
      using d m
    proof (rule Cons.IH)
      fix k' v' e
      assume "(k', v') \<in> set al" "k' \<noteq> k" "e \<in> set (f (k', v'))"
      then show "\<not> P e" using Cons.prems(3) [of k' v' e] by simp
    qed
    moreover have "filter P (f a) = []"
      using Cons.prems(3) [of "fst a" "snd a"] False by (simp add: filter_empty_conv)
    ultimately show ?thesis by simp
  qed
qed

lemma sum_list_sort: "sum_list (map g (sort xs)) = sum_list (map (g :: 'a::linorder \<Rightarrow> real) xs)"
proof -
  have "mset (map g (sort xs)) = mset (map g xs)" by simp
  then show ?thesis by (metis sum_mset_sum_list)
qed

lemma group_filter:
  assumes out: "regionCountryPercentageChartData fs fd = Some out"
    and own: "\<forall>d\<in>set fd. \<not> inherited_key (region d) \<and> \<not> inherited_key (country d)"
    and ex: "\<exists>d\<in>set fd. year d = y \<and> region d = r"
  shows "filter (\<lambda>e. re_year e = Some y \<and> re_region e = r) out
     = map (share_entry fs fd y r) (sort (map fst (group_countries fs fd y r)))"
proof -
  let ?P = "\<lambda>e. re_year e = Some y \<and> re_region e = r"
  let ?D = "fold (add_year fs) fd []"
  let ?g = "\<lambda>yk (r, cd). map (share_entry fs fd (digits_value yk) r) (sort (map fst cd))"
  let ?f = "\<lambda>(yk, rd). concat (map (?g yk) (Object_entries rd))"
  have o: "out = concat (map ?f (Object_entries ?D))"
    using out chart_eq [OF own, of fs] by simp
  have yin: "y \<in> year ` set fd" using ex by auto
  have 1: "filter ?P (concat (map ?f (Object_entries ?D)))
      = filter ?P (?f (String_of_nat y, year_regions fs fd y))"
  proof (rule filter_concat_single)
    show "distinct (map fst (Object_entries ?D))"
      using data_distinct by (rule distinct_Object_entries)
    show "(String_of_nat y, year_regions fs fd y) \<in> set (Object_entries ?D)"
      unfolding set_Object_entries mem_data using yin by blast
  next
    fix k' v' e
    assume h: "(k', v') \<in> set (Object_entries ?D)" "k' \<noteq> String_of_nat y" "e \<in> set (?f (k', v'))"
    obtain y' where y': "k' = String_of_nat y'"
      using h(1) unfolding set_Object_entries mem_data by blast
    then have "y' \<noteq> y" using h(2) by auto
    moreover have "re_year e = Some y'"
      using h(3) unfolding y' by (auto simp: digits_value_String_of_nat share_entry_def)
    ultimately show "\<not> ?P e" by simp
  qed
  have 2: "filter ?P (concat (map (?g (String_of_nat y)) (Object_entries (year_regions fs fd y))))
      = filter ?P (?g (String_of_nat y) (r, group_countries fs fd y r))"
  proof (rule filter_concat_single)
    show "distinct (map fst (Object_entries (year_regions fs fd y)))"
      using regions_distinct by (rule distinct_Object_entries)
    show "(r, group_countries fs fd y r) \<in> set (Object_entries (year_regions fs fd y))"
      unfolding set_Object_entries mem_regions using ex by blast
  next
    fix k' v' e
    assume h: "(k', v') \<in> set (Object_entries (year_regions fs fd y))" "k' \<noteq> r"
      "e \<in> set (?g (String_of_nat y) (k', v'))"
    have "re_region e = k'" using h(3) by (auto simp: share_entry_def)
    then show "\<not> ?P e" using h(2) by simp
  qed
  have 3: "filter ?P (?g (String_of_nat y) (r, group_countries fs fd y r))
      = map (share_entry fs fd y r) (sort (map fst (group_countries fs fd y r)))"
    by (simp add: digits_value_String_of_nat share_entry_def filter_map comp_def)
  show ?thesis unfolding o using 1 2 3 by simp
qed

lemma country_totals_sum:
  "sum_list (map (country_total fs fd y r) (map fst (group_countries fs fd y r)))
     = region_total fs fd y r"
proof -
  have "country_total fs fd y r (fst p) = snd p" if p: "p \<in> set (group_countries fs fd y r)" for p
  proof -
    have "map_of (group_countries fs fd y r) (fst p) = Some (snd p)"
      using p countries_distinct by (simp add: map_of_is_SomeI)
    then show ?thesis
      unfolding countries_lookup by (simp split: if_splits)
  qed
  then have "map (\<lambda>p. country_total fs fd y r (fst p)) (group_countries fs fd y r)
      = map snd (group_countries fs fd y r)"
    by simp
  then have "map (country_total fs fd y r) (map fst (group_countries fs fd y r))
      = map snd (group_countries fs fd y r)"
    by (simp add: comp_def)
  then show ?thesis by (simp only: countries_sum)
qed

lemma group_sum:
  assumes out: "regionCountryPercentageChartData fs fd = Some out"
    and own: "\<forall>d\<in>set fd. \<not> inherited_key (region d) \<and> \<not> inherited_key (country d)"
    and mode: "marketEvaluation fs \<noteq> By_Volume"
    and pos: "region_total fs fd y r > 0"
  shows "sum_list (map re_value (filter (\<lambda>e. re_year e = Some y \<and> re_region e = r) out)) = 100"
proof -
  have ex: "\<exists>d\<in>set fd. year d = y \<and> region d = r"
  proof (rule ccontr)
    assume "\<not> (\<exists>d\<in>set fd. year d = y \<and> region d = r)"
    then have "filter (\<lambda>d. year d = y \<and> region d = r) fd = []"
      by (simp add: filter_empty_conv)
    then show False using pos by (simp add: region_total_def)
  qed
  let ?T = "region_total fs fd y r"
  have val: "re_value (share_entry fs fd y r c) = country_total fs fd y r c * (100 / ?T)" for c
    using mode pos by (simp add: share_entry_def)
  have "sum_list (map re_value (filter (\<lambda>e. re_year e = Some y \<and> re_region e = r) out))
      = sum_list (map re_value (map (share_entry fs fd y r)
          (sort (map fst (group_countries fs fd y r)))))"
    by (simp only: group_filter [OF out own ex])
  also have "\<dots> = sum_list (map (\<lambda>c. country_total fs fd y r c * (100 / ?T))
          (sort (map fst (group_countries fs fd y r))))"
    by (simp only: map_map o_def val)
  also have "\<dots> = sum_list (map (\<lambda>c. country_total fs fd y r c * (100 / ?T))
          (map fst (group_countries fs fd y r)))"
    by (rule sum_list_sort)
  also have "\<dots> = sum_list (map (country_total fs fd y r) (map fst (group_countries fs fd y r)))
      * (100 / ?T)"
    by (rule sum_list_mult_const)
  also have "\<dots> = ?T * (100 / ?T)" by (simp only: country_totals_sum)
  also have "\<dots> = 100" using pos by simp
  finally show ?thesis .
qed

lemma region_total_nonneg:
  "\<forall>d\<in>set fd. 0 \<le> getDataValue fs d \<Longrightarrow> 0 \<le> region_total fs fd y r"
  unfolding region_total_def by (rule sum_list_nonneg) auto

text \<open>
  C6. On data whose region and country names are not names of members of
  \<^verbatim>\<open>Object.prototype\<close>, the aggregation returns. Its entries are, for every year, region and
  country of the filtered data, the entry \<open>share_entry\<close>: under value mode the country's sum
  divided by the total of its year and region, times 100, when that total is positive, and
  0 otherwise; under volume mode the raw sum of the volumes. Under value mode the shares of
  a year and region with a positive total add up to 100 (the totals of the data model,
  whose market values are not negative, are positive as soon as they are not zero).
\<close>

theorem region_country_shares:
  assumes own: "\<forall>d\<in>set fd. \<not> inherited_key (region d) \<and> \<not> inherited_key (country d)"
  shows "\<exists>out. regionCountryPercentageChartData fs fd = Some out
     \<and> set out = {share_entry fs fd y r c | y r c.
                    \<exists>d\<in>set fd. year d = y \<and> region d = r \<and> country d = c}
     \<and> (marketEvaluation fs \<noteq> By_Volume \<longrightarrow>
          (\<forall>y r. region_total fs fd y r > 0 \<longrightarrow>
             sum_list (map re_value (filter (\<lambda>e. re_year e = Some y \<and> re_region e = r) out))
               = 100)
          \<and> ((\<forall>d\<in>set fd. 0 \<le> marketValueUsd d) \<longrightarrow>
             (\<forall>y r. region_total fs fd y r \<noteq> 0 \<longrightarrow>
                sum_list (map re_value (filter (\<lambda>e. re_year e = Some y \<and> re_region e = r) out))
                  = 100))
          \<and> (\<forall>y r c. re_value (share_entry fs fd y r c)
                = (if region_total fs fd y r > 0
                   then country_total fs fd y r c / region_total fs fd y r * 100 else 0))
          \<and> (\<forall>y r c. region_total fs fd y r = 0 \<longrightarrow> re_value (share_entry fs fd y r c) = 0))
     \<and> (marketEvaluation fs = By_Volume \<longrightarrow>
          (\<forall>y r c. re_value (share_entry fs fd y r c)
             = sum_list (map (\<lambda>d. real_of_int (volumeUnits d))
                 (filter (\<lambda>d. year d = y \<and> region d = r \<and> country d = c) fd))))"
proof -
  obtain out where out: "regionCountryPercentageChartData fs fd = Some out"
    using chart_eq [OF own, of fs] by blast
  have a: "set out = {share_entry fs fd y r c | y r c.
                    \<exists>d\<in>set fd. year d = y \<and> region d = r \<and> country d = c}"
    using out own by (rule chart_set)
  have b: "\<forall>y r. region_total fs fd y r > 0 \<longrightarrow>
             sum_list (map re_value (filter (\<lambda>e. re_year e = Some y \<and> re_region e = r) out)) = 100"
    if "marketEvaluation fs \<noteq> By_Volume"
    using group_sum [OF out own that] by blast
  have c: "\<forall>y r. region_total fs fd y r \<noteq> 0 \<longrightarrow>
             sum_list (map re_value (filter (\<lambda>e. re_year e = Some y \<and> re_region e = r) out)) = 100"
    if mode: "marketEvaluation fs \<noteq> By_Volume" and nonneg: "\<forall>d\<in>set fd. 0 \<le> marketValueUsd d"
  proof (intro allI impI)
    fix y r assume nz: "region_total fs fd y r \<noteq> 0"
    have "\<forall>d\<in>set fd. 0 \<le> getDataValue fs d"
      using mode nonneg by (simp add: getDataValue_def)
    then have "0 \<le> region_total fs fd y r" by (rule region_total_nonneg)
    then have "region_total fs fd y r > 0" using nz by simp
    then show "sum_list (map re_value
        (filter (\<lambda>e. re_year e = Some y \<and> re_region e = r) out)) = 100"
      using b [OF mode] by blast
  qed
  have d: "\<forall>y r c. re_value (share_entry fs fd y r c)
                = (if region_total fs fd y r > 0
                   then country_total fs fd y r c / region_total fs fd y r * 100 else 0)"
    if "marketEvaluation fs \<noteq> By_Volume"
    using that by (simp add: share_entry_def)
  have e: "\<forall>y r c. region_total fs fd y r = 0 \<longrightarrow> re_value (share_entry fs fd y r c) = 0"
    if "marketEvaluation fs \<noteq> By_Volume"
    using that by (simp add: share_entry_def)
  have f: "\<forall>y r c. re_value (share_entry fs fd y r c)
             = sum_list (map (\<lambda>d. real_of_int (volumeUnits d))
                 (filter (\<lambda>d. year d = y \<and> region d = r \<and> country d = c) fd))"
    if "marketEvaluation fs = By_Volume"
  proof -
    have "getDataValue fs = (\<lambda>d. real_of_int (volumeUnits d))"
      using that by (intro ext) (simp add: getDataValue_def)
    then show ?thesis using that by (simp add: share_entry_def country_total_def)
  qed
  from out a b c d e f show ?thesis by blast
qed

theorem region_country_shares_witness:
  "list_all (\<lambda>d. \<not> inherited_key (region d) \<and> \<not> inherited_key (country d)) share_data
   \<and> (\<exists>out. regionCountryPercentageChartData no_filters share_data = Some out
     \<and> sum_list (map re_value
          (filter (\<lambda>e. re_year e = Some 2024 \<and> re_region e = ''North India'') out)) = 100
     \<and> re_value (share_entry no_filters share_data 2024 ''North India'' ''Delhi'') = 25
     \<and> re_value (share_entry no_filters share_data 2025 ''South India'' ''Kerala'') = 0
     \<and> re_value (share_entry (no_filters\<lparr>marketEvaluation := By_Volume\<rparr>) share_data
          2024 ''North India'' ''Punjab'') = 7)"
proof -
  have own: "\<forall>d\<in>set share_data. \<not> inherited_key (region d) \<and> \<not> inherited_key (country d)"
    by (simp add: share_data_def example_record_def inherited_key_def Object_prototype_keys_def)
  then have own': "list_all (\<lambda>d. \<not> inherited_key (region d) \<and> \<not> inherited_key (country d))
      share_data"
    by (simp only: list_all_iff)
  have t: "region_total no_filters share_data 2024 ''North India'' = 4"
    "region_total no_filters share_data 2025 ''South India'' = 0"
    "country_total no_filters share_data 2024 ''North India'' ''Delhi'' = 1"
    by (simp_all add: region_total_def country_total_def share_data_def example_record_def
        getDataValue_def no_filters_def)
  have m: "marketEvaluation no_filters \<noteq> By_Volume" by (simp add: no_filters_def)
  have nonneg: "\<forall>d\<in>set share_data. 0 \<le> marketValueUsd d"
    by (simp add: share_data_def example_record_def)
  have v: "sum_list (map (\<lambda>d. real_of_int (volumeUnits d))
      (filter (\<lambda>d. year d = 2024 \<and> region d = ''North India'' \<and> country d = ''Punjab'')
         share_data)) = 7"
    by (simp add: share_data_def example_record_def)
  have "marketEvaluation (no_filters\<lparr>marketEvaluation := By_Volume\<rparr>) = By_Volume"
    by simp
  with region_country_shares [OF own, of "no_filters\<lparr>marketEvaluation := By_Volume\<rparr>"]
  have "\<forall>y r c. re_value (share_entry (no_filters\<lparr>marketEvaluation := By_Volume\<rparr>)
            share_data y r c)
        = sum_list (map (\<lambda>d. real_of_int (volumeUnits d))
            (filter (\<lambda>d. year d = y \<and> region d = r \<and> country d = c) share_data))"
    by blast
  then have vol: "re_value (share_entry (no_filters\<lparr>marketEvaluation := By_Volume\<rparr>) share_data
          2024 ''North India'' ''Punjab'') = 7"
    using v by simp
  obtain out where out: "regionCountryPercentageChartData no_filters share_data = Some out"
    and s: "\<forall>y r. region_total no_filters share_data y r \<noteq> 0 \<longrightarrow>
       sum_list (map re_value (filter (\<lambda>e. re_year e = Some y \<and> re_region e = r) out)) = 100"
    and val: "\<forall>y r c. re_value (share_entry no_filters share_data y r c)
                = (if region_total no_filters share_data y r > 0
                   then country_total no_filters share_data y r c
                        / region_total no_filters share_data y r * 100 else 0)"
    using region_country_shares [OF own, of no_filters] m nonneg by blast
  have "sum_list (map re_value
          (filter (\<lambda>e. re_year e = Some 2024 \<and> re_region e = ''North India'') out)) = 100"
    using s t(1) by simp
  moreover have "re_value (share_entry no_filters share_data 2024 ''North India'' ''Delhi'') = 25"
    using val t by simp
  moreover have "re_value (share_entry no_filters share_data 2025 ''South India'' ''Kerala'') = 0"
    using val t by simp
  ultimately show ?thesis using out vol own' by blast
qed

subsection \<open>The records of the generator\<close>

lemma seededRandom_range:
  "0 \<le> fst (seededRandom sd) \<and> fst (seededRandom sd) < 1"
proof -
  have "0 \<le> (sd * 9301 + 49297) mod 233280" "(sd * 9301 + 49297) mod 233280 < 233280"
    by simp_all
  then show ?thesis by (simp add: seededRandom_def Let_def)
qed

lemma pick_in_range:
  assumes "xs \<noteq> []" "0 \<le> r" "r < 1"
  shows "\<exists>x\<in>set xs. pick xs r = Some x"
proof -
  let ?n = "real (length xs)"
  have n: "0 < ?n" using assms(1) by simp
  have "0 \<le> r * ?n" using assms(2) by simp
  then have lo: "0 \<le> \<lfloor>r * ?n\<rfloor>" by simp
  have "r * ?n < ?n" using assms(3) n by simp
  then have "\<lfloor>r * ?n\<rfloor> < int (length xs)" by (simp add: floor_less_iff)
  then have "pick xs r = Some (xs ! nat \<lfloor>r * ?n\<rfloor>)" "nat \<lfloor>r * ?n\<rfloor> < length xs"
    using lo by (simp_all add: pick_def js_index_def Math_floor_def nat_less_iff)
  then show ?thesis by (metis nth_mem)
qed

lemma pick_draw:
  "xs \<noteq> [] \<Longrightarrow> \<exists>x\<in>set xs. pick xs (fst (seededRandom sd)) = Some x"
  using pick_in_range seededRandom_range by blast

lemma arrays_nonempty:
  "professions \<noteq> []" "salesChannels \<noteq> []" "offlineChannels \<noteq> []"
  "onlineChannels \<noteq> []" "brands \<noteq> []" "companies \<noteq> []"
  by (simp_all add: professions_def salesChannels_def offlineChannels_def onlineChannels_def
      brands_def companies_def)

text \<open>What one pass of the loop body appends.\<close>

lemma emit_record_Some:
  assumes rm: "regionMult = Some (regionVolume, regionMarketShare)"
    and bm: "bladeMult = Some (bladePrice, bladeVolume)"
    and am: "appMult = Some (appVolume, appPrice)"
    and pm: "productMult = (productPrice, productVolume, productCagr)"
  shows "\<exists>s' profession salesChannel distributionChannel brand company p vol f ms cg yg q.
     emit_record yr rg ct pt bl hl ap regionMult productMult bladeMult handleMult appMult st
       = Some \<lparr>gs_seed = s', gs_recordId = gs_recordId st + 1,
               gs_data = gs_data st @
                 [\<lparr>recordId = gs_recordId st, year = yr, region = rg, country = ct,
                   productType = pt, bladeMaterial = bl, handleLength = hl, application = ap,
                   endUser = profession, distributionChannelType = salesChannel,
                   distributionChannel = distributionChannel, brand = brand, company = company,
                   price = round2 p, volumeUnits = vol, qty = q,
                   revenue = round2 (p * of_int vol),
                   marketValueUsd = round2 (p * of_int vol * f),
                   val = round2 (p * of_int vol * f),
                   marketSharePct = ms, cagr = cg, yoyGrowth = yg\<rparr>]\<rparr>
     \<and> profession \<in> set professions \<and> salesChannel \<in> set salesChannels
     \<and> distributionChannel \<in> set offlineChannels \<union> set onlineChannels
     \<and> brand \<in> set brands \<and> company \<in> set companies
     \<and> 0.9 \<le> f \<and> f < 1.1
     \<and> (\<exists>b v. 10 \<le> b \<and> b < 100 \<and> 100 \<le> v \<and> v < 1000
          \<and> p = b * productPrice * bladePrice * brandMult_of brand * handleMult
                  * (1 + (real yr - 2021) * 0.02)
          \<and> (\<exists>cv. (cv = 1.3 \<or> cv = 1.2)
               \<and> vol = \<lfloor>v * regionVolume * productVolume * bladeVolume * appVolume * cv
                          * (1 + (real yr - 2021) * 0.05)\<rfloor>))"
proof -
  let ?s0 = "gs_seed st"
  obtain r1 s1 where d1: "seededRandom ?s0 = (r1, s1)" by force
  obtain r2 s2 where d2: "seededRandom s1 = (r2, s2)" by force
  obtain r3 s3 where d3: "seededRandom s2 = (r3, s3)" by force
  obtain r4 s4 where d4: "seededRandom s3 = (r4, s4)" by force
  obtain r5 s5 where d5: "seededRandom s4 = (r5, s5)" by force
  obtain r6 s6 where d6: "seededRandom s5 = (r6, s6)" by force
  obtain r7 s7 where d7: "seededRandom s6 = (r7, s7)" by force
  obtain r8 s8 where d8: "seededRandom s7 = (r8, s8)" by force
  obtain r9 s9 where d9: "seededRandom s8 = (r9, s9)" by force
  obtain r10 s10 where d10: "seededRandom s9 = (r10, s10)" by force
  obtain r11 s11 where d11: "seededRandom s10 = (r11, s11)" by force
  obtain r12 s12 where d12: "seededRandom s11 = (r12, s12)" by force
  have rng: "0 \<le> r1 \<and> r1 < 1" "0 \<le> r2 \<and> r2 < 1" "0 \<le> r3 \<and> r3 < 1" "0 \<le> r4 \<and> r4 < 1"
    "0 \<le> r5 \<and> r5 < 1" "0 \<le> r6 \<and> r6 < 1" "0 \<le> r7 \<and> r7 < 1" "0 \<le> r8 \<and> r8 < 1"
    using seededRandom_range [of ?s0] seededRandom_range [of s1] seededRandom_range [of s2]
      seededRandom_range [of s3] seededRandom_range [of s4] seededRandom_range [of s5]
      seededRandom_range [of s6] seededRandom_range [of s7]
    by (simp_all add: d1 d2 d3 d4 d5 d6 d7 d8)
  obtain profession where pr: "pick professions r1 = Some profession" "profession \<in> set professions"
    using pick_in_range [of professions r1] rng(1) arrays_nonempty by blast
  obtain salesChannel where sc: "pick salesChannels r2 = Some salesChannel"
      "salesChannel \<in> set salesChannels"
    using pick_in_range [of salesChannels r2] rng(2) arrays_nonempty by blast
  obtain channelMult where cm: "map_of distributionChannelMultipliers
        (if str_includes salesChannel ''Offline'' then ''Offline'' else ''Online'') = Some channelMult"
      "fst channelMult = 1.3 \<or> fst channelMult = 1.2"
    by (cases "str_includes salesChannel ''Offline''")
       (simp_all add: distributionChannelMultipliers_def)
  obtain distributionChannel where dc:
      "(if str_includes salesChannel ''Offline'' then pick offlineChannels r3
        else pick onlineChannels r3) = Some distributionChannel"
      "distributionChannel \<in> set offlineChannels \<union> set onlineChannels"
  proof (cases "str_includes salesChannel ''Offline''")
    case True
    then show ?thesis
      using that pick_in_range [of offlineChannels r3] rng(3) arrays_nonempty by auto
  next
    case False
    then show ?thesis
      using that pick_in_range [of onlineChannels r3] rng(3) arrays_nonempty by auto
  qed
  obtain brand where br: "pick brands r4 = Some brand" "brand \<in> set brands"
    using pick_in_range [of brands r4] rng(4) arrays_nonempty by blast
  obtain company where co: "pick companies r5 = Some company" "company \<in> set companies"
    using pick_in_range [of companies r5] rng(5) arrays_nonempty by blast
  obtain channelVolume channelPrice where cmp: "channelMult = (channelVolume, channelPrice)"
    by (cases channelMult)
  have cv: "channelVolume = 1.3 \<or> channelVolume = 1.2" using cm(2) cmp by simp
  let ?p = "(10 + r6 * 90) * productPrice * bladePrice * brandMult_of brand * handleMult
              * (1 + (real yr - 2021) * 0.02)"
  let ?vol = "\<lfloor>(100 + r7 * 900) * regionVolume * productVolume * bladeVolume * appVolume
              * channelVolume * (1 + (real yr - 2021) * 0.05)\<rfloor>"
  let ?f = "0.9 + r8 * 0.2"
  have eq: "emit_record yr rg ct pt bl hl ap regionMult productMult bladeMult handleMult appMult st
       = Some \<lparr>gs_seed = s12, gs_recordId = gs_recordId st + 1,
               gs_data = gs_data st @
                 [\<lparr>recordId = gs_recordId st, year = yr, region = rg, country = ct,
                   productType = pt, bladeMaterial = bl, handleLength = hl, application = ap,
                   endUser = profession, distributionChannelType = salesChannel,
                   distributionChannel = distributionChannel, brand = brand, company = company,
                   price = round2 ?p, volumeUnits = ?vol,
                   qty = Math_floor (of_int ?vol * (0.8 + r12 * 0.4)),
                   revenue = round2 (?p * of_int ?vol),
                   marketValueUsd = round2 (?p * of_int ?vol * ?f),
                   val = round2 (?p * of_int ?vol * ?f),
                   marketSharePct = round2 ((1 + r9 * 24) * regionMarketShare * brandMult_of brand),
                   cagr = round2 ((- 2 + r10 * 12) * productCagr),
                   yoyGrowth = round2 (- 5 + r11 * 20)\<rparr>]\<rparr>"
    unfolding emit_record_def
    by (simp add: d1 d2 d3 d4 d5 d6 d7 d8 d9 d10 d11 d12 pr(1) sc(1) cm(1) dc(1) br(1) co(1)
        rm bm am pm cmp Let_def Math_floor_def)
  have f: "0.9 \<le> ?f \<and> ?f < 1.1" using rng(8) by simp
  have b: "10 \<le> 10 + r6 * 90 \<and> 10 + r6 * 90 < 100" using rng(6) by simp
  have v: "100 \<le> 100 + r7 * 900 \<and> 100 + r7 * 900 < 1000" using rng(7) by simp
  show ?thesis
    using eq pr(2) sc(2) dc(2) br(2) co(2) f b v cv by blast
qed

lemma table_positive:
  "map_of tbl k = Some m \<Longrightarrow> \<forall>e\<in>set tbl. P (snd e) \<Longrightarrow> P m"
  by (auto dest!: map_of_SomeD)

lemma region_mult:
  assumes "rg \<in> set regions"
  shows "\<exists>v m. map_of regionMultipliers rg = Some (v, m) \<and> 0 < v \<and> 0 < m"
proof -
  have "map fst regionMultipliers = regions"
    by (simp add: regionMultipliers_def regions_def)
  then have "rg \<in> fst ` set regionMultipliers" using assms by (metis set_map)
  then obtain m where m: "map_of regionMultipliers rg = Some m"
    by (metis map_of_eq_None_iff not_Some_eq)
  have "\<forall>e\<in>set regionMultipliers. 0 < fst (snd e) \<and> 0 < snd (snd e)"
    by (simp add: regionMultipliers_def)
  then have "0 < fst m \<and> 0 < snd m" using m by (rule table_positive [rotated])
  then show ?thesis using m by (cases m) auto
qed

lemma blade_mult:
  assumes "bl \<in> set bladeMaterials"
  shows "\<exists>p v. map_of bladeMaterialMultipliers bl = Some (p, v) \<and> 0 < p \<and> 0 < v"
proof -
  have "map fst bladeMaterialMultipliers = bladeMaterials"
    by (simp add: bladeMaterialMultipliers_def bladeMaterials_def)
  then have "bl \<in> fst ` set bladeMaterialMultipliers" using assms by (metis set_map)
  then obtain m where m: "map_of bladeMaterialMultipliers bl = Some m"
    by (metis map_of_eq_None_iff not_Some_eq)
  have "\<forall>e\<in>set bladeMaterialMultipliers. 0 < fst (snd e) \<and> 0 < snd (snd e)"
    by (simp add: bladeMaterialMultipliers_def)
  then have "0 < fst m \<and> 0 < snd m" using m by (rule table_positive [rotated])
  then show ?thesis using m by (cases m) auto
qed

lemma app_mult:
  assumes "ap \<in> set applications"
  shows "\<exists>v p. map_of applicationMultipliers ap = Some (v, p) \<and> 0 < v \<and> 0 < p"
proof -
  have "map fst applicationMultipliers = applications"
    by (simp add: applicationMultipliers_def applications_def)
  then have "ap \<in> fst ` set applicationMultipliers" using assms by (metis set_map)
  then obtain m where m: "map_of applicationMultipliers ap = Some m"
    by (metis map_of_eq_None_iff not_Some_eq)
  have "\<forall>e\<in>set applicationMultipliers. 0 < fst (snd e) \<and> 0 < snd (snd e)"
    by (simp add: applicationMultipliers_def)
  then have "0 < fst m \<and> 0 < snd m" using m by (rule table_positive [rotated])
  then show ?thesis using m by (cases m) auto
qed

lemma product_mult:
  "\<exists>p v c. getProductTypeMultiplier pt = (p, v, c) \<and> 0 < p \<and> 0 < v \<and> 0 < c"
proof (cases "map_of productTypeMultipliers (split_first '' - '' pt)")
  case None
  then show ?thesis by (simp add: getProductTypeMultiplier_def Let_def)
next
  case (Some m)
  have "\<forall>e\<in>set productTypeMultipliers.
      0 < fst (snd e) \<and> 0 < fst (snd (snd e)) \<and> 0 < snd (snd (snd e))"
    by (simp add: productTypeMultipliers_def)
  then have "0 < fst m \<and> 0 < fst (snd m) \<and> 0 < snd (snd m)"
    using Some by (rule table_positive [rotated])
  then show ?thesis using Some
    by (cases m) (auto simp: getProductTypeMultiplier_def Let_def)
qed

lemma fold_brand_values:
  "fold (\<lambda>(b, idx) m. m(b \<mapsto> g idx)) xs m0 k = Some v \<Longrightarrow> m0 k = Some v \<or> (\<exists>idx. v = g idx)"
proof (induction xs arbitrary: m0)
  case Nil
  then show ?case by simp
next
  case (Cons x xs)
  obtain b idx where x: "x = (b, idx)" by (cases x)
  from Cons.prems have "fold (\<lambda>(b, idx) m. m(b \<mapsto> g idx)) xs (m0(b \<mapsto> g idx)) k = Some v"
    unfolding x by (simp only: fold_simps prod.case)
  then have "(m0(b \<mapsto> g idx)) k = Some v \<or> (\<exists>idx. v = g idx)" by (rule Cons.IH)
  then show ?case by (cases "k = b") auto
qed

lemma brandMult_positive: "0 < brandMult_of b"
proof (cases "brandPremiumMap b")
  case None
  then show ?thesis by (simp add: brandMult_of_def)
next
  case (Some v)
  then have "\<exists>idx::nat. v = 0.8 + real (idx mod 3) * 0.4"
    using fold_brand_values [of "\<lambda>idx. 0.8 + real (idx mod 3) * 0.4"
        "zip brands [0..<length brands]" Map.empty b v]
    by (simp add: brandPremiumMap_def)
  then have "0 < v" by auto
  then show ?thesis using Some by (simp add: brandMult_of_def)
qed

lemma handleMult_positive: "0 < handleMult_of hl"
  by (simp add: handleMult_of_def)

lemma years_from_2021: "yr \<in> set years \<Longrightarrow> 2021 \<le> yr"
  by (auto simp: years_def)

lemma emit_valid:
  assumes "yr \<in> set years" "rg \<in> set regions" "bl \<in> set bladeMaterials" "ap \<in> set applications"
  shows "\<exists>st' rec. emit_in_loops yr rg ct pt bl hl ap st = Some st'
     \<and> gs_data st' = gs_data st @ [rec] \<and> gs_recordId st' = gs_recordId st + 1
     \<and> emitted rec \<and> recordId rec = gs_recordId st
     \<and> year rec = yr \<and> region rec = rg \<and> country rec = ct \<and> productType rec = pt
     \<and> bladeMaterial rec = bl \<and> handleLength rec = hl \<and> application rec = ap"
proof -
  obtain rv rms where rm: "map_of regionMultipliers rg = Some (rv, rms)" "0 < rv"
    using region_mult [OF assms(2)] by blast
  obtain bp bv where bm: "map_of bladeMaterialMultipliers bl = Some (bp, bv)" "0 < bp" "0 < bv"
    using blade_mult [OF assms(3)] by blast
  obtain av app where am: "map_of applicationMultipliers ap = Some (av, app)" "0 < av"
    using app_mult [OF assms(4)] by blast
  obtain pp pv pc where pm: "getProductTypeMultiplier pt = (pp, pv, pc)" "0 < pp" "0 < pv"
    using product_mult [of pt] by blast
  have yr: "0 \<le> real yr - 2021" using years_from_2021 [OF assms(1)] by simp
  obtain s' profession salesChannel distributionChannel brand company p vol f ms cg yg q
    where e: "emit_record yr rg ct pt bl hl ap (map_of regionMultipliers rg)
          (getProductTypeMultiplier pt) (map_of bladeMaterialMultipliers bl) (handleMult_of hl)
          (map_of applicationMultipliers ap) st
       = Some \<lparr>gs_seed = s', gs_recordId = gs_recordId st + 1,
               gs_data = gs_data st @
                 [\<lparr>recordId = gs_recordId st, year = yr, region = rg, country = ct,
                   productType = pt, bladeMaterial = bl, handleLength = hl, application = ap,
                   endUser = profession, distributionChannelType = salesChannel,
                   distributionChannel = distributionChannel, brand = brand, company = company,
                   price = round2 p, volumeUnits = vol, qty = q,
                   revenue = round2 (p * of_int vol),
                   marketValueUsd = round2 (p * of_int vol * f),
                   val = round2 (p * of_int vol * f),
                   marketSharePct = ms, cagr = cg, yoyGrowth = yg\<rparr>]\<rparr>"
      and mem: "profession \<in> set professions" "salesChannel \<in> set salesChannels"
        "distributionChannel \<in> set offlineChannels \<union> set onlineChannels"
        "brand \<in> set brands" "company \<in> set companies"
      and f: "0.9 \<le> f" "f < 1.1"
      and num: "\<exists>b v. 10 \<le> b \<and> b < 100 \<and> 100 \<le> v \<and> v < 1000
          \<and> p = b * pp * bp * brandMult_of brand * handleMult_of hl
                  * (1 + (real yr - 2021) * 0.02)
          \<and> (\<exists>cv. (cv = 1.3 \<or> cv = 1.2)
               \<and> vol = \<lfloor>v * rv * pv * bv * av * cv * (1 + (real yr - 2021) * 0.05)\<rfloor>)"
    using emit_record_Some [OF rm(1) bm(1) am(1) pm(1), of yr rg ct pt bl hl ap "handleMult_of hl" st]
    by blast
  obtain b v cv where b: "10 \<le> b" "100 \<le> v" "cv = 1.3 \<or> cv = 1.2"
      and p: "p = b * pp * bp * brandMult_of brand * handleMult_of hl
                  * (1 + (real yr - 2021) * 0.02)"
      and vol: "vol = \<lfloor>v * rv * pv * bv * av * cv * (1 + (real yr - 2021) * 0.05)\<rfloor>"
    using num by blast
  have "0 \<le> b" "0 \<le> pp" "0 \<le> bp" "0 \<le> brandMult_of brand" "0 \<le> handleMult_of hl"
    "0 \<le> 1 + (real yr - 2021) * 0.02"
    using b(1) pm(2) bm(2) brandMult_positive [of brand] handleMult_positive [of hl] yr
    by simp_all
  then have p0: "0 \<le> p" unfolding p by (intro mult_nonneg_nonneg)
  have "0 \<le> v" "0 \<le> rv" "0 \<le> pv" "0 \<le> bv" "0 \<le> av" "0 \<le> cv"
    "0 \<le> 1 + (real yr - 2021) * 0.05"
    using b(2,3) rm(2) pm(3) bm(3) am(2) yr by auto
  then have "0 \<le> v * rv * pv * bv * av * cv * (1 + (real yr - 2021) * 0.05)"
    by (intro mult_nonneg_nonneg)
  then have v0: "0 \<le> vol" unfolding vol by simp
  show ?thesis
    unfolding emit_in_loops_def e
    using mem f p0 v0 by (auto simp: emitted_def)
qed

lemma for_each_inv:
  assumes "I s" and "\<And>x s. x \<in> set xs \<Longrightarrow> I s \<Longrightarrow> \<exists>s'. f x s = Some s' \<and> I s'"
  shows "\<exists>s'. for_each f xs s = Some s' \<and> I s'"
  using assms
proof (induction xs arbitrary: s)
  case Nil
  then show ?case by simp
next
  case (Cons x xs)
  obtain s1 where s1: "f x s = Some s1" "I s1"
    using Cons.prems(2) [of x s] Cons.prems(1) by auto
  have "\<exists>s'. for_each f xs s1 = Some s' \<and> I s'"
    using s1(2) Cons.prems(2) by (intro Cons.IH) auto
  then show ?case using s1(1) by simp
qed

lemma kept_by_emitD:
  "kept_by_emit I \<Longrightarrow> yr \<in> set years \<Longrightarrow> rg \<in> set regions \<Longrightarrow> bl \<in> set bladeMaterials \<Longrightarrow>
   ap \<in> set applications \<Longrightarrow> I st \<Longrightarrow>
   \<exists>st'. emit_in_loops yr rg ct pt bl hl ap st = Some st' \<and> I st'"
  unfolding kept_by_emit_def by blast

lemma loop_applications_inv:
  assumes "kept_by_emit I" "yr \<in> set years" "rg \<in> set regions" "bl \<in> set bladeMaterials" "I st"
  shows "\<exists>st'. loop_applications yr rg ct pt bl hl (map_of regionMultipliers rg)
            (getProductTypeMultiplier pt) (map_of bladeMaterialMultipliers bl) (handleMult_of hl) st
          = Some st' \<and> I st'"
  unfolding loop_applications_def Let_def
proof (rule for_each_inv [where I = I])
  show "I st" by (rule assms(5))
next
  fix ap s assume "ap \<in> set applications" "I s"
  then show "\<exists>s'. emit_record yr rg ct pt bl hl ap (map_of regionMultipliers rg)
            (getProductTypeMultiplier pt) (map_of bladeMaterialMultipliers bl) (handleMult_of hl)
            (map_of applicationMultipliers ap) s = Some s' \<and> I s'"
    using kept_by_emitD [OF assms(1-4), of ap s ct pt hl] by (simp add: emit_in_loops_def)
qed

lemma loop_handleLengths_inv:
  assumes "kept_by_emit I" "yr \<in> set years" "rg \<in> set regions" "bl \<in> set bladeMaterials" "I st"
  shows "\<exists>st'. loop_handleLengths yr rg ct pt bl (map_of regionMultipliers rg)
            (getProductTypeMultiplier pt) (map_of bladeMaterialMultipliers bl) st
          = Some st' \<and> I st'"
  unfolding loop_handleLengths_def Let_def
  by (rule for_each_inv [where I = I], rule assms(5), rule loop_applications_inv [OF assms(1-4)], assumption)

lemma loop_bladeMaterials_inv:
  assumes "kept_by_emit I" "yr \<in> set years" "rg \<in> set regions" "I st"
  shows "\<exists>st'. loop_bladeMaterials yr rg ct pt (map_of regionMultipliers rg)
            (getProductTypeMultiplier pt) st
          = Some st' \<and> I st'"
  unfolding loop_bladeMaterials_def Let_def
  by (rule for_each_inv [where I = I], rule assms(4), rule loop_handleLengths_inv [OF assms(1-3)], assumption)

lemma loop_productTypes_inv:
  assumes "kept_by_emit I" "yr \<in> set years" "rg \<in> set regions" "I st"
  shows "\<exists>st'. loop_productTypes yr rg ct (map_of regionMultipliers rg) st = Some st' \<and> I st'"
  unfolding loop_productTypes_def Let_def
  by (rule for_each_inv [where I = I], rule assms(4), rule loop_bladeMaterials_inv [OF assms(1-3)], assumption)

lemma loop_countries_inv:
  assumes "kept_by_emit I" "yr \<in> set years" "rg \<in> set regions" "I st"
  shows "\<exists>st'. loop_countries yr rg st = Some st' \<and> I st'"
  unfolding loop_countries_def Let_def
  by (rule for_each_inv [where I = I], rule assms(4), rule loop_productTypes_inv [OF assms(1-3)], assumption)

lemma loop_regions_inv:
  assumes "kept_by_emit I" "yr \<in> set years" "I st"
  shows "\<exists>st'. loop_regions yr st = Some st' \<and> I st'"
  unfolding loop_regions_def
  by (rule for_each_inv [where I = I], rule assms(3), rule loop_countries_inv [OF assms(1,2)], assumption)

lemma generate_loops_inv:
  assumes "kept_by_emit I" "I st"
  shows "\<exists>st'. generate_loops st = Some st' \<and> I st'"
  unfolding generate_loops_def
  by (rule for_each_inv [where I = I], rule assms(2), rule loop_regions_inv [OF assms(1)], assumption)

lemma kept_all_emitted: "kept_by_emit (\<lambda>st. \<forall>r\<in>set (gs_data st). emitted r)"
  unfolding kept_by_emit_def
proof (intro allI impI)
  fix yr rg ct pt bl hl ap and st :: gen_state
  assume h: "yr \<in> set years \<and> rg \<in> set regions \<and> bl \<in> set bladeMaterials
      \<and> ap \<in> set applications \<and> (\<forall>r\<in>set (gs_data st). emitted r)"
  then obtain st' rec where "emit_in_loops yr rg ct pt bl hl ap st = Some st'"
      "gs_data st' = gs_data st @ [rec]" "emitted rec"
    using emit_valid [of yr rg bl ap ct pt hl st] by blast
  then show "\<exists>st'. emit_in_loops yr rg ct pt bl hl ap st = Some st'
      \<and> (\<forall>r\<in>set (gs_data st'). emitted r)"
    using h by auto
qed

lemma generated_all_emitted:
  "\<exists>ds. generateComprehensiveData = Some ds \<and> (\<forall>r\<in>set ds. emitted r)"
proof -
  have "\<exists>st'. generate_loops \<lparr>gs_seed = 42, gs_recordId = 100000, gs_data = []\<rparr> = Some st'
      \<and> (\<forall>r\<in>set (gs_data st'). emitted r)"
    by (rule generate_loops_inv [OF kept_all_emitted]) simp
  then show ?thesis by (auto simp: generateComprehensiveData_def)
qed


lemma first_draws:
  "seededRandom 42 = (206659 / 233280, 206659)"
  "seededRandom 206659 = (190736 / 233280, 190736)"
  "seededRandom 190736 = (223713 / 233280, 223713)"
  "seededRandom 223713 = (179590 / 233280, 179590)"
  "seededRandom 179590 = (131087 / 233280, 131087)"
  "seededRandom 131087 = (168204 / 233280, 168204)"
  "seededRandom 168204 = (139021 / 233280, 139021)"
  "seededRandom 139021 = (12578 / 233280, 12578)"
  "seededRandom 12578 = (163995 / 233280, 163995)"
  "seededRandom 163995 = (182152 / 233280, 182152)"
  "seededRandom 182152 = (165689 / 233280, 165689)"
  "seededRandom 165689 = (75006 / 233280, 75006)"
  by (simp_all add: seededRandom_def)

lemma first_picks:
  "pick professions (206659 / 233280) = Some ''Health, Wellness & Beauty Professionals''"
  "pick salesChannels (11921 / 14580)
     = Some ''Offline Retail - Professional & Institutional - Aesthetic / Dermatology Clinics''"
  "pick offlineChannels (24857 / 25920) = Some ''Ayurvedic Clinics''"
  "pick brands (17959 / 23328) = Some ''Lotus Herbals''"
  "pick companies (131087 / 233280) = Some ''Khadi Natural''"
  by (simp_all add: pick_def js_index_def Math_floor_def professions_def salesChannels_def
      offlineChannels_def brands_def companies_def)

lemma first_lookups:
  "str_includes ''Offline Retail - Professional & Institutional - Aesthetic / Dermatology Clinics''
     ''Offline''"
  "brandMult_of ''Lotus Herbals'' = 1.2"
  "handleMult_of ''Mass'' = 0.8"
  by (simp_all add: startsWith_def brandMult_of_def brandPremiumMap_def brands_def handleMult_of_def)

lemma first_emit:
  "emit_in_loops 2021 ''North India'' ''North India'' ''Skin Care''
       ''Oils (Ayurvedic, Tonic, Carrier & Herbal blend)'' ''Mass'' ''Gen Z (Ages 10-25)''
       \<lparr>gs_seed = 42, gs_recordId = 100000, gs_data = []\<rparr>
     = Some \<lparr>gs_seed = 75006, gs_recordId = 100001, gs_data = [first_record]\<rparr>"
  by (simp add: emit_in_loops_def emit_record_def first_draws first_picks first_lookups
      regionMultipliers_def getProductTypeMultiplier_def productTypeMultipliers_def
      bladeMaterialMultipliers_def applicationMultipliers_def distributionChannelMultipliers_def
      startsWith_def Math_floor_def Math_round_def round2_def first_record_def)

lemma for_each_head:
  assumes "xs = x # xs'" "\<exists>s1. f x s = Some s1 \<and> I s1"
    and "\<And>y s. y \<in> set xs' \<Longrightarrow> I s \<Longrightarrow> \<exists>s'. f y s = Some s' \<and> I s'"
  shows "\<exists>s'. for_each f xs s = Some s' \<and> I s'"
proof -
  obtain s1 where s1: "f x s = Some s1" "I s1" using assms(2) by blast
  have "\<exists>s'. for_each f xs' s1 = Some s' \<and> I s'"
    using s1(2) assms(3) by (rule for_each_inv)
  then show ?thesis using s1(1) assms(1) by simp
qed

lemma kept_first: "kept_by_emit (\<lambda>st::gen_state. \<exists>tail. gs_data st = first_record # tail)"
  unfolding kept_by_emit_def
proof (intro allI impI)
  fix yr rg ct pt bl hl ap and st :: gen_state
  assume h: "yr \<in> set years \<and> rg \<in> set regions \<and> bl \<in> set bladeMaterials
      \<and> ap \<in> set applications \<and> (\<exists>tail. gs_data st = first_record # tail)"
  then obtain st' rec where "emit_in_loops yr rg ct pt bl hl ap st = Some st'"
      "gs_data st' = gs_data st @ [rec]"
    using emit_valid [of yr rg bl ap ct pt hl st] by blast
  then show "\<exists>st'. emit_in_loops yr rg ct pt bl hl ap st = Some st'
      \<and> (\<exists>tail. gs_data st' = first_record # tail)"
    using h by auto
qed

lemma first_members:
  "2021 \<in> set years" "''North India'' \<in> set regions"
  "''Oils (Ayurvedic, Tonic, Carrier & Herbal blend)'' \<in> set bladeMaterials"
  by (simp_all add: years_def regions_def bladeMaterials_def)

lemma first_heads:
  "applications = ''Gen Z (Ages 10-25)'' # tl applications"
  "handleLengths = ''Mass'' # tl handleLengths"
  "bladeMaterials = ''Oils (Ayurvedic, Tonic, Carrier & Herbal blend)'' # tl bladeMaterials"
  "productTypes = ''Skin Care'' # tl productTypes"
  "countriesToProcess ''North India'' = ''North India'' # []"
  "regions = ''North India'' # tl regions"
  "years = 2021 # tl years"
  by (simp_all add: applications_def handleLengths_def bladeMaterials_def productTypes_def
      countriesToProcess_def countryMap_def regions_def years_def upt_rec)

lemma in_tl: "xs = x # xs' \<Longrightarrow> y \<in> set xs' \<Longrightarrow> y \<in> set xs"
  by auto

lemma generate_loops_first:
  "\<exists>st'. generate_loops \<lparr>gs_seed = 42, gs_recordId = 100000, gs_data = []\<rparr> = Some st'
     \<and> (\<exists>tail. gs_data st' = first_record # tail)"
proof -
  let ?I = "\<lambda>st::gen_state. \<exists>tail. gs_data st = first_record # tail"
  let ?s0 = "\<lparr>gs_seed = 42, gs_recordId = 100000, gs_data = []\<rparr>"
  let ?rg = "''North India''"
  let ?pt = "''Skin Care''"
  let ?bl = "''Oils (Ayurvedic, Tonic, Carrier & Herbal blend)''"
  let ?hl = "''Mass''"
  let ?ap = "''Gen Z (Ages 10-25)''"
  note K = kept_first
  note M = first_members
  have 1: "\<exists>s1. loop_applications 2021 ?rg ?rg ?pt ?bl ?hl (map_of regionMultipliers ?rg)
            (getProductTypeMultiplier ?pt) (map_of bladeMaterialMultipliers ?bl)
            (handleMult_of ?hl) ?s0 = Some s1 \<and> ?I s1"
    unfolding loop_applications_def Let_def
  proof (rule for_each_head [where I = ?I, OF first_heads(1)])
    show "\<exists>s1. emit_record 2021 ?rg ?rg ?pt ?bl ?hl ?ap (map_of regionMultipliers ?rg)
            (getProductTypeMultiplier ?pt) (map_of bladeMaterialMultipliers ?bl)
            (handleMult_of ?hl) (map_of applicationMultipliers ?ap) ?s0 = Some s1 \<and> ?I s1"
      using first_emit unfolding emit_in_loops_def by simp
  next
    fix ap and s :: gen_state assume "ap \<in> set (tl applications)" "?I s"
    then have "ap \<in> set applications" "?I s"
      using in_tl [OF first_heads(1)] by blast+
    then show "\<exists>s'. emit_record 2021 ?rg ?rg ?pt ?bl ?hl ap (map_of regionMultipliers ?rg)
            (getProductTypeMultiplier ?pt) (map_of bladeMaterialMultipliers ?bl)
            (handleMult_of ?hl) (map_of applicationMultipliers ap) s = Some s' \<and> ?I s'"
      using kept_by_emitD [OF K M(1,2,3), of ap s ?rg ?pt ?hl] by (simp add: emit_in_loops_def)
  qed
  have 2: "\<exists>s1. loop_handleLengths 2021 ?rg ?rg ?pt ?bl (map_of regionMultipliers ?rg)
            (getProductTypeMultiplier ?pt) (map_of bladeMaterialMultipliers ?bl) ?s0
          = Some s1 \<and> ?I s1"
    unfolding loop_handleLengths_def Let_def
    by (rule for_each_head [where I = ?I, OF first_heads(2)], rule 1,
        rule loop_applications_inv [OF K M(1,2,3)], assumption)
  have 3: "\<exists>s1. loop_bladeMaterials 2021 ?rg ?rg ?pt (map_of regionMultipliers ?rg)
            (getProductTypeMultiplier ?pt) ?s0 = Some s1 \<and> ?I s1"
    unfolding loop_bladeMaterials_def Let_def
  proof (rule for_each_head [where I = ?I, OF first_heads(3)], rule 2)
    fix bl and s :: gen_state assume "bl \<in> set (tl bladeMaterials)" "?I s"
    then have "bl \<in> set bladeMaterials" "?I s"
      using in_tl [OF first_heads(3)] by blast+
    then show "\<exists>s'. loop_handleLengths 2021 ?rg ?rg ?pt bl (map_of regionMultipliers ?rg)
            (getProductTypeMultiplier ?pt) (map_of bladeMaterialMultipliers bl) s
          = Some s' \<and> ?I s'"
      by (intro loop_handleLengths_inv [OF K M(1,2)])
  qed
  have 4: "\<exists>s1. loop_productTypes 2021 ?rg ?rg (map_of regionMultipliers ?rg) ?s0 = Some s1
          \<and> ?I s1"
    unfolding loop_productTypes_def Let_def
    by (rule for_each_head [where I = ?I, OF first_heads(4)], rule 3,
        rule loop_bladeMaterials_inv [OF K M(1,2)], assumption)
  have 5: "\<exists>s1. loop_countries 2021 ?rg ?s0 = Some s1 \<and> ?I s1"
    unfolding loop_countries_def Let_def
    by (rule for_each_head [where I = ?I, OF first_heads(5)], rule 4,
        rule loop_productTypes_inv [OF K M(1,2)], assumption)
  have 6: "\<exists>s1. loop_regions 2021 ?s0 = Some s1 \<and> ?I s1"
    unfolding loop_regions_def
  proof (rule for_each_head [where I = ?I, OF first_heads(6)], rule 5)
    fix rg and s :: gen_state assume "rg \<in> set (tl regions)" "?I s"
    then have "rg \<in> set regions" "?I s"
      using in_tl [OF first_heads(6)] by blast+
    then show "\<exists>s'. loop_countries 2021 rg s = Some s' \<and> ?I s'"
      by (intro loop_countries_inv [OF K M(1)])
  qed
  show ?thesis
    unfolding generate_loops_def
  proof (rule for_each_head [where I = ?I, OF first_heads(7)], rule 6)
    fix yr and s :: gen_state assume "yr \<in> set (tl years)" "?I s"
    then have "yr \<in> set years" "?I s"
      using in_tl [OF first_heads(7)] by blast+
    then show "\<exists>s'. loop_regions yr s = Some s' \<and> ?I s'"
      by (intro loop_regions_inv [OF K])
  qed
qed

lemma generated_first:
  "\<exists>ds. generateComprehensiveData = Some ds \<and> ds \<noteq> [] \<and> hd ds = first_record"
  using generate_loops_first by (auto simp: generateComprehensiveData_def)

lemma emit_salesChannel:
  assumes "emit_in_loops yr rg ct pt bl hl ap st = Some st'"
  shows "\<exists>rec. gs_data st' = gs_data st @ [rec]
     \<and> pick salesChannels (fst (seededRandom (snd (seededRandom (gs_seed st)))))
         = Some (distributionChannelType rec)"
  using assms unfolding emit_in_loops_def emit_record_def
  by (auto simp: Let_def split: prod.splits bind_splits)

lemma salesChannels_prefixes:
  "\<forall>s\<in>set salesChannels.
     (startsWith s ''D2C'' \<or> startsWith s ''Offline'' \<or> startsWith s ''Others'')
     \<and> distributionChannelType_of s = s \<and> s \<noteq> ''Online''"
  by (simp add: salesChannels_def startsWith_def distributionChannelType_of_def)

text \<open>
  C10. In every pass of the loop body the field \<^verbatim>\<open>distributionChannelType\<close> of the record
  pushed is the sales channel picked with the second draw of the pass. Every entry of
  \<^verbatim>\<open>salesChannels\<close> starts with "D2C", "Offline" or "Others", so the ternary gives the entry
  back and never "Online". The generator returns, and in every record it returns the field
  is an entry of \<^verbatim>\<open>salesChannels\<close>, is kept by the ternary, and is not "Online".
\<close>

theorem distributionChannelType_is_salesChannel:
  "(\<forall>yr rg ct pt bl hl ap st st'.
      emit_in_loops yr rg ct pt bl hl ap st = Some st' \<longrightarrow>
      (\<exists>rec. gs_data st' = gs_data st @ [rec]
         \<and> pick salesChannels (fst (seededRandom (snd (seededRandom (gs_seed st)))))
             = Some (distributionChannelType rec)))
   \<and> (\<forall>s\<in>set salesChannels.
         (startsWith s ''D2C'' \<or> startsWith s ''Offline'' \<or> startsWith s ''Others'')
         \<and> distributionChannelType_of s = s)
   \<and> (\<exists>ds. generateComprehensiveData = Some ds
         \<and> (\<forall>r\<in>set ds. distributionChannelType r \<in> set salesChannels
               \<and> distributionChannelType_of (distributionChannelType r) = distributionChannelType r
               \<and> distributionChannelType r \<noteq> ''Online''))"
proof -
  have a: "\<forall>yr rg ct pt bl hl ap st st'.
      emit_in_loops yr rg ct pt bl hl ap st = Some st' \<longrightarrow>
      (\<exists>rec. gs_data st' = gs_data st @ [rec]
         \<and> pick salesChannels (fst (seededRandom (snd (seededRandom (gs_seed st)))))
             = Some (distributionChannelType rec))"
    using emit_salesChannel by blast
  have b: "\<forall>s\<in>set salesChannels.
         (startsWith s ''D2C'' \<or> startsWith s ''Offline'' \<or> startsWith s ''Others'')
         \<and> distributionChannelType_of s = s"
    using salesChannels_prefixes by blast
  obtain ds where ds: "generateComprehensiveData = Some ds" "\<forall>r\<in>set ds. emitted r"
    using generated_all_emitted by blast
  have "distributionChannelType r \<in> set salesChannels
      \<and> distributionChannelType_of (distributionChannelType r) = distributionChannelType r
      \<and> distributionChannelType r \<noteq> ''Online''" if "r \<in> set ds" for r
  proof -
    have "distributionChannelType r \<in> set salesChannels"
      using ds(2) that by (simp add: emitted_def)
    then show ?thesis using salesChannels_prefixes by blast
  qed
  with ds(1) a b show ?thesis by blast
qed

text \<open>The first record of the data: its sales channel is the entry at index 11.\<close>

theorem distributionChannelType_is_salesChannel_witness:
  "\<exists>ds. generateComprehensiveData = Some ds \<and> ds \<noteq> []
     \<and> distributionChannelType (hd ds)
         = ''Offline Retail - Professional & Institutional - Aesthetic / Dermatology Clinics''
     \<and> distributionChannelType (hd ds) \<in> set salesChannels
     \<and> distributionChannelType_of (distributionChannelType (hd ds)) = distributionChannelType (hd ds)
     \<and> distributionChannelType (hd ds) \<noteq> ''Online''"
proof -
  obtain ds where ds: "generateComprehensiveData = Some ds" "ds \<noteq> []" "hd ds = first_record"
    using generated_first by blast
  have "hd ds \<in> set ds" using ds(2) by simp
  moreover have "\<forall>r\<in>set ds. distributionChannelType r \<in> set salesChannels
               \<and> distributionChannelType_of (distributionChannelType r) = distributionChannelType r
               \<and> distributionChannelType r \<noteq> ''Online''"
  proof -
    obtain ds' where ds': "generateComprehensiveData = Some ds'"
        "\<forall>r\<in>set ds'. distributionChannelType r \<in> set salesChannels
               \<and> distributionChannelType_of (distributionChannelType r) = distributionChannelType r
               \<and> distributionChannelType r \<noteq> ''Online''"
      using distributionChannelType_is_salesChannel by blast
    have "Some ds = Some ds'" by (rule trans [OF ds(1) [symmetric] ds'(1)])
    then have "ds' = ds" by simp
    then show ?thesis using ds'(2) by simp
  qed
  ultimately have "distributionChannelType (hd ds) \<in> set salesChannels
     \<and> distributionChannelType_of (distributionChannelType (hd ds)) = distributionChannelType (hd ds)
     \<and> distributionChannelType (hd ds) \<noteq> ''Online''"
    by blast
  moreover have "distributionChannelType (hd ds)
         = ''Offline Retail - Professional & Institutional - Aesthetic / Dermatology Clinics''"
    by (simp add: ds(3) first_record_def)
  ultimately show ?thesis using ds(1,2) by blast
qed

end
